(* ===== verification/Prelude.thy ===== *)
theory Prelude
  imports Main "HOL-Library.List_Lexorder" "HOL-Library.Char_ord" "HOL-Library.Product_Lexorder"
begin

text \<open>
  What every component shares: the collections the proofs are driven by, and the
  standard-library iterator functions the code uses (\<open>Iterator::max_by_key\<close>,
  \<open>Vec::dedup_by\<close>), with the few facts about lists with unique keys that the tables need.

  \<^item> \<open>tx_simps\<close>: equations that run a transaction body one statement at a time;
  \<^item> \<open>tx_hoare\<close>: the rules of the transaction logic, used backwards;
  \<^item> \<open>store_simps\<close>: what a statement leaves of each table.
\<close>

named_theorems tx_simps \<open>equations that run a transaction body\<close>
named_theorems tx_hoare \<open>rules of the transaction logic\<close>
named_theorems store_simps \<open>the effect of a statement on the tables\<close>

section \<open>Iterator functions of the standard library\<close>

text \<open>\<open>Iterator::max_by_key\<close>: of several greatest elements, the LAST one.\<close>

definition max_by_key :: "('a \<Rightarrow> 'k::linorder) \<Rightarrow> 'a list \<Rightarrow> 'a option" where
  "max_by_key f xs =
     (case xs of [] \<Rightarrow> None
      | x # ys \<Rightarrow> Some (fold (\<lambda>y best. if f best \<le> f y then y else best) ys x))"

text \<open>\<open>Vec::dedup_by\<close>: of CONSECUTIVE equal elements the first is kept; the closure is
  called with the current element and the last one retained.\<close>

fun dedup_by :: "('a \<Rightarrow> 'a \<Rightarrow> bool) \<Rightarrow> 'a list \<Rightarrow> 'a list" where
  "dedup_by same [] = []"
| "dedup_by same [x] = [x]"
| "dedup_by same (x # y # zs) =
     (if same y x then dedup_by same (x # zs) else x # dedup_by same (y # zs))"

lemma fold_max_in: "fold (\<lambda>y best. if f best \<le> f y then y else best) ys x \<in> set (x # ys)"
proof (induction ys arbitrary: x)
  case (Cons y ys)
  show ?case using Cons[of y] Cons[of x] by auto
qed simp

lemma fold_max_ge:
  fixes f :: "'a \<Rightarrow> 'k::linorder"
  shows "z \<in> set (x # ys) \<Longrightarrow> f z \<le> f (fold (\<lambda>y best. if f best \<le> f y then y else best) ys x)"
proof (induction ys arbitrary: x z)
  case (Cons y ys)
  define m where "m = (if f x \<le> f y then y else x)"
  have m: "f x \<le> f m" "f y \<le> f m" by (auto simp: m_def)
  let ?r = "fold (\<lambda>y best. if f best \<le> f y then y else best) ys m"
  have top: "f m \<le> f ?r" by (rule Cons.IH) simp
  from Cons.prems consider "z = x" | "z = y" | "z \<in> set ys" by auto
  then have "f z \<le> f ?r"
  proof cases
    case 1
    then show ?thesis using order_trans[OF m(1) top] by simp
  next
    case 2
    then show ?thesis using order_trans[OF m(2) top] by simp
  next
    case 3
    then show ?thesis by (intro Cons.IH) simp
  qed
  then show ?case by (simp add: m_def)
qed simp

lemma max_by_key_None [simp]: "max_by_key f xs = None \<longleftrightarrow> xs = []"
  by (simp add: max_by_key_def split: list.splits)

lemma max_by_key_in: "max_by_key f xs = Some x \<Longrightarrow> x \<in> set xs"
  using fold_max_in[of f] by (auto simp: max_by_key_def split: list.splits)

lemma max_by_key_ge: "max_by_key f xs = Some x \<Longrightarrow> y \<in> set xs \<Longrightarrow> f y \<le> f x"
  using fold_max_ge[of y _ _ f] by (auto simp: max_by_key_def split: list.splits)

lemma set_dedup_by: "set (dedup_by same xs) \<subseteq> set xs"
  by (induction same xs rule: dedup_by.induct) auto

lemma dedup_by_hd: "xs \<noteq> [] \<Longrightarrow> dedup_by same xs \<noteq> [] \<and> hd (dedup_by same xs) = hd xs"
  by (induction same xs rule: dedup_by.induct) auto

lemma dedup_by_keys:
  assumes "\<And>a b. same a b \<longleftrightarrow> key a = key b"
  shows "key ` set (dedup_by same xs) = key ` set xs"
  using assms
proof (induction same xs rule: dedup_by.induct)
  case (3 same x y zs)
  then show ?case by (cases "same y x") auto
qed auto

text \<open>On a list sorted by its key, removing consecutive equals leaves every key once.\<close>

lemma dedup_by_distinct:
  fixes key :: "'a \<Rightarrow> 'k::linorder"
  assumes "\<And>a b. same a b \<longleftrightarrow> key a = key b"
  shows "sorted (map key xs) \<Longrightarrow> distinct (map key (dedup_by same xs))"
  using assms
proof (induction same xs rule: dedup_by.induct)
  case (3 same x y zs)
  show ?case
  proof (cases "same y x")
    case True
    with 3 show ?thesis by simp
  next
    case False
    then have ne: "key x \<noteq> key y" using "3.prems"(2)[of y x] by auto
    from "3.prems"(1) ne have less: "key x < key y" by (simp add: less_le)
    have "\<forall>z \<in> set (dedup_by same (y # zs)). key y \<le> key z"
      using set_dedup_by[of same "y # zs"] "3.prems"(1) by auto
    with less have "key x \<notin> key ` set (dedup_by same (y # zs))" by force
    moreover have "distinct (map key (dedup_by same (y # zs)))"
      by (rule "3.IH"(2)[OF False _ "3.prems"(2)]) (use "3.prems"(1) in simp)
    ultimately show ?thesis using False by simp
  qed
qed auto

section \<open>Lists with unique keys\<close>

lemma distinct_map_eq:
  "distinct (map f xs) \<Longrightarrow> x \<in> set xs \<Longrightarrow> y \<in> set xs \<Longrightarrow> f x = f y \<Longrightarrow> x = y"
  by (auto simp: distinct_map dest: inj_onD)

lemma find_key:
  "distinct (map f xs) \<Longrightarrow> x \<in> set xs \<Longrightarrow> find (\<lambda>y. f y = f x) xs = Some x"
  by (induction xs) (auto simp: rev_image_eqI)

lemma find_in: "find P xs = Some x \<Longrightarrow> x \<in> set xs \<and> P x"
  by (induction xs) (auto split: if_splits)

lemma map_key_if:
  "(\<And>x. f (g x) = f x) \<Longrightarrow> map f (map (\<lambda>x. if P x then g x else x) xs) = map f xs"
  by simp

text \<open>The first of several checks that refuses.\<close>

fun first_refusal :: "('a \<Rightarrow> 'e option) \<Rightarrow> 'a list \<Rightarrow> 'e option" where
  "first_refusal f [] = None"
| "first_refusal f (x # xs) = (case f x of Some e \<Rightarrow> Some e | None \<Rightarrow> first_refusal f xs)"

end
