(* ===== verification/Rust_Str.thy ===== *)
theory Rust_Str
  imports Prelude
begin

text \<open>
  The operations of Rust's \<open>str\<close> the code uses. A \<^typ>\<open>string\<close> is the UTF-8 bytes of a
  Rust string: \<^typ>\<open>char\<close> is one byte, so \<open>str::len\<close> is \<^const>\<open>length\<close> and
  \<open>chars().count()\<close> is \<open>chars_count\<close>, which counts the bytes that start a character. Every
  operation here that looks for an ASCII byte finds it at the same place whether it reads
  bytes or characters, because no byte of a longer UTF-8 sequence is ASCII.
\<close>

section \<open>ASCII\<close>

definition byte :: "char \<Rightarrow> nat" where
  "byte c = of_char c"

definition ascii_lower :: "char \<Rightarrow> char" where
  "ascii_lower c = (if 65 \<le> byte c \<and> byte c \<le> 90 then char_of (byte c + 32) else c)"

definition to_ascii_lowercase :: "string \<Rightarrow> string" where
  "to_ascii_lowercase s = map ascii_lower s"

definition eq_ignore_ascii_case :: "string \<Rightarrow> string \<Rightarrow> bool" where
  "eq_ignore_ascii_case a b \<longleftrightarrow> to_ascii_lowercase a = to_ascii_lowercase b"

definition is_ascii_lowercase :: "char \<Rightarrow> bool" where
  "is_ascii_lowercase c \<longleftrightarrow> 97 \<le> byte c \<and> byte c \<le> 122"

definition is_ascii_digit :: "char \<Rightarrow> bool" where
  "is_ascii_digit c \<longleftrightarrow> 48 \<le> byte c \<and> byte c \<le> 57"

definition is_ascii_alphanumeric :: "char \<Rightarrow> bool" where
  "is_ascii_alphanumeric c \<longleftrightarrow>
     is_ascii_lowercase c \<or> is_ascii_digit c \<or> (65 \<le> byte c \<and> byte c \<le> 90)"

text \<open>\<open>str::chars().count()\<close>: the bytes that are not UTF-8 continuation bytes.\<close>

definition is_continuation :: "char \<Rightarrow> bool" where
  "is_continuation c \<longleftrightarrow> 128 \<le> byte c \<and> byte c < 192"

definition chars_count :: "string \<Rightarrow> nat" where
  "chars_count s = length (filter (\<lambda>c. \<not> is_continuation c) s)"

section \<open>Splitting\<close>

text \<open>\<open>str::split\<close> on one character: always at least one piece.\<close>

fun split_on :: "char \<Rightarrow> string \<Rightarrow> string list" where
  "split_on d [] = [[]]"
| "split_on d (c # cs) =
     (if c = d then [] # split_on d cs
      else (case split_on d cs of [] \<Rightarrow> [[c]] | p # ps \<Rightarrow> (c # p) # ps))"

text \<open>\<open>str::split_once\<close>: before and after the first occurrence.\<close>

fun split_once :: "char \<Rightarrow> string \<Rightarrow> (string \<times> string) option" where
  "split_once d [] = None"
| "split_once d (c # cs) =
     (if c = d then Some ([], cs) else map_option (\<lambda>(a, b). (c # a, b)) (split_once d cs))"

text \<open>\<open>str::rfind\<close>: the index of the last occurrence.\<close>

fun rfind :: "char \<Rightarrow> string \<Rightarrow> nat option" where
  "rfind d [] = None"
| "rfind d (c # cs) =
     (case rfind d cs of Some i \<Rightarrow> Some (Suc i) | None \<Rightarrow> if c = d then Some 0 else None)"

fun strip_prefix :: "string \<Rightarrow> string \<Rightarrow> string option" where
  "strip_prefix [] s = Some s"
| "strip_prefix (p # ps) [] = None"
| "strip_prefix (p # ps) (c # cs) = (if p = c then strip_prefix ps cs else None)"

text \<open>The pieces of a split, put back together.\<close>

fun join_on :: "char \<Rightarrow> string list \<Rightarrow> string" where
  "join_on d [] = []"
| "join_on d [p] = p"
| "join_on d (p # q # ps) = p @ d # join_on d (q # ps)"

section \<open>Facts\<close>

lemma byte_char_of [simp]: "n < 256 \<Longrightarrow> byte (char_of n) = n"
  by (simp add: byte_def)

lemma byte_less [simp]: "byte c < 256"
  by (simp add: byte_def)

lemma byte_inject [simp]: "byte a = byte b \<longleftrightarrow> a = b"
  by (simp add: byte_def)

lemma byte_ascii_lower:
  "byte (ascii_lower c) = (if 65 \<le> byte c \<and> byte c \<le> 90 then byte c + 32 else byte c)"
  by (simp add: ascii_lower_def)

lemma ascii_lower_idem [simp]: "ascii_lower (ascii_lower c) = ascii_lower c"
  by (auto simp: ascii_lower_def)

lemma length_lowercase [simp]: "length (to_ascii_lowercase s) = length s"
  by (simp add: to_ascii_lowercase_def)

lemma lowercase_idem [simp]: "to_ascii_lowercase (to_ascii_lowercase s) = to_ascii_lowercase s"
  by (simp add: to_ascii_lowercase_def)

lemma lowercase_append [simp]:
  "to_ascii_lowercase (a @ b) = to_ascii_lowercase a @ to_ascii_lowercase b"
  by (simp add: to_ascii_lowercase_def)

lemma lowercase_Nil [simp]: "to_ascii_lowercase [] = []"
  by (simp add: to_ascii_lowercase_def)

lemma lowercase_eq_Nil [simp]: "to_ascii_lowercase s = [] \<longleftrightarrow> s = []"
  by (simp add: to_ascii_lowercase_def)

lemma Nil_eq_lowercase [simp]: "[] = to_ascii_lowercase s \<longleftrightarrow> s = []"
  by (simp add: to_ascii_lowercase_def)

lemma lowercase_Cons [simp]:
  "to_ascii_lowercase (c # s) = ascii_lower c # to_ascii_lowercase s"
  by (simp add: to_ascii_lowercase_def)

lemma eq_ignore_refl [simp]: "eq_ignore_ascii_case a a"
  by (simp add: eq_ignore_ascii_case_def)

lemma eq_ignore_length: "eq_ignore_ascii_case a b \<Longrightarrow> length a = length b"
  unfolding eq_ignore_ascii_case_def by (metis length_lowercase)

lemma ascii_lower_slash: "ascii_lower c = CHR ''/'' \<longleftrightarrow> c = CHR ''/''"
proof -
  have b: "byte (CHR ''/'') = 47" by (simp add: byte_def)
  show ?thesis unfolding byte_inject[symmetric] byte_ascii_lower b by auto
qed

lemma ascii_lower_slash_id [simp]: "ascii_lower (CHR ''/'') = CHR ''/''"
  by (simp add: ascii_lower_slash)

lemma split_on_not_Nil [simp]: "split_on d s \<noteq> []"
  by (cases s) (auto split: list.splits)

lemma join_split: "join_on d (split_on d s) = s"
proof (induction s)
  case (Cons c cs)
  obtain p ps where ps: "split_on d cs = p # ps"
    using split_on_not_Nil[of d cs] by (cases "split_on d cs") auto
  have "join_on d ((c # p) # ps) = c # join_on d (p # ps)" by (cases ps) auto
  with Cons ps show ?case by (cases ps) auto
qed simp

lemma split_no_sep: "p \<in> set (split_on d s) \<Longrightarrow> d \<notin> set p"
proof (induction s arbitrary: p)
  case (Cons c cs)
  then show ?case by (auto split: if_splits list.splits)
qed simp

lemma split_piece: "d \<notin> set p \<Longrightarrow> split_on d p = [p]"
  by (induction p) auto

lemma split_append:
  "d \<notin> set p \<Longrightarrow> split_on d (p @ d # s) = p # split_on d s"
  by (induction p) auto

lemma split_append_all: "split_on d (p @ d # q) = split_on d p @ split_on d q"
  by (induction p) (auto split: list.splits)

lemma split_append_last: "d \<notin> set q \<Longrightarrow> split_on d (p @ d # q) = split_on d p @ [q]"
  by (simp add: split_append_all split_piece)

lemma split_join:
  "ps \<noteq> [] \<Longrightarrow> \<forall>p \<in> set ps. d \<notin> set p \<Longrightarrow> split_on d (join_on d ps) = ps"
  by (induction d ps rule: join_on.induct) (auto simp: split_piece split_append)

lemma split_inject: "split_on d a = split_on d b \<longleftrightarrow> a = b"
  by (metis join_split)

lemma split_once_None: "split_once d s = None \<longleftrightarrow> d \<notin> set s"
  by (induction s) auto

lemma split_once_Some:
  "split_once d s = Some (a, b) \<longleftrightarrow> s = a @ d # b \<and> d \<notin> set a"
proof (induction s arbitrary: a)
  case (Cons c cs)
  show ?case
  proof (cases "c = d")
    case True
    then show ?thesis by (cases a) auto
  next
    case False
    then show ?thesis
      by (cases a) (auto simp: Cons.IH)
  qed
qed simp

lemma rfind_None: "rfind d s = None \<longleftrightarrow> d \<notin> set s"
  by (induction s) (auto split: option.splits)

lemma rfind_Some:
  "rfind d s = Some i \<Longrightarrow> i < length s \<and> s ! i = d \<and> d \<notin> set (drop (Suc i) s)"
proof (induction s arbitrary: i)
  case (Cons c cs)
  then show ?case by (auto split: option.splits if_splits simp: rfind_None)
qed simp

lemma rfind_decomp:
  assumes "rfind d s = Some i"
  shows "s = take i s @ d # drop (Suc i) s" and "d \<notin> set (drop (Suc i) s)"
  using rfind_Some[OF assms] id_take_nth_drop[of i s] by simp_all

lemma strip_prefix_Some: "strip_prefix p s = Some r \<longleftrightarrow> s = p @ r"
  by (induction p s rule: strip_prefix.induct) auto

lemma set_split: "\<Union> (set ` set (split_on d s)) = set s - {d}"
proof (induction s)
  case (Cons c cs)
  obtain p ps where ps: "split_on d cs = p # ps"
    using split_on_not_Nil[of d cs] by (cases "split_on d cs") auto
  with Cons show ?case by auto
qed simp

lemma split_lowercase:
  "split_on (CHR ''/'') (to_ascii_lowercase s) = map to_ascii_lowercase (split_on (CHR ''/'') s)"
proof (induction s)
  case (Cons c cs)
  obtain p ps where ps: "split_on (CHR ''/'') cs = p # ps"
    using split_on_not_Nil[of "CHR ''/''" cs] by (cases "split_on (CHR ''/'') cs") auto
  with Cons show ?case by (auto simp: ascii_lower_slash)
qed simp

section \<open>Numbers and booleans as text\<close>

fun decimal :: "nat \<Rightarrow> string" where
  "decimal n = (if n < 10 then [char_of (48 + n)] else decimal (n div 10) @ [char_of (48 + n mod 10)])"

declare decimal.simps [simp del]

definition display_int :: "int \<Rightarrow> string" where
  "display_int n = (if n < 0 then CHR ''-'' # decimal (nat (- n)) else decimal (nat n))"

definition display_bool :: "bool \<Rightarrow> string" where
  "display_bool b = (if b then ''true'' else ''false'')"

end
