(* ===== verification/Statuses.thy ===== *)
theory Statuses
  imports Rust_Str
begin

text \<open>
  \<open>tonic::Status\<close> as the code builds it, and the engine errors a status is made from
  (\<open>src/sql.rs\<close>, \<open>internal\<close>). A status is a code and a REASON; a reason is one constructor
  per message the code writes, grouped by the file that writes it and carrying exactly the values
  the message interpolates, so what a refusal discloses is a fact about the model.
\<close>

datatype code =
    Invalid_argument | Not_found | Already_exists | Permission_denied | Failed_precondition
  | Aborted | Unimplemented | Internal | Unavailable | Deadline_exceeded

datatype path_reason =
    Path_required string
  | Path_too_long string nat
  | Path_edge_slash string string
  | Path_segment string string string
  | Reserved_root string string

datatype engine_reason =
    Scope_required
  | Pool_exhausted
  | Not_serialised
  | Storage_error
  | Deadline_spent
  | Key_other_operation
  | Key_other_request

datatype register_reason =
    Register_not_admitted "string option"
  | Display_name_wide nat
  | Org_path string
  | No_account_segment
  | Not_own_root string string
  | Private_with_repo string string
  | Former_path string string
  | Already_registered string

datatype read_reason =
    No_ancestor string
  | No_project string
  | Status_unspecified
  | Status_unknown int

datatype touch_reason =
    Seen_at_required
  | Seen_at_range int
  | Paths_empty
  | Paths_too_many nat

datatype sync_reason =
    Sync_not_admitted "string option"
  | Sync_scope_required
  | Principal_width nat
  | No_roots
  | Root_deep string
  | Not_under_root string
  | Declared_private string string
  | No_source_repo string
  | Field_wide string string nat
  | Declared_twice string
  | Declared_former_path string
  | Mass_archive nat nat

datatype grant_reason =
    Grant_level string string int
  | Grant_team string string
  | Grant_twice string string
  | Mass_revoke nat nat
  | No_row_id string

datatype reason =
    In_path path_reason
  | In_engine engine_reason
  | In_register register_reason
  | In_read read_reason
  | In_touch touch_reason
  | In_sync sync_reason
  | In_grants grant_reason
  | Rename_held_back
  | No_per_row_archive

datatype status = Status (code_of: code) (reason_of: reason)

section \<open>Engine errors\<close>

text \<open>
  \<open>sqlx::Error\<close>, as far as the code looks into it: the pool timing out, an error the
  database answered (whether it is a unique violation, its SQLSTATE and its number), and
  anything else (a lost connection, a row that does not decode, \<open>RowNotFound\<close>).
\<close>

record db_error =
  is_unique_violation :: bool
  sqlstate :: "string option"
  number :: nat

datatype sqlx_error = Pool_timed_out | Database db_error | Other_error

text \<open>\<open>sql::internal\<close>: two classes a caller can act on, everything else opaque.\<close>

definition internal :: "sqlx_error \<Rightarrow> status" where
  "internal e =
     (case e of
        Pool_timed_out \<Rightarrow> Status Unavailable (In_engine Pool_exhausted)
      | Database db \<Rightarrow>
          (if sqlstate db = Some ''40001'' \<or> number db \<in> {1205, 1213}
           then Status Aborted (In_engine Not_serialised)
           else Status Internal (In_engine Storage_error))
      | Other_error \<Rightarrow> Status Internal (In_engine Storage_error))"

text \<open>The errors the engine answers when a statement breaks a declaration of the schema.\<close>

definition unique_violation :: sqlx_error where
  "unique_violation =
     Database \<lparr>is_unique_violation = True, sqlstate = Some ''23000'', number = 1062\<rparr>"

definition check_violation :: sqlx_error where
  "check_violation =
     Database \<lparr>is_unique_violation = False, sqlstate = Some ''23000'', number = 4025\<rparr>"

definition data_too_long :: sqlx_error where
  "data_too_long =
     Database \<lparr>is_unique_violation = False, sqlstate = Some ''22001'', number = 1406\<rparr>"

definition foreign_key_violation :: sqlx_error where
  "foreign_key_violation =
     Database \<lparr>is_unique_violation = False, sqlstate = Some ''23000'', number = 1452\<rparr>"

fun is_duplicate :: "sqlx_error \<Rightarrow> bool" where
  "is_duplicate (Database db) = is_unique_violation db"
| "is_duplicate Pool_timed_out = False"
| "is_duplicate Other_error = False"

lemma is_duplicate_simps [simp]:
  "is_duplicate unique_violation" "\<not> is_duplicate check_violation"
  "\<not> is_duplicate data_too_long" "\<not> is_duplicate foreign_key_violation"
  by (simp_all add: unique_violation_def check_violation_def data_too_long_def
        foreign_key_violation_def)

lemma internal_schema_errors [simp]:
  "internal unique_violation = Status Internal (In_engine Storage_error)"
  "internal check_violation = Status Internal (In_engine Storage_error)"
  "internal data_too_long = Status Internal (In_engine Storage_error)"
  "internal foreign_key_violation = Status Internal (In_engine Storage_error)"
  "internal Other_error = Status Internal (In_engine Storage_error)"
  by (simp_all add: internal_def unique_violation_def check_violation_def data_too_long_def
        foreign_key_violation_def)

text \<open>An engine error never carries a value of the caller's or the store's onto the wire.\<close>

lemma internal_reason:
  "reason_of (internal e) \<in> In_engine ` {Pool_exhausted, Not_serialised, Storage_error}"
  by (cases e) (auto simp: internal_def)

lemma internal_retryable:
  "code_of (internal e) \<in> {Unavailable, Aborted} \<longleftrightarrow>
     e = Pool_timed_out
     \<or> (\<exists>db. e = Database db \<and> (sqlstate db = Some ''40001'' \<or> number db \<in> {1205, 1213}))"
  by (cases e) (auto simp: internal_def)

section \<open>What a refusal repeats\<close>

text \<open>One message of the service names a value only the store knows: the id of the project a
  former path belongs to.\<close>

definition discloses :: "reason \<Rightarrow> string set" where
  "discloses r = (case r of In_register (Former_path p owner) \<Rightarrow> {owner} | _ \<Rightarrow> {})"

abbreviation refused :: "code \<Rightarrow> ('r \<Rightarrow> reason) \<Rightarrow> 'r \<Rightarrow> status + 'a" where
  "refused c wrap r \<equiv> Inl (Status c (wrap r))"

text \<open>The \<open>?\<close> operator between checks.\<close>

definition also_check :: "status + 'a \<Rightarrow> ('a \<Rightarrow> status + 'b) \<Rightarrow> status + 'b" where
  "also_check r f = (case r of Inl e \<Rightarrow> Inl e | Inr x \<Rightarrow> f x)"

lemma also_check_Inr [simp]: "also_check (Inr x) f = f x"
  by (simp add: also_check_def)

lemma also_check_Inl [simp]: "also_check (Inl e) f = Inl e"
  by (simp add: also_check_def)

lemma also_check_eq_Inr:
  "also_check r f = Inr y \<longleftrightarrow> (\<exists>x. r = Inr x \<and> f x = Inr y)"
  by (cases r) auto

lemma also_check_eq_Inl:
  "also_check r f = Inl e \<longleftrightarrow> r = Inl e \<or> (\<exists>x. r = Inr x \<and> f x = Inl e)"
  by (cases r) auto

end
