(* ===== verification/Paths.thy ===== *)
theory Paths
  imports Statuses "HOL-Library.Word" "HOL-Library.Sublist"
begin

text \<open>
  \<open>src/path.rs\<close>: the grammar of a project path, the reserved root, the private class, the
  account segment of a user id, and the chain of ancestors a resolution walks.
\<close>

section \<open>The grammar\<close>

definition MAX_LEN :: nat where
  "MAX_LEN = 255"

definition RESERVED_ROOT :: string where
  "RESERVED_ROOT = ''local''"

definition USER_ID_PREFIX :: string where
  "USER_ID_PREFIX = ''yadgar:user:''"

abbreviation slash :: char where
  "slash \<equiv> CHR ''/''"

definition segment_is_legal :: "string \<Rightarrow> bool" where
  "segment_is_legal segment \<longleftrightarrow>
     segment \<noteq> [] \<and> segment \<noteq> ''.'' \<and> segment \<noteq> ''..''
     \<and> list_all (\<lambda>c. is_ascii_alphanumeric c \<or> c \<in> {CHR ''.'', CHR ''_'', CHR ''-''}) segment"

definition validate :: "string \<Rightarrow> string \<Rightarrow> status + unit" where
  "validate what path =
     (if path = [] then refused Invalid_argument In_path (Path_required what)
      else if length path > MAX_LEN
      then refused Invalid_argument In_path (Path_too_long what (length path))
      else if hd path = slash \<or> last path = slash
      then refused Invalid_argument In_path (Path_edge_slash what path)
      else (case find (\<lambda>segment. \<not> segment_is_legal segment) (split_on slash path) of
              Some segment \<Rightarrow> refused Invalid_argument In_path (Path_segment what segment path)
            | None \<Rightarrow> Inr ()))"

definition refuse_reserved_root :: "string \<Rightarrow> string \<Rightarrow> status + unit" where
  "refuse_reserved_root what path =
     (if eq_ignore_ascii_case path RESERVED_ROOT
      then refused Invalid_argument In_path (Reserved_root what path) else Inr ())"

definition is_private_class :: "string \<Rightarrow> bool" where
  "is_private_class path =
     (case split_once slash path of
        Some (root, _) \<Rightarrow> eq_ignore_ascii_case root RESERVED_ROOT
      | None \<Rightarrow> False)"

section \<open>The account segment\<close>

text \<open>
  The \<open>uuid\<close> crate is third-party: a \<open>Uuid\<close> is its 128 bits, and what the code calls on
  one is a parameter.
\<close>

record uuid_crate =
  try_parse :: "string \<Rightarrow> 128 word option"
  version_num :: "128 word \<Rightarrow> nat"
  is_rfc4122 :: "128 word \<Rightarrow> bool"
  hyphenated :: "128 word \<Rightarrow> string"

definition account_segment :: "uuid_crate \<Rightarrow> string \<Rightarrow> string option" where
  "account_segment U user_id =
     (case strip_prefix USER_ID_PREFIX user_id of
        None \<Rightarrow> None
      | Some seg \<Rightarrow>
          (case try_parse U seg of
             None \<Rightarrow> None
           | Some uuid \<Rightarrow>
               (if version_num U uuid = 7 \<and> is_rfc4122 U uuid \<and> hyphenated U uuid = seg
                then Some seg else None)))"

definition is_under_own_root :: "string \<Rightarrow> string \<Rightarrow> bool" where
  "is_under_own_root path seg =
     (case split_on slash path of
        first # second # _ \<Rightarrow> first = RESERVED_ROOT \<and> second = seg
      | _ \<Rightarrow> False)"

section \<open>The ancestors\<close>

text \<open>The \<open>while let\<close> loop cuts the rest at its last slash and records what is left.\<close>

function ancestors_loop :: "string \<Rightarrow> string list" where
  "ancestors_loop rest =
     (case rfind slash rest of
        None \<Rightarrow> []
      | Some at \<Rightarrow> take at rest # ancestors_loop (take at rest))"
  by pat_completeness auto
termination
  by (relation "measure length") (auto dest: rfind_Some)

declare ancestors_loop.simps [simp del]

definition ancestors :: "string \<Rightarrow> string list" where
  "ancestors path = path # ancestors_loop path"

section \<open>Facts about the grammar\<close>

definition path_ok :: "string \<Rightarrow> bool" where
  "path_ok p \<longleftrightarrow> (\<forall>what. validate what p = Inr ())"

definition segments :: "string \<Rightarrow> string list" where
  "segments p = split_on slash p"

lemma segments_not_Nil [simp]: "segments p \<noteq> []"
  by (simp add: segments_def)

lemma join_segments [simp]: "join_on slash (segments p) = p"
  by (simp add: segments_def join_split)

lemma segments_inject [simp]: "segments p = segments q \<longleftrightarrow> p = q"
  by (simp add: segments_def split_inject)

lemma segment_legal_no_slash: "segment_is_legal seg \<Longrightarrow> slash \<notin> set seg"
proof
  assume "segment_is_legal seg" "slash \<in> set seg"
  then have "is_ascii_alphanumeric slash"
    by (auto simp: segment_is_legal_def list_all_iff)
  then show False
    by (simp add: is_ascii_alphanumeric_def is_ascii_lowercase_def is_ascii_digit_def byte_def)
qed

lemma hd_split_slash: "p \<noteq> [] \<Longrightarrow> hd p = d \<longleftrightarrow> hd (split_on d p) = []"
proof (cases p)
  case (Cons c cs)
  then show ?thesis by (auto split: list.splits)
qed simp

lemma last_split_slash: "p \<noteq> [] \<Longrightarrow> last p = d \<longleftrightarrow> last (split_on d p) = [] "
proof (induction p)
  case (Cons c cs)
  show ?case
  proof (cases "cs = []")
    case True
    then show ?thesis by auto
  next
    case False
    obtain q qs where qs: "split_on d cs = q # qs"
      using split_on_not_Nil[of d cs] by (cases "split_on d cs") auto
    have "qs = [] \<Longrightarrow> q = cs" using join_split[of d cs] qs by simp
    with Cons.IH[OF False] False qs show ?thesis by (cases "qs = []") auto
  qed
qed simp

text \<open>What \<open>validate\<close> admits: at most 255 bytes, every segment legal.\<close>

lemma path_ok_iff:
  "path_ok p \<longleftrightarrow> length p \<le> MAX_LEN \<and> list_all segment_is_legal (segments p)"
proof
  assume "path_ok p"
  then have v: "validate [] p = Inr ()" by (simp add: path_ok_def)
  then have "find (\<lambda>s. \<not> segment_is_legal s) (split_on slash p) = None" and len: "length p \<le> MAX_LEN"
    by (auto simp: validate_def split: if_splits option.splits)
  then show "length p \<le> MAX_LEN \<and> list_all segment_is_legal (segments p)"
    by (auto simp: find_None_iff list_all_iff segments_def)
next
  assume r: "length p \<le> MAX_LEN \<and> list_all segment_is_legal (segments p)"
  then have legal: "\<forall>s \<in> set (split_on slash p). segment_is_legal s"
    by (simp add: list_all_iff segments_def)
  then have ne: "\<forall>s \<in> set (split_on slash p). s \<noteq> []"
    by (auto simp: segment_is_legal_def)
  then have "p \<noteq> []" by auto
  moreover have "hd (split_on slash p) \<noteq> []" "last (split_on slash p) \<noteq> []"
    using ne by simp_all
  moreover have "find (\<lambda>s. \<not> segment_is_legal s) (split_on slash p) = None"
    using legal by (simp add: find_None_iff)
  ultimately show "path_ok p"
    using r hd_split_slash[of p slash] last_split_slash[of p slash]
    by (simp add: path_ok_def validate_def)
qed

lemma validate_ok_iff: "validate what p = Inr u \<longleftrightarrow> path_ok p"
proof
  assume "validate what p = Inr u"
  then show "path_ok p"
    by (auto simp: path_ok_def validate_def split: if_splits option.splits)
next
  assume "path_ok p"
  then show "validate what p = Inr u" by (simp add: path_ok_def)
qed

lemma path_ok_not_Nil: "path_ok p \<Longrightarrow> p \<noteq> []"
  by (auto simp: path_ok_def validate_def)

lemma validate_code: "validate what p = Inl e \<Longrightarrow> code_of e = Invalid_argument"
  by (auto simp: validate_def split: if_splits option.splits)

text \<open>The characters of a path: the alphabet the collation of the store is asked about.\<close>

definition path_char :: "char \<Rightarrow> bool" where
  "path_char c \<longleftrightarrow>
     is_ascii_alphanumeric c \<or> c \<in> {CHR ''.'', CHR ''_'', CHR ''-'', CHR ''/''}"

lemma path_ok_chars: "path_ok p \<Longrightarrow> c \<in> set p \<Longrightarrow> path_char c"
proof (cases "c = slash")
  case False
  assume ok: "path_ok p" and c: "c \<in> set p"
  with False have "c \<in> \<Union> (set ` set (segments p))"
    by (simp add: segments_def set_split)
  then obtain seg where "seg \<in> set (segments p)" "c \<in> set seg" by auto
  moreover from this ok have "segment_is_legal seg" by (simp add: path_ok_iff list_all_iff)
  ultimately show ?thesis
    by (auto simp: segment_is_legal_def path_char_def list_all_iff)
qed (simp add: path_char_def)

section \<open>Facts about the ancestors\<close>

lemma rfind_segments:
  assumes "rfind slash s = Some i"
  shows "segments s = segments (take i s) @ [drop (Suc i) s]"
  using rfind_decomp[OF assms] split_append_last[of slash "drop (Suc i) s" "take i s"]
  by (simp add: segments_def)

text \<open>The chain a resolution walks: \<open>ancestors\<close> yields the non-empty initial runs of the path's
  segments, every one of them once, deepest first - the path itself at the head, its root segment
  at the end.\<close>

lemma segments_ancestors_loop:
  "map segments (ancestors_loop s) =
     rev (map (\<lambda>n. take n (segments s)) [1..<length (segments s)])"
proof (induction s rule: ancestors_loop.induct)
  case (1 s)
  show ?case
  proof (cases "rfind slash s")
    case None
    then have "segments s = [s]" by (simp add: segments_def rfind_None split_piece)
    with None show ?thesis by (simp add: ancestors_loop.simps[of s])
  next
    case (Some i)
    let ?t = "take i s"
    have seg: "segments s = segments ?t @ [drop (Suc i) s]" by (rule rfind_segments[OF Some])
    have l: "1 \<le> length (segments ?t)" by (simp add: Suc_le_eq)
    have "map segments (ancestors_loop s) = segments ?t # map segments (ancestors_loop ?t)"
      using Some by (simp add: ancestors_loop.simps[of s])
    also have "\<dots> = rev (map (\<lambda>n. take n (segments ?t)) [1..<Suc (length (segments ?t))])"
      using "1.IH"[OF Some] l by simp
    also have "\<dots> = rev (map (\<lambda>n. take n (segments s)) [1..<length (segments s)])"
      unfolding seg by (intro arg_cong[where f = rev] map_cong) auto
    finally show ?thesis .
  qed
qed

theorem ancestors_chain:
  "map segments (ancestors p) =
     rev (map (\<lambda>n. take n (segments p)) [1..<Suc (length (segments p))])"
  using segments_ancestors_loop[of p] by (simp add: ancestors_def Suc_le_eq)

lemma ancestors_iff:
  "a \<in> set (ancestors p) \<longleftrightarrow> prefix (segments a) (segments p)"
proof -
  have "a \<in> set (ancestors p) \<longleftrightarrow> segments a \<in> set (map segments (ancestors p))"
    by (auto simp: image_iff)
  also have "\<dots> \<longleftrightarrow> (\<exists>n. 1 \<le> n \<and> n \<le> length (segments p) \<and> segments a = take n (segments p))"
    by (auto simp: ancestors_chain less_Suc_eq_le)
  also have "\<dots> \<longleftrightarrow> prefix (segments a) (segments p)"
  proof
    assume "\<exists>n. 1 \<le> n \<and> n \<le> length (segments p) \<and> segments a = take n (segments p)"
    then show "prefix (segments a) (segments p)" by (auto simp: take_is_prefix)
  next
    assume pre: "prefix (segments a) (segments p)"
    then have "segments a = take (length (segments a)) (segments p)"
      by (auto simp: prefix_def)
    moreover have "1 \<le> length (segments a)" by (simp add: Suc_le_eq)
    moreover have "length (segments a) \<le> length (segments p)" by (rule prefix_length_le[OF pre])
    ultimately show "\<exists>n. 1 \<le> n \<and> n \<le> length (segments p) \<and> segments a = take n (segments p)"
      by blast
  qed
  finally show ?thesis .
qed

lemma length_join:
  "ps \<noteq> [] \<Longrightarrow> Suc (length (join_on d ps)) = (\<Sum>p \<leftarrow> ps. Suc (length p))"
  by (induction d ps rule: join_on.induct) auto

lemma length_path: "Suc (length p) = (\<Sum>seg \<leftarrow> segments p. Suc (length seg))"
  using length_join[of "segments p" slash] by simp

text \<open>An ancestor is shorter exactly when it has fewer segments.\<close>

lemma prefix_length:
  assumes "prefix (segments a) (segments b)"
  shows "length a \<le> length b" and "length a = length b \<longleftrightarrow> a = b"
proof -
  obtain r where r: "segments b = segments a @ r" using assms by (auto simp: prefix_def)
  have sum: "Suc (length b) = Suc (length a) + (\<Sum>seg \<leftarrow> r. Suc (length seg))"
    using length_path[of a] length_path[of b] by (simp add: r)
  then show "length a \<le> length b" by simp
  have "(\<Sum>seg \<leftarrow> r. Suc (length seg)) = 0 \<longleftrightarrow> r = []" by (cases r) auto
  with sum have "length a = length b \<longleftrightarrow> r = []" by simp
  also have "\<dots> \<longleftrightarrow> segments a = segments b" by (simp add: r)
  finally show "length a = length b \<longleftrightarrow> a = b" by simp
qed

lemma ancestors_path_ok: "path_ok p \<Longrightarrow> a \<in> set (ancestors p) \<Longrightarrow> path_ok a"
proof -
  assume ok: "path_ok p" and "a \<in> set (ancestors p)"
  then have pre: "prefix (segments a) (segments p)" by (simp add: ancestors_iff)
  then have "set (segments a) \<subseteq> set (segments p)" by (rule set_mono_prefix)
  with ok prefix_length(1)[OF pre] show "path_ok a"
    by (auto simp: path_ok_iff list_all_iff)
qed

lemma ancestors_self [simp]: "p \<in> set (ancestors p)"
  by (simp add: ancestors_def)

section \<open>Facts about the classes\<close>

lemma split_once_segments:
  "split_once slash p = Some (a, b) \<Longrightarrow> segments p = a # segments b"
  by (auto simp: split_once_Some segments_def split_append)

lemma is_private_class_iff:
  "is_private_class p \<longleftrightarrow>
     (\<exists>root rest. segments p = root # rest \<and> rest \<noteq> [] \<and> eq_ignore_ascii_case root RESERVED_ROOT)"
proof (cases "split_once slash p")
  case None
  then have "segments p = [p]" by (simp add: split_once_None segments_def split_piece)
  with None show ?thesis by (simp add: is_private_class_def)
next
  case (Some ab)
  then obtain a b where ab: "split_once slash p = Some (a, b)" by (cases ab) auto
  with split_once_segments[OF ab] show ?thesis by (simp add: is_private_class_def)
qed

lemma is_under_own_root_iff:
  "is_under_own_root p seg \<longleftrightarrow> (\<exists>rest. segments p = RESERVED_ROOT # seg # rest)"
  by (auto simp: is_under_own_root_def segments_def split: list.splits)

lemma own_root_private: "is_under_own_root p seg \<Longrightarrow> is_private_class p"
  by (auto simp: is_under_own_root_iff is_private_class_iff)

lemma account_segment_Some:
  "account_segment U u = Some seg \<Longrightarrow> u = USER_ID_PREFIX @ seg"
  by (auto simp: account_segment_def strip_prefix_Some split: option.splits if_splits)

section \<open>The grammar, stated\<close>

text \<open>The grammar of a path: \<open>validate\<close> admits exactly the strings of at most 255 bytes whose
  pieces between slashes are non-empty, neither \<open>.\<close> nor \<open>..\<close>, and of letters, digits, \<open>.\<close>, \<open>_\<close> and \<open>-\<close>
  alone - so no empty path and no slash at an edge or doubled - and every refusal of it is
  \<open>INVALID_ARGUMENT\<close>.\<close>

theorem validate_grammar:
  "(validate what p = Inr () \<longleftrightarrow>
      length p \<le> 255
      \<and> list_all (\<lambda>seg. seg \<noteq> [] \<and> seg \<noteq> ''.'' \<and> seg \<noteq> ''..''
           \<and> set seg \<subseteq> {c. is_ascii_alphanumeric c} \<union> {CHR ''.'', CHR ''_'', CHR ''-''}) (segments p))
   \<and> (case validate what p of Inl e \<Rightarrow> code_of e = Invalid_argument | Inr _ \<Rightarrow> True)"
proof -
  have legal: "segment_is_legal = (\<lambda>seg. seg \<noteq> [] \<and> seg \<noteq> ''.'' \<and> seg \<noteq> ''..''
      \<and> set seg \<subseteq> {c. is_ascii_alphanumeric c} \<union> {CHR ''.'', CHR ''_'', CHR ''-''})"
    by (auto simp: fun_eq_iff segment_is_legal_def list_all_iff)
  have "validate what p = Inr () \<longleftrightarrow>
      length p \<le> 255
      \<and> list_all (\<lambda>seg. seg \<noteq> [] \<and> seg \<noteq> ''.'' \<and> seg \<noteq> ''..''
           \<and> set seg \<subseteq> {c. is_ascii_alphanumeric c} \<union> {CHR ''.'', CHR ''_'', CHR ''-''}) (segments p)"
    by (simp only: validate_ok_iff path_ok_iff MAX_LEN_def legal)
  then show ?thesis by (simp add: validate_code split: sum.split)
qed

end
