(* ===== verification/Sql_Text.thy ===== *)
theory Sql_Text
  imports Paths
begin

text \<open>
  The text of a statement: \<open>like_escape\<close>, \<open>subtree\<close> and \<open>holes\<close> of \<open>src/sql.rs\<close>, the meaning
  SQL gives a \<open>LIKE\<close> pattern, and what the code relies on of the collation the path columns
  declare (\<open>src/schema.rs\<close>, migrations 1 and 4).

  The engine is a parameter: a collation is the function that gives a string's weight string,
  and two strings compare as their weight strings do. The locale \<open>path_collation\<close> is the one
  thing the code assumes of \<open>utf8mb4_general_ci\<close>, and states in its comments: over the path
  alphabet it folds ASCII case and nothing else.
\<close>

section \<open>Building a pattern\<close>

abbreviation backslash :: char where
  "backslash \<equiv> CHR 0x5C"

fun like_escape :: "string \<Rightarrow> string" where
  "like_escape [] = []"
| "like_escape (c # cs) =
     (if c \<in> {backslash, CHR ''%'', CHR ''_''} then backslash # c # like_escape cs
      else c # like_escape cs)"

definition subtree :: "string \<Rightarrow> string" where
  "subtree path = like_escape path @ ''/%''"

text \<open>\<open>?, ?, ?\<close>: one hole a bound value. \<open>IN ()\<close> is a syntax error, so the count is not zero.\<close>

fun holes :: "nat \<Rightarrow> string" where
  "holes 0 = []"
| "holes (Suc 0) = ''?''"
| "holes (Suc (Suc n)) = ''?, '' @ holes (Suc n)"

section \<open>What a pattern matches\<close>

datatype like_token = Exactly char | Any_one | Any_run

definition token :: "char \<Rightarrow> like_token" where
  "token c = (if c = CHR ''%'' then Any_run else if c = CHR ''_'' then Any_one else Exactly c)"

text \<open>A pattern read with backslash as its escape character.\<close>

fun like_tokens :: "string \<Rightarrow> like_token list" where
  "like_tokens [] = []"
| "like_tokens [c] = [if c = backslash then Exactly c else token c]"
| "like_tokens (c # d # cs) =
     (if c = backslash then Exactly d # like_tokens cs else token c # like_tokens (d # cs))"

fun like_run :: "(char \<Rightarrow> char \<Rightarrow> bool) \<Rightarrow> like_token list \<Rightarrow> string \<Rightarrow> bool" where
  "like_run eq [] s = (s = [])"
| "like_run eq (Exactly c # ts) [] = False"
| "like_run eq (Exactly c # ts) (d # s) = (eq c d \<and> like_run eq ts s)"
| "like_run eq (Any_one # ts) [] = False"
| "like_run eq (Any_one # ts) (d # s) = like_run eq ts s"
| "like_run eq (Any_run # ts) [] = like_run eq ts []"
| "like_run eq (Any_run # ts) (d # s) =
     (like_run eq ts (d # s) \<or> like_run eq (Any_run # ts) s)"

text \<open>\<open>s LIKE pat\<close> under the collation with weight strings \<open>ck\<close>: a literal character matches
  what it compares equal to.\<close>

definition sql_like :: "(string \<Rightarrow> string) \<Rightarrow> string \<Rightarrow> string \<Rightarrow> bool" where
  "sql_like ck pat s = like_run (\<lambda>c d. ck [c] = ck [d]) (like_tokens pat) s"

section \<open>Escaping removes every wildcard a value carries\<close>

lemma like_escape_hd: "like_escape s = c # r \<Longrightarrow> c \<noteq> CHR ''%'' \<and> c \<noteq> CHR ''_''"
  by (cases s) (auto split: if_splits)

lemma like_tokens_escape:
  "pat \<noteq> [] \<Longrightarrow> hd pat \<noteq> backslash \<Longrightarrow>
   like_tokens (like_escape v @ pat) = map Exactly v @ like_tokens pat"
proof (induction v)
  case (Cons c cs)
  show ?case
  proof (cases "c \<in> {backslash, CHR ''%'', CHR ''_''}")
    case True
    then have "like_escape (c # cs) = backslash # c # like_escape cs" by simp
    then show ?thesis by (simp add: Cons)
  next
    case False
    then obtain d r where dr: "like_escape cs @ pat = d # r"
      using Cons.prems(1) by (cases "like_escape cs @ pat") auto
    have "like_tokens (c # d # r) = Exactly c # like_tokens (d # r)"
      using False by (auto simp: token_def)
    with False Cons dr show ?thesis by simp
  qed
qed simp

lemma like_run_exact:
  "like_run eq (map Exactly v @ ts) s \<longleftrightarrow>
     (\<exists>u w. s = u @ w \<and> list_all2 eq v u \<and> like_run eq ts w)"
proof (induction v arbitrary: s)
  case (Cons c v)
  show ?case
  proof (cases s)
    case (Cons d s')
    have "(\<exists>u w. s = u @ w \<and> list_all2 eq (c # v) u \<and> like_run eq ts w) \<longleftrightarrow>
          (\<exists>u w. s = (d # u) @ w \<and> eq c d \<and> list_all2 eq v u \<and> like_run eq ts w)"
      unfolding list_all2_Cons1 Cons by (metis append_Cons list.inject)
    with Cons Cons.IH[of s'] show ?thesis by auto
  qed simp
qed simp

lemma like_run_any: "like_run eq [Any_run] s"
  by (induction s) auto

lemma sql_like_subtree:
  "sql_like ck (subtree p) q \<longleftrightarrow>
     (\<exists>u c w. q = u @ c # w \<and> list_all2 (\<lambda>c d. ck [c] = ck [d]) p u \<and> ck ''/'' = ck [c])"
proof -
  have tok: "like_tokens (subtree p) = map Exactly p @ [Exactly slash, Any_run]"
    unfolding subtree_def by (subst like_tokens_escape) (simp_all add: token_def)
  show ?thesis
  proof
    assume "sql_like ck (subtree p) q"
    then obtain u w where q: "q = u @ w" and u: "list_all2 (\<lambda>c d. ck [c] = ck [d]) p u"
      and w: "like_run (\<lambda>c d. ck [c] = ck [d]) [Exactly slash, Any_run] w"
      by (auto simp: sql_like_def tok like_run_exact)
    from w obtain c w' where "w = c # w'" "ck ''/'' = ck [c]" by (cases w) auto
    with q u show "\<exists>u c w. q = u @ c # w \<and> list_all2 (\<lambda>c d. ck [c] = ck [d]) p u \<and> ck ''/'' = ck [c]"
      by blast
  next
    assume "\<exists>u c w. q = u @ c # w \<and> list_all2 (\<lambda>c d. ck [c] = ck [d]) p u \<and> ck ''/'' = ck [c]"
    then obtain u c w where q: "q = u @ c # w" and u: "list_all2 (\<lambda>c d. ck [c] = ck [d]) p u"
      and c: "ck ''/'' = ck [c]" by blast
    have "like_run (\<lambda>c d. ck [c] = ck [d]) [Exactly slash, Any_run] (c # w)"
      using c like_run_any by simp
    with q u show "sql_like ck (subtree p) q"
      unfolding sql_like_def tok like_run_exact by blast
  qed
qed

section \<open>What the code relies on of the collation\<close>

locale path_collation =
  fixes ck :: "string \<Rightarrow> string"
  assumes ck_fold:
    "list_all path_char a \<Longrightarrow> list_all path_char b \<Longrightarrow>
     ck a = ck b \<longleftrightarrow> to_ascii_lowercase a = to_ascii_lowercase b"
begin

lemma ck_char:
  "path_char c \<Longrightarrow> path_char d \<Longrightarrow> ck [c] = ck [d] \<longleftrightarrow> ascii_lower c = ascii_lower d"
  using ck_fold[of "[c]" "[d]"] by simp

lemma ck_path:
  "path_ok a \<Longrightarrow> path_ok b \<Longrightarrow> ck a = ck b \<longleftrightarrow> eq_ignore_ascii_case a b"
  using ck_fold[of a b] by (simp add: list_all_iff path_ok_chars eq_ignore_ascii_case_def)

lemma list_all2_fold:
  "list_all path_char p \<Longrightarrow> list_all path_char u \<Longrightarrow>
   list_all2 (\<lambda>c d. ck [c] = ck [d]) p u \<longleftrightarrow> to_ascii_lowercase p = to_ascii_lowercase u"
proof (induction p arbitrary: u)
  case (Cons c p)
  then show ?case by (cases u) (auto simp: ck_char)
qed simp

text \<open>The pattern of \<open>subtree\<close> matches what lies strictly beneath the path, segment by segment.\<close>

lemma subtree_strict:
  assumes p: "list_all path_char p" and q: "list_all path_char q"
  shows "sql_like ck (subtree p) q \<longleftrightarrow>
    strict_prefix (segments (to_ascii_lowercase p)) (segments (to_ascii_lowercase q))"
proof
  assume "sql_like ck (subtree p) q"
  then obtain u c w where quw: "q = u @ c # w"
    and u: "list_all2 (\<lambda>c d. ck [c] = ck [d]) p u" and c: "ck ''/'' = ck [c]"
    by (auto simp: sql_like_subtree)
  have pu: "list_all path_char u" and pc: "path_char c" using q quw by auto
  have ps: "path_char slash" by (simp add: path_char_def)
  have "c = slash" using c ck_char[OF ps pc] ascii_lower_slash[of c] by simp
  moreover have "to_ascii_lowercase p = to_ascii_lowercase u" using u p pu list_all2_fold by blast
  ultimately have "segments (to_ascii_lowercase q) =
      segments (to_ascii_lowercase p) @ segments (to_ascii_lowercase w)"
    by (simp add: quw segments_def split_append_all)
  then show "strict_prefix (segments (to_ascii_lowercase p)) (segments (to_ascii_lowercase q))"
    by (simp add: strict_prefix_def)
next
  assume "strict_prefix (segments (to_ascii_lowercase p)) (segments (to_ascii_lowercase q))"
  then obtain r where r: "segments (to_ascii_lowercase q) = segments (to_ascii_lowercase p) @ r"
    and "r \<noteq> []" by (auto elim: strict_prefixE')
  then obtain n where n: "n = length (segments p)" and nq: "n < length (segments q)"
    by (metis (no_types, lifting) length_append length_greater_0_conv length_map less_add_same_cancel1
        segments_def split_lowercase)
  let ?u = "join_on slash (take n (segments q))" and ?w = "join_on slash (drop n (segments q))"
  have slashes: "\<forall>x \<in> set (segments q). slash \<notin> set x"
    using split_no_sep by (auto simp: segments_def)
  have "segments ?u = take n (segments q)" "segments ?w = drop n (segments q)"
    using slashes nq n unfolding segments_def
    by (subst split_join; auto dest: in_set_takeD in_set_dropD simp: segments_def[symmetric])+
  then have "segments (?u @ slash # ?w) = segments q"
    by (simp add: segments_def split_append_all)
  then have quw: "q = ?u @ slash # ?w" by simp
  have "map to_ascii_lowercase (segments ?u) = map to_ascii_lowercase (segments p)"
    using r n \<open>segments ?u = take n (segments q)\<close>
    by (metis append_eq_conv_conj length_map segments_def split_lowercase take_map)
  then have "to_ascii_lowercase ?u = to_ascii_lowercase p"
    by (metis segments_def segments_inject split_lowercase)
  moreover have "list_all path_char ?u" using q quw by (metis list_all_append)
  ultimately have "list_all2 (\<lambda>c d. ck [c] = ck [d]) p ?u" using p list_all2_fold by metis
  with quw show "sql_like ck (subtree p) q" by (auto simp: sql_like_subtree)
qed

text \<open>The engine's \<open>path LIKE 'local/%'\<close> and \<open>is_private_class\<close> are one predicate.\<close>

lemma like_private:
  assumes q: "list_all path_char q"
  shows "sql_like ck ''local/%'' q \<longleftrightarrow> is_private_class q"
proof -
  have sub: "''local/%'' = subtree RESERVED_ROOT"
    by (simp add: subtree_def RESERVED_ROOT_def)
  have pr: "list_all path_char RESERVED_ROOT"
    by (simp add: RESERVED_ROOT_def path_char_def is_ascii_alphanumeric_def
        is_ascii_lowercase_def byte_def)
  have "segments (to_ascii_lowercase RESERVED_ROOT) = [to_ascii_lowercase RESERVED_ROOT]"
    by (simp add: segments_def RESERVED_ROOT_def to_ascii_lowercase_def ascii_lower_def byte_def)
  then have "sql_like ck ''local/%'' q \<longleftrightarrow>
      strict_prefix [to_ascii_lowercase RESERVED_ROOT] (map to_ascii_lowercase (segments q))"
    unfolding sub using subtree_strict[OF pr q] by (simp add: segments_def split_lowercase)
  also have "\<dots> \<longleftrightarrow> is_private_class q"
    by (cases "segments q")
      (auto simp: is_private_class_iff eq_ignore_ascii_case_def strict_prefix_def prefix_def)
  finally show ?thesis .
qed

end

text \<open>The weights \<open>utf8mb4_general_ci\<close> gives ASCII: a letter weighs its upper case, every other
  character itself.\<close>

definition general_ci :: "string \<Rightarrow> string" where
  "general_ci s =
     map (\<lambda>c. if is_ascii_lowercase c then char_of (byte c - 32) else c) s"

lemma general_ci_char:
  "(if is_ascii_lowercase c then char_of (byte c - 32) else c) =
   (if is_ascii_lowercase d then char_of (byte d - 32) else d) \<longleftrightarrow> ascii_lower c = ascii_lower d"
proof -
  have "byte (if is_ascii_lowercase c then char_of (byte c - 32) else c) =
        byte (if is_ascii_lowercase d then char_of (byte d - 32) else d)
      \<longleftrightarrow> byte (ascii_lower c) = byte (ascii_lower d)"
    using byte_less[of c] byte_less[of d]
    by (auto simp del: byte_inject simp: is_ascii_lowercase_def byte_ascii_lower)
  then show ?thesis by simp
qed

lemma general_ci_fold:
  "general_ci a = general_ci b \<longleftrightarrow> to_ascii_lowercase a = to_ascii_lowercase b"
proof -
  have "map (\<lambda>c. if is_ascii_lowercase c then char_of (byte c - 32) else c) a =
        map (\<lambda>c. if is_ascii_lowercase c then char_of (byte c - 32) else c) b
      \<longleftrightarrow> map ascii_lower a = map ascii_lower b"
  proof (induction a arbitrary: b)
    case (Cons c a)
    then show ?case by (cases b) (auto simp: general_ci_char)
  qed simp
  then show ?thesis by (simp add: general_ci_def to_ascii_lowercase_def)
qed

interpretation general: path_collation general_ci
  by unfold_locales (rule general_ci_fold)

end
