(* ===== verification/Messages.thy ===== *)
theory Messages
  imports Sql_Text
begin

text \<open>
  The messages of the contract (\<open>proto/yadgar/common/v1/common.proto\<close>,
  \<open>proto/yadgar/project/v1/project.proto\<close>) as the code holds them: a message is a record, an
  absent message field \<^const>\<open>None\<close>, an \<open>int32\<close> or an enum on the wire an \<^typ>\<open>int\<close>, a
  \<open>uint32\<close> counter a 32-bit word. \<open>Scope.owner_reads_own_record\<close> is left out: nothing under
  \<open>src/\<close> reads it (\<open>src/service.rs\<close> says so and why).
\<close>

section \<open>Enums\<close>

datatype project_status = Unspecified_status | Active | Archived

fun status_i8 :: "project_status \<Rightarrow> int" where
  "status_i8 Unspecified_status = 0"
| "status_i8 Active = 1"
| "status_i8 Archived = 2"

text \<open>\<open>ProjectStatus::try_from(i32)\<close>.\<close>

definition status_try_from :: "int \<Rightarrow> project_status option" where
  "status_try_from n =
     (if n = 0 then Some Unspecified_status else if n = 1 then Some Active
      else if n = 2 then Some Archived else None)"

datatype grant_level = Unspecified_level | Level_read | Level_read_write

fun level_i8 :: "grant_level \<Rightarrow> int" where
  "level_i8 Unspecified_level = 0"
| "level_i8 Level_read = 1"
| "level_i8 Level_read_write = 2"

definition level_try_from :: "int \<Rightarrow> grant_level option" where
  "level_try_from n =
     (if n = 0 then Some Unspecified_level else if n = 1 then Some Level_read
      else if n = 2 then Some Level_read_write else None)"

datatype visibility = Unspecified_visibility | Private | Team | Org

fun visibility_i8 :: "visibility \<Rightarrow> int" where
  "visibility_i8 Unspecified_visibility = 0"
| "visibility_i8 Private = 1"
| "visibility_i8 Team = 2"
| "visibility_i8 Org = 3"

lemma status_try_from_i8 [simp]: "status_try_from (status_i8 s) = Some s"
  by (cases s) (simp_all add: status_try_from_def)

lemma level_try_from_i8 [simp]: "level_try_from (level_i8 l) = Some l"
  by (cases l) (simp_all add: level_try_from_def)

lemma level_try_from_Some: "level_try_from n = Some l \<longleftrightarrow> n = level_i8 l"
  by (cases l) (auto simp: level_try_from_def split: if_splits)

lemma status_try_from_Some: "status_try_from n = Some l \<longleftrightarrow> n = status_i8 l"
  by (cases l) (auto simp: status_try_from_def split: if_splits)

section \<open>The common envelope\<close>

record scope =
  sc_user_id :: string
  sc_project_id :: string
  sc_team_ids :: "string list"
  sc_instance_id :: string
  sc_request_id :: string

record idempotency =
  idem_key :: string

record timestamp =
  seconds :: int
  nanos :: int

record meta =
  m_id :: string
  m_version :: nat
  m_project_id :: string
  m_owner_user_id :: string
  m_team_id :: string
  m_visibility :: int
  m_created_by :: string
  m_updated_by :: string
  m_created_at :: "timestamp option"
  m_updated_at :: "timestamp option"
  m_deleted_at :: "timestamp option"
  m_derived_from :: "string list"

section \<open>Projects, requests and responses\<close>

record declared_grant =
  dg_team_id :: string
  dg_level :: int

record project =
  p_meta :: "meta option"
  p_path :: string
  p_display_name :: string
  p_status :: int
  p_last_seen_at :: "timestamp option"
  p_aliases :: "string list"
  p_grants :: "declared_grant list"

record register_request =
  rg_idempotency :: "idempotency option"
  rg_scope :: "scope option"
  rg_path :: string
  rg_display_name :: string
  rg_source_repo :: string

record register_response =
  rg_meta :: "meta option"

record resolve_request =
  rs_scope :: "scope option"
  rs_candidate_path :: string

record resolve_response =
  rs_resolved_path :: string
  rs_exact :: bool
  rs_via_alias :: bool
  rs_status :: int
  rs_source_repo :: string

record get_request =
  gt_scope :: "scope option"
  gt_path :: string

record get_response =
  gt_project :: "project option"

record list_request =
  ls_scope :: "scope option"
  ls_under_path :: string
  ls_status :: "int option"
  ls_page_size :: int
  ls_page_token :: string

record list_response =
  ls_projects :: "project list"
  ls_next_page_token :: string

record touch_request =
  to_scope :: "scope option"
  to_paths :: "string list"
  to_seen_at :: "timestamp option"

record rename_request =
  rn_idempotency :: "idempotency option"
  rn_scope :: "scope option"
  rn_from_path :: string
  rn_to_path :: string
  rn_expect_version :: nat

record rename_response =
  rn_meta :: "meta option"

record archive_request =
  ar_idempotency :: "idempotency option"
  ar_scope :: "scope option"
  ar_path :: string
  ar_expect_version :: nat

record archive_response =
  ar_meta :: "meta option"

record declared_project =
  dp_path :: string
  dp_display_name :: string
  dp_source_repo :: string
  dp_grants :: "declared_grant list"

record sync_request =
  sy_scope :: "scope option"
  sy_roots :: "declared_project list"
  sy_projects :: "declared_project list"
  sy_allow_mass_archive :: bool
  sy_allow_mass_revoke :: bool

record sync_response =
  inserted :: "32 word"
  updated :: "32 word"
  archived :: "32 word"
  reactivated :: "32 word"
  unchanged :: "32 word"
  grants_declared :: "32 word"
  grants_inserted :: "32 word"
  grants_deleted :: "32 word"
  grants_unchanged :: "32 word"

text \<open>\<open>SyncProjectsResponse::default()\<close>.\<close>

definition sync_default :: sync_response where
  "sync_default =
     \<lparr>inserted = 0, updated = 0, archived = 0, reactivated = 0, unchanged = 0,
      grants_declared = 0, grants_inserted = 0, grants_deleted = 0, grants_unchanged = 0\<rparr>"

end
