(* ===== verification/Store.thy ===== *)
theory Store
  imports Messages
begin

text \<open>
  The store: the five tables \<open>src/schema.rs\<close> creates, and the statements \<open>src/\<close> executes on
  them. A table is the list of its rows; a statement is a function of the clock and the
  tables that answers an engine error or a value and the new tables. The declarations of
  the schema (primary and unique keys, CHECKs, the foreign key, column widths) are what a
  statement is refused for. A refused statement changes nothing.

  The engine's collations are parameters (the fields \<open>ci_key\<close> and \<open>srv_key\<close> of the environment:
  the weight strings of the pinned path columns, and of the columns left on the server's
  default). Two values are one key exactly when their weight strings are equal. \<open>version\<close> is a number
  without a bound where the column is BIGINT UNSIGNED: the engine would refuse the write that takes
  it past 2^64 - 1, and nothing here depends on that write.
\<close>

section \<open>The tables\<close>

record project_row =
  id_of :: string
  version :: nat
  path :: string
  display_name :: string
  row_status :: int
  source_repo :: "string option"
  owner_user_id :: "string option"
  row_visibility :: int
  created_by :: string
  updated_by :: string
  created_at :: int
  updated_at :: int
  last_seen_at :: "int option"

record alias_row =
  alias_path :: string
  alias_project :: string

record write_row =
  w_project_id :: string
  w_user_id :: string
  w_key :: string
  w_rpc :: string
  w_response :: string
  w_fingerprint :: string

record grant_row =
  g_project_id :: string
  g_team_id :: string
  g_level :: int

record store =
  projects :: "project_row list"
  aliases :: "alias_row list"
  writes :: "write_row list"
  sync_lock :: "nat list"
  grants :: "grant_row list"

text \<open>What the migrations leave on a fresh database.\<close>

definition empty_store :: store where
  "empty_store = \<lparr>projects = [], aliases = [], writes = [], sync_lock = [1], grants = []\<rparr>"

section \<open>The collations\<close>

record collations =
  ci_key :: "string \<Rightarrow> string"
  srv_key :: "string \<Rightarrow> string"

definition same_path :: "collations \<Rightarrow> string \<Rightarrow> string \<Rightarrow> bool" where
  "same_path C a b \<longleftrightarrow> ci_key C a = ci_key C b"

definition same_id :: "collations \<Rightarrow> string \<Rightarrow> string \<Rightarrow> bool" where
  "same_id C a b \<longleftrightarrow> srv_key C a = srv_key C b"

definition ledger_key :: "collations \<Rightarrow> write_row \<Rightarrow> string \<times> string \<times> string" where
  "ledger_key C w = (srv_key C (w_project_id w), srv_key C (w_user_id w), srv_key C (w_key w))"

definition grant_key :: "collations \<Rightarrow> grant_row \<Rightarrow> string \<times> string" where
  "grant_key C g = (srv_key C (g_project_id g), srv_key C (g_team_id g))"

section \<open>What the schema refuses\<close>

definition fits :: "nat \<Rightarrow> string \<Rightarrow> bool" where
  "fits n s \<longleftrightarrow> chars_count s \<le> n"

definition fits_nullable :: "nat \<Rightarrow> string option \<Rightarrow> bool" where
  "fits_nullable n v = (case v of None \<Rightarrow> True | Some s \<Rightarrow> fits n s)"

text \<open>The widths of \<open>project\<close>'s columns (migration 1).\<close>

definition row_fits :: "project_row \<Rightarrow> bool" where
  "row_fits r \<longleftrightarrow>
     fits 96 (id_of r) \<and> fits 255 (path r) \<and> fits 255 (display_name r)
     \<and> fits_nullable 255 (source_repo r) \<and> fits_nullable 64 (owner_user_id r)
     \<and> fits 64 (created_by r) \<and> fits 64 (updated_by r)"

text \<open>\<open>ck_project_class\<close> and \<open>ck_project_class_path\<close>.\<close>

definition class_ok :: "collations \<Rightarrow> project_row \<Rightarrow> bool" where
  "class_ok C r \<longleftrightarrow>
     (source_repo r \<noteq> None) \<noteq> (owner_user_id r \<noteq> None)
     \<and> (owner_user_id r \<noteq> None) = sql_like (ci_key C) ''local/%'' (path r)"

definition row_refusal :: "collations \<Rightarrow> project_row \<Rightarrow> sqlx_error option" where
  "row_refusal C r =
     (if \<not> row_fits r then Some data_too_long
      else if \<not> class_ok C r then Some check_violation else None)"

definition grant_refusal :: "collations \<Rightarrow> store \<Rightarrow> grant_row \<Rightarrow> sqlx_error option" where
  "grant_refusal C s g =
     (if \<not> (fits 96 (g_project_id g) \<and> fits 96 (g_team_id g)) then Some data_too_long
      else if g_level g \<notin> {1, 2} then Some check_violation
      else if \<not> list_ex (\<lambda>r. same_id C (id_of r) (g_project_id g)) (projects s)
      then Some foreign_key_violation else None)"

definition write_fits :: "write_row \<Rightarrow> bool" where
  "write_fits w \<longleftrightarrow>
     fits 255 (w_project_id w) \<and> fits 64 (w_user_id w) \<and> fits 255 (w_key w)
     \<and> fits 32 (w_rpc w) \<and> length (w_response w) \<le> 4096"

section \<open>Statements\<close>

type_synonym 'a sql = "int \<Rightarrow> store \<Rightarrow> sqlx_error + ('a \<times> store)"

definition select :: "(store \<Rightarrow> 'a) \<Rightarrow> 'a sql" where
  "select q = (\<lambda>now s. Inr (q s, s))"

text \<open>\<open>fetch_one\<close>: no row is an error of its own, \<open>RowNotFound\<close>.\<close>

definition select_one :: "(store \<Rightarrow> 'a option) \<Rightarrow> 'a sql" where
  "select_one q = (\<lambda>now s. case q s of None \<Rightarrow> Inl Other_error | Some x \<Rightarrow> Inr (x, s))"

text \<open>\<open>INSERT INTO project\<close>; \<open>created_at\<close> and \<open>updated_at\<close> default to the statement's clock,
  \<open>last_seen_at\<close> to NULL.\<close>

definition insert_project :: "collations \<Rightarrow> (int \<Rightarrow> project_row) \<Rightarrow> unit sql" where
  "insert_project C row = (\<lambda>now s.
     case row_refusal C (row now) of
       Some e \<Rightarrow> Inl e
     | None \<Rightarrow>
         (if list_ex (\<lambda>r. same_id C (id_of r) (id_of (row now))
                          \<or> same_path C (path r) (path (row now))) (projects s)
          then Inl unique_violation
          else Inr ((), s\<lparr>projects := projects s @ [row now]\<rparr>)))"

text \<open>\<open>UPDATE project SET .. WHERE ..\<close>: every row the predicate selects is rewritten, and the
  statement is refused when one of them breaks a CHECK or a width.\<close>

definition update_projects ::
  "collations \<Rightarrow> (store \<Rightarrow> project_row \<Rightarrow> bool) \<Rightarrow> (int \<Rightarrow> project_row \<Rightarrow> project_row) \<Rightarrow> unit sql" where
  "update_projects C P f = (\<lambda>now s.
     case find (\<lambda>r. P s r \<and> row_refusal C (f now r) \<noteq> None) (projects s) of
       Some r \<Rightarrow> Inl (the (row_refusal C (f now r)))
     | None \<Rightarrow>
         Inr ((), s\<lparr>projects := map (\<lambda>r. if P s r then f now r else r) (projects s)\<rparr>))"

definition insert_write :: "collations \<Rightarrow> write_row \<Rightarrow> unit sql" where
  "insert_write C w = (\<lambda>now s.
     if \<not> write_fits w then Inl data_too_long
     else if list_ex (\<lambda>v. ledger_key C v = ledger_key C w) (writes s) then Inl unique_violation
     else Inr ((), s\<lparr>writes := writes s @ [w]\<rparr>))"

definition update_write ::
  "collations \<Rightarrow> string \<times> string \<times> string \<Rightarrow> string \<Rightarrow> unit sql" where
  "update_write C k response = (\<lambda>now s.
     if length response > 4096 \<and> list_ex (\<lambda>v. ledger_key C v = k) (writes s)
     then Inl data_too_long
     else Inr ((), s\<lparr>writes :=
            map (\<lambda>v. if ledger_key C v = k then v\<lparr>w_response := response\<rparr> else v) (writes s)\<rparr>))"

definition insert_grant :: "collations \<Rightarrow> grant_row \<Rightarrow> unit sql" where
  "insert_grant C g = (\<lambda>now s.
     case grant_refusal C s g of
       Some e \<Rightarrow> Inl e
     | None \<Rightarrow>
         (if list_ex (\<lambda>h. grant_key C h = grant_key C g) (grants s) then Inl unique_violation
          else Inr ((), s\<lparr>grants := grants s @ [g]\<rparr>)))"

definition update_grants :: "collations \<Rightarrow> string \<Rightarrow> string \<Rightarrow> int \<Rightarrow> unit sql" where
  "update_grants C pid team level = (\<lambda>now s.
     if level \<notin> {1, 2}
        \<and> list_ex (\<lambda>g. same_id C (g_project_id g) pid \<and> same_id C (g_team_id g) team) (grants s)
     then Inl check_violation
     else Inr ((), s\<lparr>grants :=
            map (\<lambda>g. if same_id C (g_project_id g) pid \<and> same_id C (g_team_id g) team
                     then g\<lparr>g_level := level\<rparr> else g) (grants s)\<rparr>))"

definition delete_grants :: "collations \<Rightarrow> string \<Rightarrow> string \<Rightarrow> unit sql" where
  "delete_grants C pid team = (\<lambda>now s.
     Inr ((), s\<lparr>grants :=
       filter (\<lambda>g. \<not> (same_id C (g_project_id g) pid \<and> same_id C (g_team_id g) team)) (grants s)\<rparr>))"

end
