(* ===== verification/Tx.thy ===== *)
theory Tx
  imports Store
begin

text \<open>
  One rpc's connection and transaction: \<open>src/pooled.rs\<close> and the way every handler uses it
  (acquire within the deadline, \<open>BEGIN\<close>, the statements, \<open>COMMIT\<close> or \<open>ROLLBACK\<close>).

  A transaction body is a state transformer over the transaction's own view of the tables and
  the number of statements it has run. The ENVIRONMENT of a call says everything the code
  does not decide: which statement the engine fails and how (\<open>fault\<close>), what the clock reads,
  which UUID is minted, how the pool answers. A body that ends in a refusal drops its
  transaction, so nothing it wrote is kept; only a \<open>COMMIT\<close> makes the view the store.
\<close>

section \<open>The environment of a call\<close>

text \<open>\<open>yadgar_dial::Deadline\<close> is third-party: what is left of the caller's time, and the bound it
  answers for a ceiling. Durations are counted in one fixed unit.\<close>

record deadline =
  remaining :: "nat option"
  bound_of :: "nat \<Rightarrow> nat"

text \<open>The pool: its own acquire timeout, what it answers and when.\<close>

record pool =
  acquire_timeout :: nat
  pool_answer :: "sqlx_error option"
  pool_answers_after :: nat

record env =
  coll :: collations
  fault :: "nat \<Rightarrow> sqlx_error option"
  clock :: "nat \<Rightarrow> int"
  now_v7 :: "nat \<Rightarrow> string"
  commit_lands :: bool
  the_pool :: pool
  uuid_api :: uuid_crate
  sha256 :: "string \<Rightarrow> string"
  encode_request :: "register_request \<Rightarrow> string"
  encode_response :: "register_response \<Rightarrow> string"
  decode_response :: "string \<Rightarrow> register_response option"

section \<open>Taking a connection\<close>

definition spent :: status where
  "spent = Status Deadline_exceeded (In_engine Deadline_spent)"

text \<open>\<open>pool.acquire().await.map_err(internal)\<close>, left to the pool's own timer.\<close>

definition pool_acquire :: "pool \<Rightarrow> status + unit" where
  "pool_acquire P = (case pool_answer P of Some e \<Rightarrow> Inl (internal e) | None \<Rightarrow> Inr ())"

text \<open>\<open>Pooled::acquire\<close>. \<open>tokio::time::timeout\<close> polls the acquire first, so an answer at the very
  instant of the bound is the answer.\<close>

definition acquire :: "pool \<Rightarrow> deadline \<Rightarrow> status + unit" where
  "acquire P d =
     (let ceiling = acquire_timeout P; bound = bound_of d ceiling in
      if remaining d = None \<or> bound \<ge> ceiling then pool_acquire P
      else if bound = 0 then Inl spent
      else if pool_answers_after P \<le> bound then pool_acquire P
      else Inl spent)"

section \<open>Transaction bodies\<close>

record tx =
  work :: store
  stmts :: nat

type_synonym 'a txm = "tx \<Rightarrow> (status + 'a) \<times> tx"

definition ret :: "'a \<Rightarrow> 'a txm" where
  "ret x = (\<lambda>t. (Inr x, t))"

definition fail :: "status \<Rightarrow> 'a txm" where
  "fail e = (\<lambda>t. (Inl e, t))"

text \<open>\<open>let x = m?; f(x)\<close>.\<close>

definition and_then :: "'a txm \<Rightarrow> ('a \<Rightarrow> 'b txm) \<Rightarrow> 'b txm" where
  "and_then m f = (\<lambda>t. case m t of (Inl e, t') \<Rightarrow> (Inl e, t') | (Inr x, t') \<Rightarrow> f x t')"

definition lift :: "status + 'a \<Rightarrow> 'a txm" where
  "lift r = (\<lambda>t. (r, t))"

text \<open>A statement whose error the code looks at.\<close>

definition attempt :: "env \<Rightarrow> 'a sql \<Rightarrow> (sqlx_error + 'a) txm" where
  "attempt E q = (\<lambda>t.
     case fault E (stmts t) of
       Some e \<Rightarrow> (Inr (Inl e), t\<lparr>stmts := Suc (stmts t)\<rparr>)
     | None \<Rightarrow>
         (case q (clock E (stmts t)) (work t) of
            Inl e \<Rightarrow> (Inr (Inl e), t\<lparr>stmts := Suc (stmts t)\<rparr>)
          | Inr (x, s) \<Rightarrow> (Inr (Inr x), t\<lparr>work := s, stmts := Suc (stmts t)\<rparr>)))"

text \<open>\<open>.map_err(internal)?\<close>.\<close>

definition stmt :: "env \<Rightarrow> 'a sql \<Rightarrow> 'a txm" where
  "stmt E q = and_then (attempt E q) (\<lambda>r. case r of Inl e \<Rightarrow> fail (internal e) | Inr x \<Rightarrow> ret x)"

text \<open>\<open>uuid::Uuid::now_v7()\<close> in the URN the rows carry.\<close>

definition mint :: "env \<Rightarrow> string txm" where
  "mint E = (\<lambda>t. (Inr (''yadgar:project:'' @ now_v7 E (stmts t)), t))"

text \<open>A \<open>for\<close> loop threading a value.\<close>

fun for_each :: "('a \<Rightarrow> 'b \<Rightarrow> 'b txm) \<Rightarrow> 'a list \<Rightarrow> 'b \<Rightarrow> 'b txm" where
  "for_each f [] b = ret b"
| "for_each f (x # xs) b = and_then (f x b) (for_each f xs)"

section \<open>Running a transaction\<close>

text \<open>How a body ends: \<open>commit\<close>, then answer; or \<open>rollback\<close>, then answer. A body that ends in
  an error of its own drops the transaction, which rolls it back.\<close>

datatype 'a finish = Commit 'a | Rollback "status + 'a"

definition run_tx :: "env \<Rightarrow> deadline \<Rightarrow> 'a finish txm \<Rightarrow> store \<Rightarrow> (status + 'a) \<times> store" where
  "run_tx E d body s =
     (case acquire (the_pool E) d of
        Inl e \<Rightarrow> (Inl e, s)
      | Inr _ \<Rightarrow>
          (case fault E 0 of
             Some e \<Rightarrow> (Inl (internal e), s)
           | None \<Rightarrow>
               (case body \<lparr>work = s, stmts = 1\<rparr> of
                  (Inl e, t) \<Rightarrow> (Inl e, s)
                | (Inr (Commit x), t) \<Rightarrow>
                    (case fault E (stmts t) of
                       Some e \<Rightarrow> (Inl (internal e), if commit_lands E then work t else s)
                     | None \<Rightarrow> (Inr x, work t))
                | (Inr (Rollback r), t) \<Rightarrow>
                    (case fault E (stmts t) of
                       Some e \<Rightarrow> (Inl (internal e), s)
                     | None \<Rightarrow> (r, s)))))"

text \<open>A read: the statements run on the connection itself, each its own transaction.\<close>

definition run_conn :: "env \<Rightarrow> deadline \<Rightarrow> 'a txm \<Rightarrow> store \<Rightarrow> (status + 'a) \<times> store" where
  "run_conn E d body s =
     (case acquire (the_pool E) d of
        Inl e \<Rightarrow> (Inl e, s)
      | Inr _ \<Rightarrow> (case body \<lparr>work = s, stmts = 0\<rparr> of (r, t) \<Rightarrow> (r, work t)))"

section \<open>Running a body\<close>

lemma ret_run [tx_simps]: "ret x t = (Inr x, t)"
  by (simp add: ret_def)

lemma fail_run [tx_simps]: "fail e t = (Inl e, t)"
  by (simp add: fail_def)

lemma lift_run [tx_simps]: "lift r t = (r, t)"
  by (simp add: lift_def)

lemma and_then_run [tx_simps]:
  "and_then m f t = (case m t of (Inl e, t') \<Rightarrow> (Inl e, t') | (Inr x, t') \<Rightarrow> f x t')"
  by (simp add: and_then_def)

lemma and_then_Inr: "m t = (Inr x, t') \<Longrightarrow> and_then m f t = f x t'"
  by (simp add: and_then_def)

lemma and_then_InrD:
  "and_then m f t = (Inr y, t'') \<Longrightarrow> \<exists>x t'. m t = (Inr x, t') \<and> f x t' = (Inr y, t'')"
  by (auto simp: and_then_def split: prod.splits sum.splits)

definition no_faults :: "env \<Rightarrow> bool" where
  "no_faults E \<longleftrightarrow> (\<forall>n. fault E n = None)"

lemma no_faultsD [tx_simps]: "no_faults E \<Longrightarrow> fault E n = None"
  by (simp add: no_faults_def)

lemma attempt_run [tx_simps]:
  "no_faults E \<Longrightarrow> attempt E q t =
     (case q (clock E (stmts t)) (work t) of
        Inl e \<Rightarrow> (Inr (Inl e), t\<lparr>stmts := Suc (stmts t)\<rparr>)
      | Inr (x, s) \<Rightarrow> (Inr (Inr x), t\<lparr>work := s, stmts := Suc (stmts t)\<rparr>))"
  by (simp add: attempt_def no_faults_def)

lemma stmt_run [tx_simps]:
  "no_faults E \<Longrightarrow> stmt E q t =
     (case q (clock E (stmts t)) (work t) of
        Inl e \<Rightarrow> (Inl (internal e), t\<lparr>stmts := Suc (stmts t)\<rparr>)
      | Inr (x, s) \<Rightarrow> (Inr x, t\<lparr>work := s, stmts := Suc (stmts t)\<rparr>))"
  by (auto simp: stmt_def tx_simps split: sum.splits prod.splits)

lemma stmt_InrD:
  "stmt E q t = (Inr x, t') \<Longrightarrow>
   q (clock E (stmts t)) (work t) = Inr (x, work t') \<and> stmts t' = Suc (stmts t)"
  by (auto simp: stmt_def attempt_def and_then_def ret_def fail_def
        split: option.splits sum.splits prod.splits)

lemma select_run [tx_simps]: "select q now s = Inr (q s, s)"
  by (simp add: select_def)

section \<open>The transaction logic\<close>

text \<open>
  \<open>hoare P m Q\<close>: from a view satisfying \<open>P\<close>, a body that answers leaves a view satisfying
  \<open>Q\<close>. A body that is refused is dropped, so it owes nothing.
\<close>

definition hoare :: "(store \<Rightarrow> bool) \<Rightarrow> 'a txm \<Rightarrow> ('a \<Rightarrow> store \<Rightarrow> bool) \<Rightarrow> bool" where
  "hoare P m Q \<longleftrightarrow> (\<forall>t x t'. P (work t) \<longrightarrow> m t = (Inr x, t') \<longrightarrow> Q x (work t'))"

lemma hoareD: "hoare P m Q \<Longrightarrow> m t = (Inr x, t') \<Longrightarrow> P (work t) \<Longrightarrow> Q x (work t')"
  by (auto simp: hoare_def)

lemma hoare_ret [tx_hoare]: "(\<And>s. P s \<Longrightarrow> Q x s) \<Longrightarrow> hoare P (ret x) Q"
  by (auto simp: hoare_def ret_def)

lemma hoare_fail [tx_hoare]: "hoare P (fail e) Q"
  by (auto simp: hoare_def fail_def)

lemma hoare_lift [tx_hoare]: "(\<And>x s. r = Inr x \<Longrightarrow> P s \<Longrightarrow> Q x s) \<Longrightarrow> hoare P (lift r) Q"
  by (auto simp: hoare_def lift_def)

lemma hoare_mint: "(\<And>x s. P s \<Longrightarrow> Q x s) \<Longrightarrow> hoare P (mint E) Q"
  by (auto simp: hoare_def mint_def)

lemma hoare_and_then [tx_hoare]:
  "hoare P m R \<Longrightarrow> (\<And>x. hoare (R x) (f x) Q) \<Longrightarrow> hoare P (and_then m f) Q"
  unfolding hoare_def by (blast dest: and_then_InrD)

lemma hoare_stmt:
  "(\<And>now s x s'. P s \<Longrightarrow> q now s = Inr (x, s') \<Longrightarrow> Q x s') \<Longrightarrow> hoare P (stmt E q) Q"
  unfolding hoare_def by (blast dest: stmt_InrD)

lemma hoare_attempt:
  assumes "\<And>now s x s'. P s \<Longrightarrow> q now s = Inr (x, s') \<Longrightarrow> Q (Inr x) s'"
    and "\<And>e s. P s \<Longrightarrow> Q (Inl e) s"
  shows "hoare P (attempt E q) Q"
  using assms by (auto simp: hoare_def attempt_def split: option.splits sum.splits prod.splits)

lemma hoare_weaken: "hoare P m Q \<Longrightarrow> (\<And>s. P' s \<Longrightarrow> P s) \<Longrightarrow> (\<And>x s. Q x s \<Longrightarrow> Q' x s) \<Longrightarrow> hoare P' m Q'"
  unfolding hoare_def by blast

lemma hoare_for_each:
  assumes "\<And>x b. x \<in> set xs \<Longrightarrow> hoare (I b) (f x b) I"
  shows "hoare (I b) (for_each f xs b) I"
  using assms
proof (induction xs arbitrary: b)
  case Nil
  show ?case by (auto simp: hoare_def ret_def)
next
  case (Cons x xs)
  show ?case unfolding for_each.simps
    by (rule hoare_and_then[where R = I]) (simp_all add: Cons)
qed

section \<open>Atomicity\<close>

text \<open>The one theorem every handler inherits: a refused call leaves the store as it found it,
  but for a \<open>COMMIT\<close> the engine carried out and then failed to acknowledge.\<close>

lemma run_tx_refused:
  "run_tx E d body s = (Inl e, s') \<Longrightarrow> \<not> commit_lands E \<Longrightarrow> s' = s"
  by (auto simp: run_tx_def split: sum.splits option.splits prod.splits finish.splits)

lemma run_tx_ok:
  assumes "run_tx E d body s = (Inr x, s')"
  obtains t where "body \<lparr>work = s, stmts = 1\<rparr> = (Inr (Commit x), t)" and "s' = work t"
  | t where "body \<lparr>work = s, stmts = 1\<rparr> = (Inr (Rollback (Inr x)), t)" and "s' = s"
  using assms by (auto simp: run_tx_def split: sum.splits option.splits prod.splits finish.splits)

lemma run_tx_cases:
  assumes "run_tx E d body s = (r, s')"
  obtains "s' = s"
  | x t where "body \<lparr>work = s, stmts = 1\<rparr> = (Inr (Commit x), t)" and "s' = work t"
  using assms
  by (auto simp: run_tx_def split: sum.splits option.splits prod.splits finish.splits if_splits)

lemma run_tx_invariant:
  assumes body: "hoare P body (\<lambda>r s. \<forall>x. r = Commit x \<longrightarrow> P s)"
    and run: "run_tx E d body s = (r, s')" and "P s"
  shows "P s'"
  using run
proof (cases rule: run_tx_cases)
  case 1
  then show ?thesis using \<open>P s\<close> by simp
next
  case (2 x t)
  then show ?thesis using hoareD[OF body] \<open>P s\<close> by fastforce
qed

end
