(* ===== verification/Invariant.thy ===== *)
theory Invariant
  imports Tx
begin

text \<open>
  What is true of the store after every call: the schema's own keys, and the rules that span
  tables and that no constraint of the engine can state (a live path is never a former path;
  a grant names an organisation row; a private row lies under its owner's own root). One
  preservation lemma per statement; the handlers' theories compose them.
\<close>

section \<open>Rows\<close>

text \<open>A private row lies under the root its owner's user id renders.\<close>

definition owner_root :: "string \<Rightarrow> string \<Rightarrow> bool" where
  "owner_root p owner \<longleftrightarrow>
     (\<exists>seg. owner = USER_ID_PREFIX @ seg \<and> is_under_own_root p seg)"

definition row_good :: "collations \<Rightarrow> project_row \<Rightarrow> bool" where
  "row_good C r \<longleftrightarrow>
     path_ok (path r) \<and> \<not> eq_ignore_ascii_case (path r) RESERVED_ROOT
     \<and> row_refusal C r = None
     \<and> row_status r \<in> {1, 2}
     \<and> (case owner_user_id r of
          None \<Rightarrow> row_visibility r = 3 \<and> source_repo r \<noteq> Some []
        | Some owner \<Rightarrow> row_visibility r = 1 \<and> row_status r = 1 \<and> owner_root (path r) owner)"

definition projects_good :: "collations \<Rightarrow> project_row list \<Rightarrow> bool" where
  "projects_good C rows \<longleftrightarrow>
     distinct (map (\<lambda>r. srv_key C (id_of r)) rows)
     \<and> distinct (map (\<lambda>r. ci_key C (path r)) rows)
     \<and> (\<forall>r \<in> set rows. row_good C r)"

definition grants_good :: "collations \<Rightarrow> project_row list \<Rightarrow> grant_row list \<Rightarrow> bool" where
  "grants_good C rows gs \<longleftrightarrow>
     distinct (map (grant_key C) gs)
     \<and> (\<forall>g \<in> set gs. g_level g \<in> {1, 2}
          \<and> (\<exists>r \<in> set rows. id_of r = g_project_id g \<and> owner_user_id r = None))"

definition one_namespace :: "collations \<Rightarrow> project_row list \<Rightarrow> alias_row list \<Rightarrow> bool" where
  "one_namespace C rows als \<longleftrightarrow>
     (\<forall>a \<in> set als. \<forall>r \<in> set rows. \<not> same_path C (alias_path a) (path r))"

definition store_good :: "collations \<Rightarrow> store \<Rightarrow> bool" where
  "store_good C s \<longleftrightarrow>
     projects_good C (projects s)
     \<and> grants_good C (projects s) (grants s)
     \<and> one_namespace C (projects s) (aliases s)
     \<and> (\<forall>a \<in> set (aliases s). path_ok (alias_path a))
     \<and> distinct (map (\<lambda>a. ci_key C (alias_path a)) (aliases s))
     \<and> distinct (map (ledger_key C) (writes s))
     \<and> sync_lock s = [1]"

lemma empty_store_good [simp]: "store_good C empty_store"
  by (simp add: store_good_def projects_good_def grants_good_def one_namespace_def empty_store_def)

lemma store_good_projects: "store_good C s \<Longrightarrow> projects_good C (projects s)"
  by (simp add: store_good_def)

lemma projects_good_row: "projects_good C rows \<Longrightarrow> r \<in> set rows \<Longrightarrow> row_good C r"
  by (simp add: projects_good_def)

lemma projects_good_path_eq:
  "projects_good C rows \<Longrightarrow> r \<in> set rows \<Longrightarrow> r' \<in> set rows \<Longrightarrow>
   same_path C (path r) (path r') \<Longrightarrow> r = r'"
  using distinct_map_eq[of "\<lambda>r. ci_key C (path r)" rows r r']
  by (simp add: projects_good_def same_path_def)

lemma projects_good_id_eq:
  "projects_good C rows \<Longrightarrow> r \<in> set rows \<Longrightarrow> r' \<in> set rows \<Longrightarrow>
   same_id C (id_of r) (id_of r') \<Longrightarrow> r = r'"
  using distinct_map_eq[of "\<lambda>r. srv_key C (id_of r)" rows r r']
  by (simp add: projects_good_def same_id_def)

lemma row_good_class: "row_good C r \<Longrightarrow> class_ok C r"
  by (auto simp: row_good_def row_refusal_def split: if_splits)

lemma row_good_path_chars: "row_good C r \<Longrightarrow> list_all path_char (path r)"
  by (auto simp: row_good_def list_all_iff path_ok_chars)

text \<open>The class is the path: an owner exactly on a private path.\<close>

lemma row_good_owner:
  assumes "path_collation (ci_key C)" and "row_good C r"
  shows "owner_user_id r \<noteq> None \<longleftrightarrow> is_private_class (path r)"
  using row_good_class[OF assms(2)]
    path_collation.like_private[OF assms(1) row_good_path_chars[OF assms(2)]]
  by (simp add: class_ok_def)

section \<open>Statements\<close>

lemma insert_project_Inr:
  "insert_project C row now s = Inr (u, s') \<longleftrightarrow>
     row_refusal C (row now) = None
     \<and> (\<forall>r \<in> set (projects s). \<not> same_id C (id_of r) (id_of (row now))
                               \<and> \<not> same_path C (path r) (path (row now)))
     \<and> s' = s\<lparr>projects := projects s @ [row now]\<rparr>"
  by (auto simp: insert_project_def list_ex_iff split: option.splits)

lemma insert_project_good:
  assumes ins: "insert_project C row now s = Inr (u, s')" and good: "store_good C s"
    and row: "row_good C (row now)"
    and former: "\<forall>a \<in> set (aliases s). \<not> same_path C (alias_path a) (path (row now))"
  shows "store_good C s'"
proof -
  from ins have s': "s' = s\<lparr>projects := projects s @ [row now]\<rparr>"
    and new: "\<forall>r \<in> set (projects s). \<not> same_id C (id_of r) (id_of (row now))
                                    \<and> \<not> same_path C (path r) (path (row now))"
    by (auto simp: insert_project_Inr)
  have "projects_good C (projects s @ [row now])"
    using good new row
    by (auto simp: store_good_def projects_good_def same_id_def same_path_def)
  then show ?thesis
    using good former s' by (auto simp: store_good_def grants_good_def one_namespace_def)
qed

lemma update_projects_Inr:
  "update_projects C P f now s = Inr (u, s') \<longleftrightarrow>
     (\<forall>r \<in> set (projects s). P s r \<longrightarrow> row_refusal C (f now r) = None)
     \<and> s' = s\<lparr>projects := map (\<lambda>r. if P s r then f now r else r) (projects s)\<rparr>"
  by (auto simp: update_projects_def find_None_iff find_Some_iff split: option.splits)

text \<open>An update that keeps a row's id, path and owner, and keeps it good, keeps the store good.\<close>

lemma update_projects_good:
  assumes upd: "update_projects C P f now s = Inr (u, s')" and good: "store_good C s"
    and keeps: "\<And>r. r \<in> set (projects s) \<Longrightarrow> P s r \<Longrightarrow>
        id_of (f now r) = id_of r \<and> path (f now r) = path r
        \<and> owner_user_id (f now r) = owner_user_id r"
    and row: "\<And>r. r \<in> set (projects s) \<Longrightarrow> P s r \<Longrightarrow> row_refusal C (f now r) = None \<Longrightarrow>
        row_good C r \<Longrightarrow> row_good C (f now r)"
  shows "store_good C s'"
proof -
  let ?f = "\<lambda>r. if P s r then f now r else r"
  from upd have s': "s' = s\<lparr>projects := map ?f (projects s)\<rparr>"
    and ok: "\<forall>r \<in> set (projects s). P s r \<longrightarrow> row_refusal C (f now r) = None"
    by (auto simp: update_projects_Inr)
  have same: "r \<in> set (projects s) \<Longrightarrow>
      id_of (?f r) = id_of r \<and> path (?f r) = path r \<and> owner_user_id (?f r) = owner_user_id r" for r
    using keeps by auto
  have keys: "map (\<lambda>r. srv_key C (id_of r)) (map ?f (projects s)) = map (\<lambda>r. srv_key C (id_of r)) (projects s)"
    "map (\<lambda>r. ci_key C (path r)) (map ?f (projects s)) = map (\<lambda>r. ci_key C (path r)) (projects s)"
    using same by auto
  have "\<forall>r \<in> set (projects s). row_good C r"
    using good by (simp add: store_good_def projects_good_def)
  then have "\<forall>r \<in> set (map ?f (projects s)). row_good C r"
    using row ok by auto
  then have "projects_good C (map ?f (projects s))"
    using good unfolding store_good_def projects_good_def keys by blast
  moreover have "grants_good C (map ?f (projects s)) (grants s)"
    unfolding grants_good_def
  proof (intro conjI ballI)
    show "distinct (map (grant_key C) (grants s))"
      using good by (simp add: store_good_def grants_good_def)
    fix g assume g: "g \<in> set (grants s)"
    then show "g_level g \<in> {1, 2}" using good by (simp add: store_good_def grants_good_def)
    from g good obtain r where "r \<in> set (projects s)" "id_of r = g_project_id g" "owner_user_id r = None"
      by (auto simp: store_good_def grants_good_def)
    with same[of r] show "\<exists>r \<in> set (map ?f (projects s)). id_of r = g_project_id g \<and> owner_user_id r = None"
      by (intro bexI[of _ "?f r"]) auto
  qed
  moreover have "one_namespace C (map ?f (projects s)) (aliases s)"
    using good keeps by (auto simp: store_good_def one_namespace_def)
  ultimately show ?thesis using good s' by (simp add: store_good_def)
qed

lemma insert_write_Inr:
  "insert_write C w now s = Inr (u, s') \<longleftrightarrow>
     write_fits w \<and> (\<forall>v \<in> set (writes s). ledger_key C v \<noteq> ledger_key C w)
     \<and> s' = s\<lparr>writes := writes s @ [w]\<rparr>"
  by (auto simp: insert_write_def list_ex_iff)

lemma insert_write_good:
  "insert_write C w now s = Inr (u, s') \<Longrightarrow> store_good C s \<Longrightarrow> store_good C s'"
  by (auto simp: insert_write_Inr store_good_def)

lemma update_write_good:
  "update_write C k resp now s = Inr (u, s') \<Longrightarrow> store_good C s \<Longrightarrow> store_good C s'"
proof -
  assume upd: "update_write C k resp now s = Inr (u, s')" and good: "store_good C s"
  let ?f = "\<lambda>v. if ledger_key C v = k then v\<lparr>w_response := resp\<rparr> else v"
  from upd have s': "s' = s\<lparr>writes := map ?f (writes s)\<rparr>"
    by (auto simp: update_write_def split: if_splits)
  have "map (ledger_key C) (map ?f (writes s)) = map (ledger_key C) (writes s)"
    by (auto simp: ledger_key_def)
  then have "distinct (map (ledger_key C) (map ?f (writes s)))"
    using good by (simp only: store_good_def)
  with good s' show ?thesis by (simp add: store_good_def del: map_map)
qed

lemma select_good: "select q now s = Inr (x, s') \<Longrightarrow> s' = s \<and> x = q s"
  by (auto simp: select_def)

lemma select_one_good: "select_one q now s = Inr (x, s') \<Longrightarrow> s' = s \<and> q s = Some x"
  by (auto simp: select_one_def split: option.splits)

end
