(* ===== verification/Scopes.thy ===== *)
theory Scopes
  imports Messages
begin

text \<open>
  How a caller's \<open>Scope\<close> is used (\<open>src/sql.rs\<close>: \<open>scope_of\<close>, \<open>tel_scope\<close>, \<open>capped\<close>,
  \<open>request_id_of\<close>): required by a write, copied onto the telemetry record, its request id
  replaced by a capped header when it carries none.
\<close>

definition scope_of :: "scope option \<Rightarrow> status + scope" where
  "scope_of sc =
     (case sc of None \<Rightarrow> refused Invalid_argument In_engine Scope_required | Some x \<Rightarrow> Inr x)"

section \<open>The scope a record carries\<close>

record tel_scope =
  tl_request_id :: string
  tl_instance_id :: string
  tl_user_id :: string
  tl_project_id :: string

definition tel_scope_of :: "scope option \<Rightarrow> string \<Rightarrow> tel_scope" where
  "tel_scope_of sc header =
     (let field = (\<lambda>f. case sc of None \<Rightarrow> [] | Some x \<Rightarrow> f x);
          request_id = (if field sc_request_id \<noteq> [] then field sc_request_id else header)
      in \<lparr>tl_request_id = request_id, tl_instance_id = field sc_instance_id,
          tl_user_id = field sc_user_id, tl_project_id = field sc_project_id\<rparr>)"

section \<open>The capped request id\<close>

definition REQUEST_ID_CAP :: nat where
  "REQUEST_ID_CAP = 256"

definition CUT_MARKER :: string where
  "CUT_MARKER = ''...''"

text \<open>\<open>char_indices().nth(n)\<close>: the byte at which character number \<open>n\<close> starts, counting from
  zero.\<close>

fun nth_char_index :: "nat \<Rightarrow> string \<Rightarrow> nat option" where
  "nth_char_index n [] = None"
| "nth_char_index n (c # cs) =
     (if is_continuation c then map_option Suc (nth_char_index n cs)
      else (case n of 0 \<Rightarrow> Some 0 | Suc m \<Rightarrow> map_option Suc (nth_char_index m cs)))"

definition capped :: "string \<Rightarrow> string" where
  "capped s =
     (case nth_char_index REQUEST_ID_CAP s of
        Some at \<Rightarrow> take at s @ CUT_MARKER
      | None \<Rightarrow> s)"

text \<open>\<open>request_id_of\<close>: the header as the metadata holds it, absent or unreadable as \<^const>\<open>None\<close>.\<close>

definition request_id_of :: "string option \<Rightarrow> string" where
  "request_id_of header = (case header of None \<Rightarrow> [] | Some v \<Rightarrow> capped v)"

section \<open>Facts about capping\<close>

lemma nth_char_index_None: "nth_char_index n s = None \<longleftrightarrow> chars_count s \<le> n"
  by (induction n s rule: nth_char_index.induct)
    (auto simp: chars_count_def split: nat.splits)

lemma nth_char_index_Some:
  "nth_char_index n s = Some i \<Longrightarrow> chars_count (take i s) = n \<and> i < length s"
proof (induction n s arbitrary: i rule: nth_char_index.induct)
  case (2 n c cs)
  then show ?case
    by (cases "is_continuation c"; cases n) (auto simp: chars_count_def)
qed simp

lemma chars_count_append: "chars_count (a @ b) = chars_count a + chars_count b"
  by (simp add: chars_count_def)

lemma chars_CUT_MARKER [simp]: "chars_count CUT_MARKER = 3"
  by (simp add: CUT_MARKER_def chars_count_def is_continuation_def byte_def)

lemma nth_char_index_append:
  "chars_count a = n \<Longrightarrow> b \<noteq> [] \<Longrightarrow> \<not> is_continuation (hd b) \<Longrightarrow>
   nth_char_index n (a @ b) = Some (length a)"
proof (induction n a rule: nth_char_index.induct)
  case (1 n)
  then show ?case by (cases b) (auto simp: chars_count_def)
next
  case (2 n c cs)
  then show ?case by (cases n; cases "is_continuation c") (auto simp: chars_count_def)
qed

lemma chars_capped: "chars_count (capped s) \<le> REQUEST_ID_CAP + 3"
  by (auto simp: capped_def nth_char_index_None chars_count_append dest: nth_char_index_Some
        split: option.splits)

lemma capped_short: "chars_count s \<le> REQUEST_ID_CAP \<Longrightarrow> capped s = s"
  by (simp add: capped_def nth_char_index_None split: option.splits)
    (simp flip: nth_char_index_None)

text \<open>Two hops that cut the same id agree: capping twice is capping once.\<close>

lemma capped_idem: "capped (capped s) = capped s"
proof (cases "nth_char_index REQUEST_ID_CAP s")
  case None
  then show ?thesis by (simp add: capped_def)
next
  case (Some i)
  then have c: "capped s = take i s @ CUT_MARKER" by (simp add: capped_def)
  have "nth_char_index REQUEST_ID_CAP (take i s @ CUT_MARKER) = Some (length (take i s))"
    using nth_char_index_Some[OF Some]
    by (intro nth_char_index_append)
      (simp_all add: CUT_MARKER_def is_continuation_def byte_def)
  then have "capped (take i s @ CUT_MARKER) = take (length (take i s)) (take i s @ CUT_MARKER) @ CUT_MARKER"
    by (simp only: capped_def option.case)
  also have "\<dots> = take i s @ CUT_MARKER" by (simp only: append_eq_conv_conj) simp
  finally have "capped (take i s @ CUT_MARKER) = take i s @ CUT_MARKER" .
  with c show ?thesis by simp
qed

text \<open>A forwarded request id is bounded and stable: one of at most 256 characters is recorded
  whole, a longer one as its first 256 characters and a marker - never cut inside a character - and
  a hop that caps an id another hop already capped leaves it as it is.\<close>

theorem capped_bounded:
  "(if chars_count s \<le> 256 then capped s = s
    else \<exists>u v. s = u @ v \<and> chars_count u = 256 \<and> v \<noteq> [] \<and> capped s = u @ ''...'')
   \<and> capped (capped s) = capped s"
proof (cases "nth_char_index REQUEST_ID_CAP s")
  case None
  then have "chars_count s \<le> 256" by (simp add: nth_char_index_None REQUEST_ID_CAP_def)
  then show ?thesis using capped_short[of s] capped_idem by (simp add: REQUEST_ID_CAP_def)
next
  case (Some i)
  then have "\<not> chars_count s \<le> 256"
    using nth_char_index_None[of REQUEST_ID_CAP s] by (simp add: REQUEST_ID_CAP_def)
  moreover have "s = take i s @ drop i s \<and> chars_count (take i s) = 256 \<and> drop i s \<noteq> []
      \<and> capped s = take i s @ ''...''"
    using nth_char_index_Some[OF Some] Some by (simp add: capped_def CUT_MARKER_def REQUEST_ID_CAP_def)
  ultimately show ?thesis using capped_idem by metis
qed

end
