(* ===== verification/Idem.thy ===== *)
theory Idem
  imports Invariant Scopes
begin

text \<open>
  \<open>src/idem.rs\<close>: the idempotency ledger. A key is claimed by inserting its row inside the
  caller's transaction; a key that is already there is a replay of the recorded outcome, or a
  refusal when the operation or the request differs. The digest and the message codec are
  third-party and come from the environment.
\<close>

datatype 'a claimed = Proceed | Replay 'a

text \<open>An absent or an empty key does not participate.\<close>

definition present :: "idempotency option \<Rightarrow> string option" where
  "present idem =
     (case idem of None \<Rightarrow> None | Some i \<Rightarrow> if idem_key i = [] then None else Some (idem_key i))"

definition fingerprint :: "env \<Rightarrow> string \<Rightarrow> string" where
  "fingerprint E payload = sha256 E payload"

definition claim_key :: "collations \<Rightarrow> scope \<Rightarrow> string \<Rightarrow> string \<times> string \<times> string" where
  "claim_key C sc key = (srv_key C (sc_project_id sc), srv_key C (sc_user_id sc), srv_key C key)"

definition claim_row :: "scope \<Rightarrow> string \<Rightarrow> string \<Rightarrow> string \<Rightarrow> write_row" where
  "claim_row sc rpc key fp =
     \<lparr>w_project_id = sc_project_id sc, w_user_id = sc_user_id sc, w_key = key, w_rpc = rpc,
      w_response = [], w_fingerprint = fp\<rparr>"

definition replay ::
  "env \<Rightarrow> scope \<Rightarrow> string \<Rightarrow> string \<Rightarrow> string \<Rightarrow> register_response claimed txm" where
  "replay E sc rpc key fp =
     and_then
       (stmt E (select_one (\<lambda>s.
          find (\<lambda>w. ledger_key (coll E) w = claim_key (coll E) sc key) (writes s))))
       (\<lambda>row.
          if w_rpc row \<noteq> rpc then fail (Status Invalid_argument (In_engine Key_other_operation))
          else if w_fingerprint row \<noteq> fp
          then fail (Status Invalid_argument (In_engine Key_other_request))
          else (case decode_response E (w_response row) of
                  Some r \<Rightarrow> ret (Replay r)
                | None \<Rightarrow> fail (Status Internal (In_engine Storage_error))))"

definition claim ::
  "env \<Rightarrow> scope \<Rightarrow> string \<Rightarrow> idempotency option \<Rightarrow> string \<Rightarrow> register_response claimed txm" where
  "claim E sc rpc idem payload =
     (case present idem of
        None \<Rightarrow> ret Proceed
      | Some key \<Rightarrow>
          (let fp = fingerprint E payload in
           and_then (attempt E (insert_write (coll E) (claim_row sc rpc key fp)))
             (\<lambda>claimed. case claimed of
                Inr _ \<Rightarrow> ret Proceed
              | Inl e \<Rightarrow>
                  if is_duplicate e then replay E sc rpc key fp else fail (internal e))))"

definition record_outcome ::
  "env \<Rightarrow> scope \<Rightarrow> idempotency option \<Rightarrow> register_response \<Rightarrow> unit txm" where
  "record_outcome E sc idem response =
     (case present idem of
        None \<Rightarrow> ret ()
      | Some key \<Rightarrow>
          stmt E (update_write (coll E) (claim_key (coll E) sc key) (encode_response E response)))"

section \<open>Facts\<close>

lemma ledger_key_claim_row [simp]:
  "ledger_key C (claim_row sc rpc key fp) = claim_key C sc key"
  by (simp add: ledger_key_def claim_key_def claim_row_def)

text \<open>Claiming and recording write the ledger and nothing else.\<close>

definition same_registry :: "store \<Rightarrow> store \<Rightarrow> bool" where
  "same_registry s s' \<longleftrightarrow>
     projects s' = projects s \<and> aliases s' = aliases s \<and> grants s' = grants s
     \<and> sync_lock s' = sync_lock s"

lemma same_registry_refl [simp]: "same_registry s s"
  by (simp add: same_registry_def)

lemma replay_hoare: "hoare P (replay E sc rpc key fp) (\<lambda>c s. P s \<and> (\<exists>r. c = Replay r))"
  unfolding replay_def
proof (rule hoare_and_then[where R = "\<lambda>_. P"])
  show "hoare P (stmt E (select_one (\<lambda>s.
      find (\<lambda>w. ledger_key (coll E) w = claim_key (coll E) sc key) (writes s)))) (\<lambda>_. P)"
    by (rule hoare_stmt) (auto dest!: select_one_good)
qed (auto simp: hoare_def tx_simps split: if_splits option.splits)

lemma claim_hoare:
  assumes ins: "\<And>now s u s' w. P s \<Longrightarrow> insert_write (coll E) w now s = Inr (u, s') \<Longrightarrow> P s'"
  shows "hoare P (claim E sc rpc idem payload) (\<lambda>_. P)"
proof (cases "present idem")
  case None
  then show ?thesis unfolding claim_def by (simp add: hoare_def tx_simps)
next
  case (Some key)
  have rep: "hoare P (replay E sc rpc key fp) (\<lambda>_. P)" for fp
    by (rule hoare_weaken[OF replay_hoare[where P = P]]) simp_all
  show ?thesis unfolding claim_def Some option.case Let_def
  proof (rule hoare_and_then[where R = "\<lambda>_. P"])
    show "hoare P (attempt E (insert_write (coll E) (claim_row sc rpc key (fingerprint E payload)))) (\<lambda>_. P)"
      by (intro hoare_attempt) (auto dest: ins)
    show "hoare P (case claimed of Inr _ \<Rightarrow> ret Proceed
       | Inl e \<Rightarrow> if is_duplicate e then replay E sc rpc key (fingerprint E payload)
                 else fail (internal e)) (\<lambda>_. P)" for claimed
      using rep by (cases claimed) (simp_all add: hoare_def tx_simps)
  qed
qed

lemma record_hoare:
  assumes upd: "\<And>now s u s' k r. P s \<Longrightarrow> update_write (coll E) k r now s = Inr (u, s') \<Longrightarrow> P s'"
  shows "hoare P (record_outcome E sc idem response) (\<lambda>_. P)"
proof (cases "present idem")
  case (Some key)
  then show ?thesis unfolding record_outcome_def Some option.case by (intro hoare_stmt) (rule upd)
qed (simp add: record_outcome_def hoare_def tx_simps)

lemma claim_good: "hoare (store_good (coll E)) (claim E sc rpc idem payload) (\<lambda>_. store_good (coll E))"
  by (rule claim_hoare) (rule insert_write_good)

lemma record_good:
  "hoare (store_good (coll E)) (record_outcome E sc idem response) (\<lambda>_. store_good (coll E))"
  by (rule record_hoare) (rule update_write_good)

lemma claim_registry: "hoare (same_registry s0) (claim E sc rpc idem payload) (\<lambda>_. same_registry s0)"
  by (rule claim_hoare) (auto simp: insert_write_Inr same_registry_def)

lemma record_registry:
  "hoare (same_registry s0) (record_outcome E sc idem response) (\<lambda>_. same_registry s0)"
  by (rule record_hoare) (auto simp: update_write_def same_registry_def split: if_splits)

section \<open>What a claim says\<close>

text \<open>The row a replay answers from: the caller's own key, the same operation, the same bytes.\<close>

definition recorded ::
  "env \<Rightarrow> scope \<Rightarrow> string \<Rightarrow> string \<Rightarrow> string \<Rightarrow> register_response \<Rightarrow> write_row list \<Rightarrow> bool" where
  "recorded E sc rpc key fp r ws \<longleftrightarrow>
     (\<exists>w \<in> set ws. ledger_key (coll E) w = claim_key (coll E) sc key \<and> w_rpc w = rpc
        \<and> w_fingerprint w = fp \<and> decode_response E (w_response w) = Some r)"

definition key_free :: "env \<Rightarrow> scope \<Rightarrow> string \<Rightarrow> store \<Rightarrow> bool" where
  "key_free E sc key s \<longleftrightarrow>
     (\<forall>w \<in> set (writes s). ledger_key (coll E) w \<noteq> claim_key (coll E) sc key)"

lemma replay_InrD:
  assumes "replay E sc rpc key fp t = (Inr c, t')"
  shows "work t' = work t \<and> (\<exists>r. c = Replay r \<and> recorded E sc rpc key fp r (writes (work t)))"
proof -
  from assms obtain w t1 where
    w: "stmt E (select_one (\<lambda>s.
          find (\<lambda>w. ledger_key (coll E) w = claim_key (coll E) sc key) (writes s))) t = (Inr w, t1)"
    and rest: "(if w_rpc w \<noteq> rpc then fail (Status Invalid_argument (In_engine Key_other_operation))
          else if w_fingerprint w \<noteq> fp
          then fail (Status Invalid_argument (In_engine Key_other_request))
          else (case decode_response E (w_response w) of
                  Some r \<Rightarrow> ret (Replay r)
                | None \<Rightarrow> fail (Status Internal (In_engine Storage_error)))) t1 = (Inr c, t')"
    unfolding replay_def by (auto dest: and_then_InrD)
  from stmt_InrD[OF w] have "find (\<lambda>w. ledger_key (coll E) w = claim_key (coll E) sc key) (writes (work t)) = Some w"
    and t1: "work t1 = work t" by (auto dest!: select_one_good)
  then have mem: "w \<in> set (writes (work t))" "ledger_key (coll E) w = claim_key (coll E) sc key"
    by (auto dest!: find_in)
  from rest have "w_rpc w = rpc" "w_fingerprint w = fp" "t' = t1"
    "\<exists>r. decode_response E (w_response w) = Some r \<and> c = Replay r"
    by (auto simp: tx_simps split: if_splits option.splits)
  with mem t1 show ?thesis by (auto simp: recorded_def)
qed

lemma attempt_InlD: "attempt E q t = (Inr (Inl e), t') \<Longrightarrow> work t' = work t"
  by (auto simp: attempt_def split: option.splits sum.splits prod.splits)

lemma attempt_InrD:
  "attempt E q t = (Inr (Inr x), t') \<Longrightarrow> q (clock E (stmts t)) (work t) = Inr (x, work t')"
  by (auto simp: attempt_def split: option.splits sum.splits prod.splits)

lemma claim_InrD:
  assumes "claim E sc rpc idem bytes t = (Inr c, t')"
  shows "(c = Proceed \<and> present idem = None \<and> work t' = work t)
    \<or> (\<exists>key. c = Proceed \<and> present idem = Some key \<and> key_free E sc key (work t)
         \<and> work t' = (work t)\<lparr>writes := writes (work t) @ [claim_row sc rpc key (fingerprint E bytes)]\<rparr>)
    \<or> (\<exists>key r. c = Replay r \<and> present idem = Some key \<and> work t' = work t
         \<and> recorded E sc rpc key (fingerprint E bytes) r (writes (work t)))"
proof (cases "present idem")
  case None
  with assms show ?thesis by (simp add: claim_def tx_simps)
next
  case (Some key)
  let ?row = "claim_row sc rpc key (fingerprint E bytes)"
  from assms obtain got t1 where got: "attempt E (insert_write (coll E) ?row) t = (Inr got, t1)"
    and rest: "(case got of Inr _ \<Rightarrow> ret Proceed
      | Inl e \<Rightarrow> if is_duplicate e then replay E sc rpc key (fingerprint E bytes)
                 else fail (internal e)) t1 = (Inr c, t')"
    unfolding claim_def Some by (auto simp: Let_def dest!: and_then_InrD)
  show ?thesis
  proof (cases got)
    case (Inl e)
    with rest got attempt_InlD[of E "insert_write (coll E) ?row" t e t1] show ?thesis
      by (auto simp: Some tx_simps split: if_splits dest!: replay_InrD)
  next
    case (Inr u)
    with got have "insert_write (coll E) ?row (clock E (stmts t)) (work t) = Inr (u, work t1)"
      by (auto dest: attempt_InrD)
    with rest Inr show ?thesis
      by (auto simp: Some tx_simps insert_write_Inr key_free_def)
  qed
qed

text \<open>Recording the outcome rewrites the row the same call claimed, and no other.\<close>

lemma update_write_last:
  assumes "key_free E sc key s"
    and "update_write (coll E) (claim_key (coll E) sc key) resp now
           (s'\<lparr>writes := writes s @ [claim_row sc rpc key fp]\<rparr>) = Inr (u, s'')"
  shows "s'' = s'\<lparr>writes := writes s @ [(claim_row sc rpc key fp)\<lparr>w_response := resp\<rparr>]\<rparr>"
proof -
  have "map (\<lambda>v. if ledger_key (coll E) v = claim_key (coll E) sc key then v\<lparr>w_response := resp\<rparr> else v)
      (writes s) = writes s"
    using assms(1) by (intro map_idI) (auto simp: key_free_def)
  with assms(2) show ?thesis by (simp add: update_write_def split: if_splits)
qed

section \<open>Running a claim without faults\<close>

lemma claim_run_free [tx_simps]:
  "no_faults E \<Longrightarrow> present idem = None \<Longrightarrow> claim E sc rpc idem bytes t = (Inr Proceed, t)"
  by (simp add: claim_def tx_simps)

lemma claim_run_held:
  assumes E: "no_faults E" and key: "present idem = Some key"
    and fits: "write_fits (claim_row sc rpc key (fingerprint E bytes))"
    and row: "w \<in> set (writes (work t))" "ledger_key (coll E) w = claim_key (coll E) sc key"
    and uniq: "distinct (map (ledger_key (coll E)) (writes (work t)))"
  shows "claim E sc rpc idem bytes t =
    (if w_rpc w \<noteq> rpc then Inl (Status Invalid_argument (In_engine Key_other_operation))
     else if w_fingerprint w \<noteq> fingerprint E bytes
     then Inl (Status Invalid_argument (In_engine Key_other_request))
     else (case decode_response E (w_response w) of
             Some r \<Rightarrow> Inr (Replay r) | None \<Rightarrow> Inl (Status Internal (In_engine Storage_error))),
     t\<lparr>stmts := stmts t + 2\<rparr>)"
proof -
  have found: "find (\<lambda>v. ledger_key (coll E) v = claim_key (coll E) sc key) (writes (work t)) = Some w"
    using find_key[OF uniq row(1)] by (simp add: row(2))
  have dup: "insert_write (coll E) (claim_row sc rpc key (fingerprint E bytes)) now (work t)
      = Inl unique_violation" for now
    using row fits by (auto simp: insert_write_def list_ex_iff)
  show ?thesis
    by (auto simp: claim_def replay_def key E tx_simps dup select_one_def found Let_def
        split: option.splits)
qed

lemma write_fits_claim_row:
  "write_fits (claim_row sc rpc key fp) \<longleftrightarrow>
     fits 255 (sc_project_id sc) \<and> fits 64 (sc_user_id sc) \<and> fits 255 key \<and> fits 32 rpc"
  by (simp add: write_fits_def claim_row_def)

end
