(* ===== verification/Rows.thy ===== *)
theory Rows
  imports Idem
begin

text \<open>
  \<open>src/rows.rs\<close>: the columns a read selects and the message one row becomes. The engine turns
  every timestamp into a number of seconds, so an absent one stays absent.
\<close>

record selected =
  se_id :: string
  se_version :: nat
  se_path :: string
  se_display_name :: string
  se_status :: int
  se_owner_user_id :: "string option"
  se_created_by :: string
  se_updated_by :: string
  se_created_at_secs :: "int option"
  se_updated_at_secs :: "int option"
  se_last_seen_at_secs :: "int option"

text \<open>The select list \<open>COLUMNS\<close>, evaluated on a row.\<close>

definition COLUMNS :: "project_row \<Rightarrow> selected" where
  "COLUMNS r =
     \<lparr>se_id = id_of r, se_version = version r, se_path = path r, se_display_name = display_name r,
      se_status = row_status r, se_owner_user_id = owner_user_id r, se_created_by = created_by r,
      se_updated_by = updated_by r, se_created_at_secs = Some (created_at r),
      se_updated_at_secs = Some (updated_at r), se_last_seen_at_secs = last_seen_at r\<rparr>"

definition at :: "int \<Rightarrow> timestamp" where
  "at secs = \<lparr>seconds = secs, nanos = 0\<rparr>"

definition unwrap_or_default :: "string option \<Rightarrow> string" where
  "unwrap_or_default v = (case v of None \<Rightarrow> [] | Some s \<Rightarrow> s)"

definition row_to_project :: "selected \<Rightarrow> project" where
  "row_to_project row =
     \<lparr>p_meta = Some
        \<lparr>m_id = se_id row, m_version = se_version row, m_project_id = se_path row,
         m_owner_user_id = unwrap_or_default (se_owner_user_id row), m_team_id = [],
         m_visibility = 0, m_created_by = se_created_by row, m_updated_by = se_updated_by row,
         m_created_at = map_option at (se_created_at_secs row),
         m_updated_at = map_option at (se_updated_at_secs row), m_deleted_at = None,
         m_derived_from = []\<rparr>,
      p_path = se_path row, p_display_name = se_display_name row, p_status = se_status row,
      p_last_seen_at = map_option at (se_last_seen_at_secs row), p_aliases = [], p_grants = []\<rparr>"

lemma row_to_project_path [simp]: "p_path (row_to_project (COLUMNS r)) = path r"
  by (simp add: row_to_project_def COLUMNS_def)

lemma row_to_project_id [simp]:
  "map_option m_id (p_meta (row_to_project (COLUMNS r))) = Some (id_of r)"
  by (simp add: row_to_project_def COLUMNS_def)

end
