(* ===== verification/Grants.thy ===== *)
theory Grants
  imports Idem
begin

text \<open>
  \<open>src/write/grants.rs\<close>: the grant half of \<open>SyncProjects\<close>. The declared grants of a row are
  validated, the writes are planned against the stored set, and the plan is carried out:
  deletes, then level changes, then inserts.
\<close>

section \<open>Validation\<close>

definition TEAM_PREFIX :: string where
  "TEAM_PREFIX = ''yadgar:team:''"

definition MAX_TEAM_NAME_CHARS :: nat where
  "MAX_TEAM_NAME_CHARS = 63"

definition is_team_id :: "string \<Rightarrow> bool" where
  "is_team_id tid =
     (case strip_prefix TEAM_PREFIX tid of
        None \<Rightarrow> False
      | Some name \<Rightarrow>
          (case name of
             [] \<Rightarrow> False
           | c # chars \<Rightarrow>
               is_ascii_lowercase c \<and> chars_count name \<le> MAX_TEAM_NAME_CHARS
               \<and> list_all (\<lambda>c. is_ascii_lowercase c \<or> is_ascii_digit c \<or> c = CHR ''-'') chars))"

definition grant_level_check :: "string \<Rightarrow> declared_grant \<Rightarrow> status + int" where
  "grant_level_check p g =
     (case level_try_from (dg_level g) of
        Some Level_read \<Rightarrow> Inr (level_i8 Level_read)
      | Some Level_read_write \<Rightarrow> Inr (level_i8 Level_read_write)
      | _ \<Rightarrow> refused Invalid_argument In_grants (Grant_level (dg_team_id g) p (dg_level g)))"

fun validate_grants_from ::
  "string \<Rightarrow> string set \<Rightarrow> declared_grant list \<Rightarrow> status + (string \<times> int) list" where
  "validate_grants_from p seen [] = Inr []"
| "validate_grants_from p seen (g # gs) =
     also_check (grant_level_check p g) (\<lambda>level.
       if \<not> is_team_id (dg_team_id g)
       then refused Invalid_argument In_grants (Grant_team p (dg_team_id g))
       else if dg_team_id g \<in> seen
       then refused Invalid_argument In_grants (Grant_twice p (dg_team_id g))
       else also_check (validate_grants_from p (insert (dg_team_id g) seen) gs) (\<lambda>out.
         Inr ((dg_team_id g, level) # out)))"

definition validate_grants :: "declared_project \<Rightarrow> status + (string \<times> int) list" where
  "validate_grants d = validate_grants_from (dp_path d) {} (dp_grants d)"

section \<open>The declared and the stored grants\<close>

text \<open>\<open>Declared\<close> of \<open>src/write/sync.rs\<close>: one declared row, validated, with its folded key.\<close>

record declared =
  dc_key :: string
  dc_path :: string
  dc_display_name :: string
  dc_source_repo :: string
  dc_grants :: "(string \<times> int) list"

record stored_grant =
  sg_project_id :: string
  sg_path :: string
  sg_team_id :: string
  sg_level :: int

definition stored_grants_of :: "collations \<Rightarrow> store \<Rightarrow> stored_grant list" where
  "stored_grants_of C s =
     concat (map (\<lambda>g. map (\<lambda>p. \<lparr>sg_project_id = g_project_id g, sg_path = path p,
                                sg_team_id = g_team_id g, sg_level = g_level g\<rparr>)
         (filter (\<lambda>p. same_id C (id_of p) (g_project_id g) \<and> owner_user_id p = None) (projects s)))
       (grants s))"

definition stored_grants :: "env \<Rightarrow> stored_grant list txm" where
  "stored_grants E = stmt E (select (stored_grants_of (coll E)))"

section \<open>The plan\<close>

record grant_plan =
  gp_inserts :: "(string \<times> string \<times> int) list"
  gp_updates :: "(string \<times> string \<times> int) list"
  gp_deletes :: "(string \<times> string) list"
  gp_unchanged :: "32 word"

text \<open>The \<open>HashMap\<close> collected from the declaration: of two entries at one key the later wins.\<close>

definition wanted :: "declared list \<Rightarrow> (string \<times> string) \<Rightarrow> int option" where
  "wanted ds =
     map_of (rev (concat (map (\<lambda>d. map (\<lambda>(t, l). ((dc_key d, t), l)) (dc_grants d)) ds)))"

definition grant_pair :: "stored_grant \<Rightarrow> string \<times> string" where
  "grant_pair g = (to_ascii_lowercase (sg_path g), sg_team_id g)"

definition plan_one :: "declared list \<Rightarrow> stored_grant \<Rightarrow> grant_plan \<Rightarrow> grant_plan" where
  "plan_one ds g plan =
     (case wanted ds (grant_pair g) of
        Some level \<Rightarrow>
          (if level = sg_level g then plan\<lparr>gp_unchanged := gp_unchanged plan + 1\<rparr>
           else plan\<lparr>gp_updates := gp_updates plan @ [(sg_project_id g, sg_team_id g, level)]\<rparr>)
      | None \<Rightarrow> plan\<lparr>gp_deletes := gp_deletes plan @ [(sg_project_id g, sg_team_id g)]\<rparr>)"

definition plan_inserts ::
  "declared list \<Rightarrow> (string \<times> string) set \<Rightarrow> (string \<times> string \<times> int) list" where
  "plan_inserts ds kept =
     concat (map (\<lambda>d. map (\<lambda>(t, l). (dc_key d, t, l))
       (filter (\<lambda>(t, l). (dc_key d, t) \<notin> kept) (dc_grants d))) ds)"

definition grants_plan :: "declared list \<Rightarrow> stored_grant list \<Rightarrow> grant_plan" where
  "grants_plan ds stored =
     (let plan = fold (plan_one ds) stored
                   \<lparr>gp_inserts = [], gp_updates = [], gp_deletes = [], gp_unchanged = 0\<rparr>
      in plan\<lparr>gp_inserts := plan_inserts ds (grant_pair ` set stored)\<rparr>)"

definition revoke_guard :: "nat \<Rightarrow> nat \<Rightarrow> bool \<Rightarrow> status + unit" where
  "revoke_guard deleting stored allowed =
     (if allowed \<or> deleting * 2 \<le> stored then Inr ()
      else refused Failed_precondition In_grants (Mass_revoke deleting stored))"

section \<open>Carrying it out\<close>

definition write_deletes :: "env \<Rightarrow> (string \<times> string) list \<Rightarrow> unit txm" where
  "write_deletes E ps =
     for_each (\<lambda>(pid, team) _. stmt E (delete_grants (coll E) pid team)) ps ()"

definition write_updates :: "env \<Rightarrow> (string \<times> string \<times> int) list \<Rightarrow> unit txm" where
  "write_updates E ps =
     for_each (\<lambda>(pid, team, level) _. stmt E (update_grants (coll E) pid team level)) ps ()"

definition write_inserts ::
  "env \<Rightarrow> (string \<Rightarrow> string option) \<Rightarrow> (string \<times> string \<times> int) list \<Rightarrow> unit txm" where
  "write_inserts E ids ps =
     for_each (\<lambda>(key, team, level) _.
       case ids key of
         None \<Rightarrow> fail (Status Internal (In_grants (No_row_id key)))
       | Some pid \<Rightarrow> stmt E (insert_grant (coll E)
             \<lparr>g_project_id = pid, g_team_id = team, g_level = level\<rparr>)) ps ()"

definition write_grants :: "env \<Rightarrow> grant_plan \<Rightarrow> (string \<Rightarrow> string option) \<Rightarrow> unit txm" where
  "write_grants E plan ids =
     and_then (write_deletes E (gp_deletes plan)) (\<lambda>_.
     and_then (write_updates E (gp_updates plan)) (\<lambda>_.
     write_inserts E ids (gp_inserts plan)))"

section \<open>Facts about validation\<close>

lemma grant_level_check_Inr:
  "grant_level_check p g = Inr l \<longleftrightarrow> l = dg_level g \<and> l \<in> {1, 2}"
  by (auto simp: grant_level_check_def level_try_from_def split: grant_level.splits option.splits if_splits)

lemma validate_grants_from_Inr:
  "validate_grants_from p seen gs = Inr out \<Longrightarrow>
     out = map (\<lambda>g. (dg_team_id g, dg_level g)) gs
     \<and> (\<forall>(t, l) \<in> set out. is_team_id t \<and> l \<in> {1, 2} \<and> t \<notin> seen) \<and> distinct (map fst out)"
proof (induction p seen gs arbitrary: out rule: validate_grants_from.induct)
  case (2 p seen g gs)
  from "2.prems" obtain rest where
    rest: "validate_grants_from p (insert (dg_team_id g) seen) gs = Inr rest"
    and g: "dg_level g \<in> {1, 2}" "is_team_id (dg_team_id g)" "dg_team_id g \<notin> seen"
    and out: "out = (dg_team_id g, dg_level g) # rest"
    by (auto simp: also_check_eq_Inr grant_level_check_Inr split: if_splits)
  have "grant_level_check p g = Inr (dg_level g)" using g by (simp add: grant_level_check_Inr)
  with "2.IH"[OF _ _ rest] g have
    "rest = map (\<lambda>g. (dg_team_id g, dg_level g)) gs
     \<and> (\<forall>(t, l) \<in> set rest. is_team_id t \<and> l \<in> {1, 2} \<and> t \<notin> insert (dg_team_id g) seen)
     \<and> distinct (map fst rest)" by blast
  with out g show ?case by fastforce
qed simp

end
