(* ===== verification/Read.thy ===== *)
theory Read
  imports Rows Grants
begin

text \<open>
  \<open>src/read.rs\<close>: \<open>ResolveProject\<close>, \<open>GetProject\<close> and \<open>ListProjects\<close>. Each statement runs on the
  connection itself; an \<open>ORDER BY\<close> on a character column sorts by the column's weight strings.
\<close>

definition MAX_PAGE :: int where
  "MAX_PAGE = 500"

definition DEFAULT_PAGE :: int where
  "DEFAULT_PAGE = 50"

definition page_size :: "int \<Rightarrow> int" where
  "page_size requested =
     (if requested \<le> 0 then DEFAULT_PAGE else if requested > MAX_PAGE then MAX_PAGE else requested)"

definition status_filter :: "int option \<Rightarrow> status + project_status option" where
  "status_filter requested =
     (case requested of
        None \<Rightarrow> Inr None
      | Some value \<Rightarrow>
          (case status_try_from value of
             Some Unspecified_status \<Rightarrow> refused Invalid_argument In_read Status_unspecified
           | Some st \<Rightarrow> Inr (Some st)
           | None \<Rightarrow> refused Invalid_argument In_read (Status_unknown value)))"

section \<open>ResolveProject\<close>

text \<open>What the two-arm walk selects of a match.\<close>

record found =
  fd_matched :: string
  fd_resolved :: string
  fd_status :: int
  fd_via_alias :: int
  fd_source_repo :: "string option"

definition live_match :: "project_row \<Rightarrow> found" where
  "live_match p =
     \<lparr>fd_matched = path p, fd_resolved = path p, fd_status = row_status p, fd_via_alias = 0,
      fd_source_repo = source_repo p\<rparr>"

definition alias_match :: "alias_row \<Rightarrow> project_row \<Rightarrow> found" where
  "alias_match a p =
     \<lparr>fd_matched = alias_path a, fd_resolved = path p, fd_status = row_status p, fd_via_alias = 1,
      fd_source_repo = source_repo p\<rparr>"

definition ancestor_union :: "collations \<Rightarrow> string list \<Rightarrow> store \<Rightarrow> found list" where
  "ancestor_union C chain s =
     map live_match (filter (\<lambda>p. list_ex (same_path C (path p)) chain) (projects s))
     @ concat (map (\<lambda>a. map (alias_match a)
           (filter (\<lambda>p. same_id C (id_of p) (alias_project a)) (projects s)))
         (filter (\<lambda>a. list_ex (same_path C (alias_path a)) chain) (aliases s)))"

text \<open>\<open>IN ()\<close> is no SQL.\<close>

definition syntax_error :: sqlx_error where
  "syntax_error =
     Database \<lparr>is_unique_violation = False, sqlstate = Some ''42000'', number = 1064\<rparr>"

definition ancestor_rows :: "env \<Rightarrow> string list \<Rightarrow> found list txm" where
  "ancestor_rows E chain =
     stmt E (if holes (length chain) = [] then (\<lambda>now s. Inl syntax_error)
             else select (ancestor_union (coll E) chain))"

definition resolve_chain :: "string \<Rightarrow> string list" where
  "resolve_chain candidate =
     filter (\<lambda>ancestor. \<not> eq_ignore_ascii_case ancestor RESERVED_ROOT) (ancestors candidate)"

definition best_match :: "found list \<Rightarrow> found option" where
  "best_match = max_by_key (\<lambda>f. (length (fd_matched f), - fd_via_alias f))"

definition resolved :: "string \<Rightarrow> found \<Rightarrow> resolve_response" where
  "resolved candidate best =
     (let exact = eq_ignore_ascii_case (fd_matched best) candidate in
      \<lparr>rs_resolved_path = fd_resolved best, rs_exact = exact,
       rs_via_alias = (exact \<and> fd_via_alias best = 1), rs_status = fd_status best,
       rs_source_repo = unwrap_or_default (fd_source_repo best)\<rparr>)"

definition resolve_checks :: "resolve_request \<Rightarrow> status + unit" where
  "resolve_checks req =
     also_check (validate ''candidate_path'' (rs_candidate_path req)) (\<lambda>_.
       refuse_reserved_root ''candidate_path'' (rs_candidate_path req))"

definition resolve_body :: "env \<Rightarrow> string \<Rightarrow> resolve_response txm" where
  "resolve_body E candidate =
     and_then (ancestor_rows E (resolve_chain candidate)) (\<lambda>found.
       case best_match found of
         None \<Rightarrow> fail (Status Not_found (In_read (No_ancestor candidate)))
       | Some best \<Rightarrow> ret (resolved candidate best))"

definition resolve ::
  "env \<Rightarrow> resolve_request \<Rightarrow> deadline \<Rightarrow> store \<Rightarrow> (status + resolve_response) \<times> store" where
  "resolve E req d s =
     (case resolve_checks req of
        Inl e \<Rightarrow> (Inl e, s)
      | Inr _ \<Rightarrow> run_conn E d (resolve_body E (rs_candidate_path req)) s)"

section \<open>Filling a page\<close>

text \<open>The ids \<open>filter_map\<close> collects.\<close>

definition page_ids :: "project list \<Rightarrow> string list" where
  "page_ids ps = List.map_filter (\<lambda>p. map_option m_id (p_meta p)) ps"

definition aliases_of :: "collations \<Rightarrow> string list \<Rightarrow> store \<Rightarrow> (string \<times> string) list" where
  "aliases_of C ids s =
     map (\<lambda>a. (alias_project a, alias_path a))
       (sort_key (\<lambda>a. ci_key C (alias_path a))
         (filter (\<lambda>a. list_ex (same_id C (alias_project a)) ids) (aliases s)))"

definition with_aliases :: "env \<Rightarrow> project list \<Rightarrow> project list txm" where
  "with_aliases E ps =
     (if ps = [] then ret ps
      else let ids = page_ids ps in
        if ids = [] then ret ps
        else and_then (stmt E (select (aliases_of (coll E) ids))) (\<lambda>pairs.
          ret (map (\<lambda>p. case p_meta p of
                 None \<Rightarrow> p
               | Some m \<Rightarrow> p\<lparr>p_aliases := map snd (filter (\<lambda>pr. fst pr = m_id m) pairs)\<rparr>) ps)))"

definition grants_of_page ::
  "collations \<Rightarrow> string list \<Rightarrow> store \<Rightarrow> (string \<times> string \<times> int) list" where
  "grants_of_page C ids s =
     map (\<lambda>g. (g_project_id g, g_team_id g, g_level g))
       (sort_key (\<lambda>g. srv_key C (g_team_id g))
         (concat (map (\<lambda>g. map (\<lambda>_. g)
             (filter (\<lambda>p. same_id C (id_of p) (g_project_id g) \<and> owner_user_id p = None) (projects s)))
           (filter (\<lambda>g. list_ex (same_id C (g_project_id g)) ids) (grants s)))))"

definition with_grants :: "env \<Rightarrow> project list \<Rightarrow> project list txm" where
  "with_grants E ps =
     (let ids = page_ids ps in
      if ids = [] then ret ps
      else and_then (stmt E (select (grants_of_page (coll E) ids))) (\<lambda>rows.
        ret (map (\<lambda>p. case p_meta p of
               None \<Rightarrow> p
             | Some m \<Rightarrow> p\<lparr>p_grants := map (\<lambda>(_, team, level). \<lparr>dg_team_id = team, dg_level = level\<rparr>)
                   (filter (\<lambda>row. fst row = m_id m) rows)\<rparr>) ps)))"

section \<open>GetProject\<close>

definition get_rows :: "collations \<Rightarrow> string \<Rightarrow> store \<Rightarrow> project_row list" where
  "get_rows C p s =
     sort_key (\<lambda>r. if same_path C (path r) p then 0 else 1 :: nat)
       (filter (\<lambda>r. same_path C (path r) p
           \<or> (case find (\<lambda>a. same_path C (alias_path a) p) (aliases s) of
                None \<Rightarrow> False
              | Some a \<Rightarrow> same_id C (id_of r) (alias_project a))) (projects s))"

definition get_row :: "collations \<Rightarrow> string \<Rightarrow> store \<Rightarrow> selected option" where
  "get_row C p s = (case get_rows C p s of [] \<Rightarrow> None | r # _ \<Rightarrow> Some (COLUMNS r))"

definition get_body :: "env \<Rightarrow> string \<Rightarrow> get_response txm" where
  "get_body E p =
     and_then (stmt E (select (get_row (coll E) p))) (\<lambda>row.
       case row of
         None \<Rightarrow> fail (Status Not_found (In_read (No_project p)))
       | Some row \<Rightarrow>
           and_then (with_aliases E [row_to_project row]) (\<lambda>ps.
           and_then (with_grants E ps) (\<lambda>ps.
             ret \<lparr>gt_project = (case ps of [] \<Rightarrow> None | q # _ \<Rightarrow> Some q)\<rparr>)))"

definition get ::
  "env \<Rightarrow> get_request \<Rightarrow> deadline \<Rightarrow> store \<Rightarrow> (status + get_response) \<times> store" where
  "get E req d s =
     (case validate ''path'' (gt_path req) of
        Inl e \<Rightarrow> (Inl e, s)
      | Inr _ \<Rightarrow> run_conn E d (get_body E (gt_path req)) s)"

section \<open>ListProjects\<close>

text \<open>The checks, in order: the page size, the status, the subtree.\<close>

definition list_checks :: "list_request \<Rightarrow> status + (nat \<times> project_status option)" where
  "list_checks req =
     also_check (status_filter (ls_status req)) (\<lambda>status.
     also_check (if ls_under_path req = [] then Inr ()
                 else validate ''under_path'' (ls_under_path req)) (\<lambda>_.
       Inr (nat (page_size (ls_page_size req)), status)))"

text \<open>The \<open>WHERE\<close> clause as it is put together, and the statement.\<close>

definition listed ::
  "collations \<Rightarrow> list_request \<Rightarrow> project_status option \<Rightarrow> project_row \<Rightarrow> bool" where
  "listed C req status r \<longleftrightarrow>
     (ls_under_path req \<noteq> [] \<longrightarrow>
        same_path C (path r) (ls_under_path req)
        \<or> sql_like (ci_key C) (subtree (ls_under_path req)) (path r))
     \<and> (case status of None \<Rightarrow> True | Some st \<Rightarrow> row_status r = status_i8 st)
     \<and> (ls_page_token req \<noteq> [] \<longrightarrow> ci_key C (ls_page_token req) < ci_key C (path r))"

definition list_rows ::
  "collations \<Rightarrow> list_request \<Rightarrow> nat \<Rightarrow> project_status option \<Rightarrow> store \<Rightarrow> selected list" where
  "list_rows C req limit status s =
     map COLUMNS (take (limit + 1)
       (sort_key (\<lambda>r. ci_key C (path r)) (filter (listed C req status) (projects s))))"

definition list_body ::
  "env \<Rightarrow> list_request \<Rightarrow> nat \<Rightarrow> project_status option \<Rightarrow> list_response txm" where
  "list_body E req limit status =
     and_then (stmt E (select (list_rows (coll E) req limit status))) (\<lambda>rows.
     (let more = length rows > limit in
     and_then (with_aliases E (map row_to_project (take limit rows))) (\<lambda>ps.
     and_then (with_grants E ps) (\<lambda>ps.
       ret \<lparr>ls_projects = ps,
            ls_next_page_token = (if ps \<noteq> [] \<and> more then p_path (last ps) else [])\<rparr>))))"

definition list_projects ::
  "env \<Rightarrow> list_request \<Rightarrow> deadline \<Rightarrow> store \<Rightarrow> (status + list_response) \<times> store" where
  "list_projects E req d s =
     (case list_checks req of
        Inl e \<Rightarrow> (Inl e, s)
      | Inr (limit, status) \<Rightarrow> run_conn E d (list_body E req limit status) s)"

section \<open>A read writes nothing\<close>

definition reads :: "'a txm \<Rightarrow> bool" where
  "reads m \<longleftrightarrow> (\<forall>t. work (snd (m t)) = work t)"

named_theorems read_rules \<open>bodies that leave the tables alone\<close>

lemma reads_ret [read_rules]: "reads (ret x)"
  by (simp add: reads_def ret_def)

lemma reads_fail [read_rules]: "reads (fail e)"
  by (simp add: reads_def fail_def)

lemma reads_and_then [read_rules]: "reads m \<Longrightarrow> (\<And>x. reads (f x)) \<Longrightarrow> reads (and_then m f)"
  by (auto simp: reads_def and_then_def split: prod.splits sum.splits) (metis snd_conv)+

lemma reads_stmt:
  "(\<And>now s x s'. q now s = Inr (x, s') \<Longrightarrow> s' = s) \<Longrightarrow> reads (stmt E q)"
  by (auto simp: reads_def stmt_def attempt_def and_then_def ret_def fail_def
        split: option.splits sum.splits prod.splits)

lemma reads_select [read_rules]: "reads (stmt E (select q))"
  by (rule reads_stmt) (simp add: select_def)

lemma reads_ancestors [read_rules]: "reads (ancestor_rows E chain)"
  unfolding ancestor_rows_def by (rule reads_stmt) (auto simp: select_def split: if_splits)

lemma reads_aliases [read_rules]: "reads (with_aliases E ps)"
  by (auto simp: with_aliases_def Let_def intro!: read_rules)

lemma reads_grants [read_rules]: "reads (with_grants E ps)"
  by (auto simp: with_grants_def Let_def intro!: read_rules)

lemma reads_bodies [read_rules]:
  "reads (resolve_body E p)" "reads (get_body E p)" "reads (list_body E req limit status)"
  by (auto simp: resolve_body_def get_body_def list_body_def Let_def
      intro!: read_rules split: option.splits)

lemma reads_run_conn: "reads m \<Longrightarrow> snd (run_conn E d m s) = s"
  by (simp add: run_conn_def reads_def case_prod_beta split: sum.splits)

text \<open>A read never writes, whatever the engine, the pool or the clock do and however it ends:
  resolving, getting and listing leave every table as it was, so nothing is ever created by
  asking for it.\<close>

lemma reads_never_write:
  "snd (resolve E rreq d s) = s \<and> snd (get E greq d s) = s \<and> snd (list_projects E lreq d s) = s"
  by (auto simp: resolve_def get_def list_projects_def reads_run_conn read_rules
      split: sum.splits prod.splits)

end
