(* ===== verification/Read_Resolve.thy ===== *)
theory Read_Resolve
  imports Read "HOL-Library.Multiset"
begin

text \<open>
  What \<open>ResolveProject\<close> promises: the one-statement walk and the selection by longest match are
  the walk the documentation describes - go up the candidate's chain, deepest first, and stop at
  the first path that names a project, live before former.
\<close>

section \<open>The walk\<close>

text \<open>What a path names: the live project at it, else the project it was a path of.\<close>

definition names :: "collations \<Rightarrow> store \<Rightarrow> string \<Rightarrow> (project_row \<times> bool) option" where
  "names C s a =
     (case find (\<lambda>r. same_path C (path r) a) (projects s) of
        Some r \<Rightarrow> Some (r, False)
      | None \<Rightarrow>
          (case find (\<lambda>al. same_path C (alias_path al) a) (aliases s) of
             None \<Rightarrow> None
           | Some al \<Rightarrow>
               map_option (\<lambda>r. (r, True))
                 (find (\<lambda>r. same_id C (id_of r) (alias_project al)) (projects s))))"

fun walk :: "collations \<Rightarrow> store \<Rightarrow> string list \<Rightarrow> (string \<times> project_row \<times> bool) option" where
  "walk C s [] = None"
| "walk C s (a # as) = (case names C s a of Some (r, former) \<Rightarrow> Some (a, r, former) | None \<Rightarrow> walk C s as)"

definition walk_answer :: "string \<Rightarrow> string \<times> project_row \<times> bool \<Rightarrow> resolve_response" where
  "walk_answer candidate = (\<lambda>(a, r, former).
     \<lparr>rs_resolved_path = path r, rs_exact = (a = candidate),
      rs_via_alias = (a = candidate \<and> former), rs_status = row_status r,
      rs_source_repo = unwrap_or_default (source_repo r)\<rparr>)"

lemma walk_None: "walk C s as = None \<longleftrightarrow> (\<forall>a \<in> set as. names C s a = None)"
  by (induction as) (auto split: option.splits)

lemma walk_append:
  "(\<forall>a \<in> set as. names C s a = None) \<Longrightarrow> walk C s (as @ bs) = walk C s bs"
  by (induction as) auto

section \<open>The chain\<close>

lemma resolve_chain_self:
  "\<not> eq_ignore_ascii_case p RESERVED_ROOT \<Longrightarrow> p \<in> set (resolve_chain p)"
  by (simp add: resolve_chain_def)

lemma resolve_chain_prefix: "a \<in> set (resolve_chain p) \<Longrightarrow> prefix (segments a) (segments p)"
  by (simp add: resolve_chain_def ancestors_iff)

lemma holes_Nil [simp]: "holes n = [] \<longleftrightarrow> n = 0"
  by (cases n rule: holes.cases) auto

text \<open>Deeper elements come first: the lengths strictly decrease along the chain.\<close>

lemma ancestors_loop_shorter: "a \<in> set (ancestors_loop p) \<Longrightarrow> length a < length p"
proof (induction p rule: ancestors_loop.induct)
  case (1 p)
  show ?case
  proof (cases "rfind slash p")
    case None
    with 1 show ?thesis by (simp add: ancestors_loop.simps[of p])
  next
    case (Some i)
    then have "a = take i p \<or> a \<in> set (ancestors_loop (take i p))"
      using "1.prems" by (simp add: ancestors_loop.simps[of p])
    then have "length a \<le> length (take i p)" using "1.IH"[OF Some] by auto
    moreover have "i < length p" using Some by (auto dest: rfind_Some)
    ultimately show ?thesis by simp
  qed
qed

lemma ancestors_loop_sorted: "sorted_wrt (\<lambda>a b. length b < length a) (ancestors_loop p)"
proof (induction p rule: ancestors_loop.induct)
  case (1 p)
  then show ?case
    by (cases "rfind slash p") (auto simp: ancestors_loop.simps[of p] dest: ancestors_loop_shorter)
qed

lemma resolve_chain_sorted: "sorted_wrt (\<lambda>a b. length b < length a) (resolve_chain p)"
  by (simp add: resolve_chain_def ancestors_def ancestors_loop_sorted sorted_wrt_filter
      ancestors_loop_shorter)

section \<open>The union\<close>

lemma find_unique:
  assumes "\<And>y. y \<in> set xs \<Longrightarrow> P y \<Longrightarrow> y = x" and "x \<in> set xs" and "P x"
  shows "find P xs = Some x"
proof (cases "find P xs")
  case None
  with assms(2,3) show ?thesis by (auto simp: find_None_iff)
next
  case (Some y)
  with find_in[OF Some] assms(1)[of y] show ?thesis by simp
qed

lemma list_ex_same: "list_ex (same_path C a) as \<longleftrightarrow> (\<exists>b \<in> set as. same_path C a b)"
  by (simp add: list_ex_iff)

lemma same_path_sym: "same_path C a b \<longleftrightarrow> same_path C b a"
  by (auto simp: same_path_def)

lemma live_names:
  assumes "store_good C s" and "r \<in> set (projects s)" and "same_path C (path r) a"
  shows "names C s a = Some (r, False)"
proof -
  have "find (\<lambda>r. same_path C (path r) a) (projects s) = Some r"
  proof (rule find_unique)
    fix y assume y: "y \<in> set (projects s)" "same_path C (path y) a"
    then have "same_path C (path y) (path r)" using assms(3) by (simp add: same_path_def)
    then show "y = r"
      by (rule projects_good_path_eq[OF store_good_projects[OF assms(1)] y(1) assms(2)])
  qed (use assms in auto)
  then show ?thesis by (simp add: names_def)
qed

lemma alias_names:
  assumes good: "store_good C s" and al: "al \<in> set (aliases s)" "same_path C (alias_path al) a"
    and r: "r \<in> set (projects s)" "same_id C (id_of r) (alias_project al)"
  shows "names C s a = Some (r, True)"
proof -
  have "find (\<lambda>al. same_path C (alias_path al) a) (aliases s) = Some al"
  proof (rule find_unique)
    fix y assume "y \<in> set (aliases s)" "same_path C (alias_path y) a"
    with al good show "y = al"
      using distinct_map_eq[of "\<lambda>a. ci_key C (alias_path a)" "aliases s" y al]
      by (simp add: same_path_def store_good_def)
  qed (use al in auto)
  moreover have "find (\<lambda>r. same_id C (id_of r) (alias_project al)) (projects s) = Some r"
  proof (rule find_unique)
    fix y assume y: "y \<in> set (projects s)" "same_id C (id_of y) (alias_project al)"
    then have "same_id C (id_of y) (id_of r)" using r(2) by (simp add: same_id_def)
    then show "y = r"
      by (rule projects_good_id_eq[OF store_good_projects[OF good] y(1) r(1)])
  qed (use r in auto)
  moreover have "\<not> same_path C (path x) a" if "x \<in> set (projects s)" for x
  proof -
    have "\<not> same_path C (alias_path al) (path x)"
      using good al(1) that by (simp add: store_good_def one_namespace_def)
    with al(2) show ?thesis by (metis same_path_def)
  qed
  then have "find (\<lambda>r. same_path C (path r) a) (projects s) = None"
    by (simp add: find_None_iff)
  ultimately show ?thesis by (simp add: names_def)
qed

text \<open>A row of the union is what an element of the chain names, and the other way round.\<close>

definition match_of :: "collations \<Rightarrow> store \<Rightarrow> string list \<Rightarrow> found \<Rightarrow> string \<Rightarrow> project_row \<Rightarrow> bool \<Rightarrow> bool" where
  "match_of C s chain f a r former \<longleftrightarrow>
     a \<in> set chain \<and> names C s a = Some (r, former) \<and> same_path C (fd_matched f) a
     \<and> fd_resolved f = path r \<and> fd_status f = row_status r
     \<and> fd_via_alias f = (if former then 1 else 0) \<and> fd_source_repo f = source_repo r
     \<and> (fd_matched f = path r \<or> (\<exists>al \<in> set (aliases s). fd_matched f = alias_path al))"

lemma union_match:
  assumes "store_good C s" and "f \<in> set (ancestor_union C chain s)"
  shows "\<exists>a r former. r \<in> set (projects s) \<and> match_of C s chain f a r former"
  using assms(2) unfolding ancestor_union_def set_append
proof
  assume "f \<in> set (map live_match (filter (\<lambda>p. list_ex (same_path C (path p)) chain) (projects s)))"
  then obtain r a where f: "f = live_match r" and r: "r \<in> set (projects s)"
    and a: "a \<in> set chain" "same_path C (path r) a" by (auto simp: list_ex_iff)
  then have "match_of C s chain f a r False"
    using live_names[OF assms(1) r a(2)] by (simp add: match_of_def live_match_def)
  with r show ?thesis by blast
next
  assume "f \<in> set (concat (map (\<lambda>a. map (alias_match a)
           (filter (\<lambda>p. same_id C (id_of p) (alias_project a)) (projects s)))
         (filter (\<lambda>a. list_ex (same_path C (alias_path a)) chain) (aliases s))))"
  then obtain al r a where f: "f = alias_match al r" and al: "al \<in> set (aliases s)"
    and r: "r \<in> set (projects s)" "same_id C (id_of r) (alias_project al)"
    and a: "a \<in> set chain" "same_path C (alias_path al) a" by (auto simp: list_ex_iff)
  then have "match_of C s chain f a r True"
    using alias_names[OF assms(1) al a(2) r] by (auto simp: match_of_def alias_match_def)
  with r show ?thesis by blast
qed

lemma names_in_union:
  assumes "a \<in> set chain" and "names C s a = Some (r, former)"
  shows "\<exists>f \<in> set (ancestor_union C chain s). same_path C (fd_matched f) a
     \<and> fd_via_alias f = (if former then 1 else 0)
     \<and> (fd_matched f = path r \<or> (\<exists>al \<in> set (aliases s). fd_matched f = alias_path al))
     \<and> r \<in> set (projects s)"
proof (cases "find (\<lambda>r. same_path C (path r) a) (projects s)")
  case (Some r')
  with assms(2) have r: "r' = r" "\<not> former" by (auto simp: names_def)
  have in_s: "r \<in> set (projects s)" "same_path C (path r) a"
    using find_in[OF Some] r by auto
  then have "live_match r \<in> set (ancestor_union C chain s)"
    using assms(1) by (auto simp: ancestor_union_def list_ex_iff)
  with in_s r show ?thesis by (intro bexI[of _ "live_match r"]) (auto simp: live_match_def)
next
  case None
  with assms(2) obtain al where al: "find (\<lambda>al. same_path C (alias_path al) a) (aliases s) = Some al"
    and r: "find (\<lambda>r. same_id C (id_of r) (alias_project al)) (projects s) = Some r" and former
    by (auto simp: names_def split: option.splits)
  have "alias_match al r \<in> set (ancestor_union C chain s)"
    using find_in[OF al] find_in[OF r] assms(1) by (fastforce simp: ancestor_union_def list_ex_iff)
  with find_in[OF al] find_in[OF r] \<open>former\<close> show ?thesis
    by (intro bexI[of _ "alias_match al r"]) (auto simp: alias_match_def)
qed

section \<open>The longest match is the first one the walk meets\<close>

lemma match_length:
  assumes good: "store_good C s" and ck: "path_collation (ci_key C)" and p: "path_ok p"
    and a: "a \<in> set (resolve_chain p)" and same: "same_path C x a"
    and x: "x = path r \<and> r \<in> set (projects s) \<or> (\<exists>al \<in> set (aliases s). x = alias_path al)"
  shows "eq_ignore_ascii_case x a" and "length x = length a"
proof -
  have "path_ok x"
    using x good projects_good_row[OF store_good_projects[OF good]]
    by (auto simp: store_good_def row_good_def)
  moreover have "path_ok a"
    using a p ancestors_path_ok by (simp add: resolve_chain_def)
  ultimately show "eq_ignore_ascii_case x a"
    using path_collation.ck_path[OF ck] same by (simp add: same_path_def)
  then show "length x = length a" by (rule eq_ignore_length)
qed

lemma best_walk:
  assumes good: "store_good C s" and ck: "path_collation (ci_key C)" and p: "path_ok p"
    and rows: "set rows = set (ancestor_union C (resolve_chain p) s)"
  shows "map_option (resolved p) (best_match rows) = map_option (walk_answer p) (walk C s (resolve_chain p))"
proof (cases "best_match rows")
  case None
  then have "set (ancestor_union C (resolve_chain p) s) = {}"
    using rows by (simp add: best_match_def)
  then have "names C s a = None" if "a \<in> set (resolve_chain p)" for a
    using names_in_union[OF that, of C s] by (cases "names C s a") auto
  then have "walk C s (resolve_chain p) = None" by (simp add: walk_None)
  with None show ?thesis by simp
next
  case (Some f)
  then have "f \<in> set (ancestor_union C (resolve_chain p) s)"
    using max_by_key_in rows by (fastforce simp: best_match_def)
  then obtain a r former where r: "r \<in> set (projects s)"
    and f: "match_of C s (resolve_chain p) f a r former"
    using union_match[OF good] by blast
  then have a: "a \<in> set (resolve_chain p)" by (simp add: match_of_def)
  have len: "eq_ignore_ascii_case (fd_matched f) a" "length (fd_matched f) = length a"
    using match_length[OF good ck p a, of "fd_matched f" r] f r by (auto simp: match_of_def)
  from a obtain pre post where chain: "resolve_chain p = pre @ a # post"
    by (auto simp: in_set_conv_decomp)
  have "names C s b = None" if b: "b \<in> set pre" for b
  proof (rule ccontr)
    assume "names C s b \<noteq> None"
    then obtain r' former' where "names C s b = Some (r', former')" by auto
    moreover have b_in: "b \<in> set (resolve_chain p)" using b chain by simp
    ultimately obtain f' where f': "f' \<in> set rows" "same_path C (fd_matched f') b"
      "fd_matched f' = path r' \<and> r' \<in> set (projects s) \<or> (\<exists>al \<in> set (aliases s). fd_matched f' = alias_path al)"
      using names_in_union rows by metis
    have "length (fd_matched f') = length b"
      by (rule match_length(2)[OF good ck p b_in f'(2,3)])
    moreover have "length a < length b"
      using resolve_chain_sorted[of p] b by (simp add: chain sorted_wrt_append)
    moreover have "length (fd_matched f') \<le> length (fd_matched f)"
      using max_by_key_ge[OF Some[unfolded best_match_def] f'(1)] by (auto simp: less_eq_prod_def)
    ultimately show False using len by simp
  qed
  then have "walk C s (resolve_chain p) = Some (a, r, former)"
    using f by (simp add: chain walk_append match_of_def)
  moreover have "eq_ignore_ascii_case (fd_matched f) p \<longleftrightarrow> a = p"
    using len resolve_chain_prefix[OF a] prefix_length(2) by (metis eq_ignore_length)
  ultimately show ?thesis
    using Some f by (simp add: resolved_def walk_answer_def match_of_def Let_def)
qed

section \<open>The rpc\<close>

lemma resolve_checks_Inr:
  "resolve_checks req = Inr u \<longleftrightarrow>
     path_ok (rs_candidate_path req) \<and> \<not> eq_ignore_ascii_case (rs_candidate_path req) RESERVED_ROOT"
  by (auto simp: resolve_checks_def also_check_eq_Inr validate_ok_iff refuse_reserved_root_def)

lemma resolve_run:
  assumes "no_faults E" and "acquire (the_pool E) d = Inr ()" and "resolve_checks req = Inr ()"
  shows "resolve E req d s =
     (case best_match (ancestor_union (coll E) (resolve_chain (rs_candidate_path req)) s) of
        None \<Rightarrow> Inl (Status Not_found (In_read (No_ancestor (rs_candidate_path req))))
      | Some f \<Rightarrow> Inr (resolved (rs_candidate_path req) f), s)"
proof -
  have "resolve_chain (rs_candidate_path req) \<noteq> []"
    using resolve_chain_self[of "rs_candidate_path req"] assms(3) by (auto simp: resolve_checks_Inr)
  then show ?thesis
    using assms by (simp add: resolve_def run_conn_def resolve_body_def ancestor_rows_def tx_simps
        split: option.splits)
qed

lemma resolve_walk:
  assumes "no_faults E" and "acquire (the_pool E) d = Inr ()" and "resolve_checks req = Inr ()"
    and "path_collation (ci_key (coll E))" and "store_good (coll E) s"
  shows "resolve E req d s =
     (case walk (coll E) s (resolve_chain (rs_candidate_path req)) of
        None \<Rightarrow> Inl (Status Not_found (In_read (No_ancestor (rs_candidate_path req))))
      | Some w \<Rightarrow> Inr (walk_answer (rs_candidate_path req) w), s)"
proof -
  have "path_ok (rs_candidate_path req)" using assms(3) by (simp add: resolve_checks_Inr)
  from best_walk[OF assms(5,4) this refl] show ?thesis
    unfolding resolve_run[OF assms(1-3)]
    by (cases "walk (coll E) s (resolve_chain (rs_candidate_path req))";
        cases "best_match (ancestor_union (coll E) (resolve_chain (rs_candidate_path req)) s)") auto
qed

text \<open>C8. \<open>ResolveProject\<close> is the walk its documentation describes. Given an admissible candidate,
  it goes up the candidate's chain of ancestors, deepest first, and answers the first path that
  names a project, live or former: that project's own path, status and repository, \<open>exact\<close>
  exactly when the candidate itself was the match, \<open>via_alias\<close> only for the candidate; and
  \<open>NOT_FOUND\<close> when nothing on the chain is registered. The store is as it was.\<close>

theorem resolve_is_the_walk:
  assumes "no_faults E" and "acquire (the_pool E) d = Inr ()" and "resolve_checks req = Inr ()"
    and "path_collation (ci_key (coll E))" and "store_good (coll E) s"
  shows "resolve E req d s =
     (case walk (coll E) s (resolve_chain (rs_candidate_path req)) of
        None \<Rightarrow> Inl (Status Not_found (In_read (No_ancestor (rs_candidate_path req))))
      | Some w \<Rightarrow> Inr (walk_answer (rs_candidate_path req) w), s)"
  by (rule resolve_walk[OF assms])

text \<open>The answer does not depend on the order the engine returns the two arms' rows in: any list
  with the same rows selects the same answer, so no tie is broken by a scan order.\<close>

theorem resolve_order_free:
  assumes "path_collation (ci_key C)" and "store_good C s" and "path_ok p"
    and "mset rows = mset (ancestor_union C (resolve_chain p) s)"
  shows "map_option (resolved p) (best_match rows)
    = map_option (resolved p) (best_match (ancestor_union C (resolve_chain p) s))"
  using best_walk[OF assms(2,1,3) refl] best_walk[OF assms(2,1,3) mset_eq_setD[OF assms(4)]] by simp

text \<open>The reserved root is nobody's ancestor, even when a row squats on it in some spelling: no
  candidate resolves to it, unless a former path leads there.\<close>

theorem resolve_never_reserved:
  assumes "resolve E req d s = (Inr resp, s')"
    and "path_collation (ci_key (coll E))"
    and "\<forall>r \<in> set (projects s). path_ok (path r)"
    and "\<forall>al \<in> set (aliases s). \<forall>r \<in> set (projects s).
       same_id (coll E) (id_of r) (alias_project al) \<longrightarrow> \<not> eq_ignore_ascii_case (path r) RESERVED_ROOT"
  shows "\<not> eq_ignore_ascii_case (rs_resolved_path resp) RESERVED_ROOT"
proof -
  let ?p = "rs_candidate_path req" and ?C = "coll E"
  from assms(1) have checks: "resolve_checks req = Inr ()"
    and "run_conn E d (resolve_body E ?p) s = (Inr resp, s')"
    by (auto simp: resolve_def split: sum.splits)
  then obtain t where "resolve_body E ?p \<lparr>work = s, stmts = 0\<rparr> = (Inr resp, t)"
    by (auto simp: run_conn_def split: sum.splits prod.splits)
  then obtain fs t' where fs: "ancestor_rows E (resolve_chain ?p) \<lparr>work = s, stmts = 0\<rparr> = (Inr fs, t')"
    and best: "(case best_match fs of
         None \<Rightarrow> fail (Status Not_found (In_read (No_ancestor ?p)))
       | Some best \<Rightarrow> ret (resolved ?p best)) t' = (Inr resp, t)"
    unfolding resolve_body_def by (blast dest: and_then_InrD)
  from fs have fs_eq: "fs = ancestor_union ?C (resolve_chain ?p) s"
    by (auto simp: ancestor_rows_def select_def dest!: stmt_InrD split: if_splits)
  from best obtain f where f: "best_match fs = Some f" and resp: "resp = resolved ?p f"
    by (auto simp: tx_simps split: option.splits)
  then have "f \<in> set (ancestor_union ?C (resolve_chain ?p) s)"
    using max_by_key_in fs_eq by (fastforce simp: best_match_def)
  then consider r a where "f = live_match r" "r \<in> set (projects s)" "a \<in> set (resolve_chain ?p)"
      "same_path ?C (path r) a"
    | al r where "f = alias_match al r" "al \<in> set (aliases s)" "r \<in> set (projects s)"
      "same_id ?C (id_of r) (alias_project al)"
    by (auto simp: ancestor_union_def list_ex_iff)
  then show ?thesis
  proof cases
    case 1
    have "path_ok a"
      using 1(3) checks ancestors_path_ok by (auto simp: resolve_chain_def resolve_checks_Inr)
    then have "eq_ignore_ascii_case (path r) a"
      using path_collation.ck_path[OF assms(2)] 1 assms(3) by (simp add: same_path_def)
    moreover have "\<not> eq_ignore_ascii_case a RESERVED_ROOT" using 1(3) by (simp add: resolve_chain_def)
    ultimately show ?thesis
      using 1(1) resp by (simp add: resolved_def Let_def live_match_def eq_ignore_ascii_case_def)
  next
    case 2
    then show ?thesis using assms(4) resp by (simp add: resolved_def Let_def alias_match_def)
  qed
qed

end
