(* ===== verification/Read_Page.thy ===== *)
theory Read_Page
  imports Read_Resolve
begin

text \<open>
  What \<open>GetProject\<close> and \<open>ListProjects\<close> promise: a project is answered with its own former paths and
  its own grants, whole; a page is the next run of the matching projects in path order; and
  walking the tokens visits every matching project exactly once.
\<close>

section \<open>A project as it is answered\<close>

definition own_aliases :: "collations \<Rightarrow> store \<Rightarrow> project_row \<Rightarrow> string list" where
  "own_aliases C s r =
     map alias_path (sort_key (\<lambda>a. ci_key C (alias_path a))
       (filter (\<lambda>a. alias_project a = id_of r) (aliases s)))"

definition own_grants :: "collations \<Rightarrow> store \<Rightarrow> project_row \<Rightarrow> declared_grant list" where
  "own_grants C s r =
     (if owner_user_id r = None
      then map (\<lambda>g. \<lparr>dg_team_id = g_team_id g, dg_level = g_level g\<rparr>)
             (sort_key (\<lambda>g. srv_key C (g_team_id g)) (filter (\<lambda>g. g_project_id g = id_of r) (grants s)))
      else [])"

definition project_view :: "collations \<Rightarrow> store \<Rightarrow> project_row \<Rightarrow> project" where
  "project_view C s r =
     (row_to_project (COLUMNS r))\<lparr>p_aliases := own_aliases C s r, p_grants := own_grants C s r\<rparr>"

lemma project_view_path [simp]: "p_path (project_view C s r) = path r"
  by (simp add: project_view_def)

section \<open>Filling a page\<close>

lemma page_ids_rows [simp]: "page_ids (map (\<lambda>r. row_to_project (COLUMNS r)) rs) = map id_of rs"
  by (induction rs) (simp_all add: page_ids_def map_filter_simps)

lemma page_ids_aliases [simp]:
  "page_ids (map (\<lambda>r. (row_to_project (COLUMNS r))\<lparr>p_aliases := f r\<rparr>) rs) = map id_of rs"
  by (induction rs) (simp_all add: page_ids_def map_filter_simps row_to_project_def COLUMNS_def)

lemma filter_pairs:
  "map snd (filter (\<lambda>pr. fst pr = x) (map (\<lambda>a. (f a, g a)) xs)) = map g (filter (\<lambda>a. f a = x) xs)"
  by (induction xs) auto

lemma aliases_of_own:
  assumes "id_of r \<in> set ids"
  shows "map snd (filter (\<lambda>pr. fst pr = id_of r) (aliases_of C ids s)) = own_aliases C s r"
proof -
  have "filter (\<lambda>a. alias_project a = id_of r) (filter (\<lambda>a. list_ex (same_id C (alias_project a)) ids) (aliases s))
      = filter (\<lambda>a. alias_project a = id_of r) (aliases s)"
    unfolding filter_filter using assms by (intro filter_cong) (auto simp: list_ex_iff same_id_def)
  then show ?thesis by (simp add: aliases_of_def own_aliases_def filter_pairs filter_sort)
qed

lemma join_unique:
  "(\<And>g. g \<in> set gs \<Longrightarrow> P g \<Longrightarrow> filter (Q g) ps = [q]) \<Longrightarrow>
   filter P (concat (map (\<lambda>g. map (\<lambda>_. g) (filter (Q g) ps)) gs)) = filter P gs"
proof (induction gs)
  case (Cons g gs)
  have "filter P (map (\<lambda>_. g) (filter (Q g) ps)) = (if P g then [g] else [])"
    using Cons.prems[of g] by (auto simp: filter_empty_conv)
  with Cons show ?case by simp
qed simp

lemma join_empty:
  "(\<And>g. g \<in> set gs \<Longrightarrow> P g \<Longrightarrow> filter (Q g) ps = []) \<Longrightarrow>
   filter P (concat (map (\<lambda>g. map (\<lambda>_. g) (filter (Q g) ps)) gs)) = []"
proof (induction gs)
  case (Cons g gs)
  have "filter P (map (\<lambda>_. g) (filter (Q g) ps)) = []"
    using Cons.prems[of g] by (auto simp: filter_empty_conv)
  with Cons show ?case by simp
qed simp

lemma filter_single:
  "distinct xs \<Longrightarrow> x \<in> set xs \<Longrightarrow> (\<And>y. y \<in> set xs \<Longrightarrow> P y \<longleftrightarrow> y = x) \<Longrightarrow> filter P xs = [x]"
proof (induction xs)
  case (Cons a xs)
  show ?case
  proof (cases "a = x")
    case True
    with Cons.prems have "\<forall>y \<in> set xs. \<not> P y" by auto
    then have "filter P xs = []" by (simp add: filter_empty_conv)
    with True Cons.prems show ?thesis by simp
  next
    case False
    with Cons show ?thesis by simp
  qed
qed simp

lemma grants_of_own:
  assumes good: "store_good C s" and r: "r \<in> set (projects s)" and ids: "id_of r \<in> set ids"
  shows "map (\<lambda>(_, team, level). \<lparr>dg_team_id = team, dg_level = level\<rparr>)
       (filter (\<lambda>row. fst row = id_of r) (grants_of_page C ids s)) = own_grants C s r"
proof -
  let ?Q = "\<lambda>g p. same_id C (id_of p) (g_project_id g) \<and> owner_user_id p = None"
  let ?gs = "filter (\<lambda>g. list_ex (same_id C (g_project_id g)) ids) (grants s)"
  let ?J = "concat (map (\<lambda>g. map (\<lambda>_. g) (filter (?Q g) (projects s))) ?gs)"
  have shape: "map (\<lambda>(_, team, level). \<lparr>dg_team_id = team, dg_level = level\<rparr>)
       (filter (\<lambda>row. fst row = id_of r) (map (\<lambda>g. (g_project_id g, g_team_id g, g_level g)) gs))
     = map (\<lambda>g. \<lparr>dg_team_id = g_team_id g, dg_level = g_level g\<rparr>) (filter (\<lambda>g. g_project_id g = id_of r) gs)"
    for gs by (induction gs) auto
  have only: "p \<in> set (projects s) \<Longrightarrow> same_id C (id_of p) (id_of r) \<longleftrightarrow> p = r" for p
    using projects_good_id_eq[OF store_good_projects[OF good] _ r] by (auto simp: same_id_def)
  have d: "distinct (projects s)"
    using good by (auto simp: store_good_def projects_good_def distinct_map)
  have J: "filter (\<lambda>g. g_project_id g = id_of r) ?J =
      (if owner_user_id r = None then filter (\<lambda>g. g_project_id g = id_of r) ?gs else [])"
  proof (cases "owner_user_id r = None")
    case True
    have "filter (\<lambda>g. g_project_id g = id_of r) ?J = filter (\<lambda>g. g_project_id g = id_of r) ?gs"
      by (rule join_unique[where q = r]) (use only True d r in \<open>auto intro!: filter_single\<close>)
    with True show ?thesis by simp
  next
    case False
    have "filter (\<lambda>g. g_project_id g = id_of r) ?J = []"
      by (rule join_empty) (use only False in \<open>auto simp: filter_empty_conv\<close>)
    with False show ?thesis by (simp del: not_None_eq)
  qed
  have "filter (\<lambda>g. g_project_id g = id_of r) ?gs = filter (\<lambda>g. g_project_id g = id_of r) (grants s)"
    unfolding filter_filter using ids by (intro filter_cong) (auto simp: list_ex_iff same_id_def)
  with J show ?thesis by (simp add: grants_of_page_def shape filter_sort own_grants_def)
qed

lemma page_filled:
  assumes nf: "no_faults E" and good: "store_good (coll E) (work t)" and rs: "set rs \<subseteq> set (projects (work t))"
  shows "\<exists>t'. and_then (with_aliases E (map (\<lambda>r. row_to_project (COLUMNS r)) rs)) (\<lambda>ps.
      and_then (with_grants E ps) f) t = f (map (project_view (coll E) (work t)) rs) t'
    \<and> work t' = work t"
proof (cases "rs = []")
  case True
  then have "and_then (with_aliases E (map (\<lambda>r. row_to_project (COLUMNS r)) rs)) (\<lambda>ps.
      and_then (with_grants E ps) f) t = f (map (project_view (coll E) (work t)) rs) t"
    by (simp add: with_aliases_def with_grants_def page_ids_def tx_simps map_filter_simps)
  then show ?thesis by blast
next
  case False
  let ?C = "coll E" and ?s = "work t"
  let ?pa = "map (\<lambda>r. (row_to_project (COLUMNS r))\<lparr>p_aliases := own_aliases ?C ?s r\<rparr>) rs"
  have meta: "\<exists>m. p_meta (row_to_project (COLUMNS r)) = Some m \<and> m_id m = id_of r" for r
    by (simp add: row_to_project_def COLUMNS_def)
  have "map (\<lambda>p. case p_meta p of None \<Rightarrow> p
         | Some m \<Rightarrow> p\<lparr>p_aliases := map snd (filter (\<lambda>pr. fst pr = m_id m) (aliases_of ?C (map id_of rs) ?s))\<rparr>)
       (map (\<lambda>r. row_to_project (COLUMNS r)) rs) = ?pa"
    unfolding map_map comp_def
  proof (rule map_cong[OF refl])
    fix r assume "r \<in> set rs"
    then have "id_of r \<in> set (map id_of rs)" by simp
    with meta[of r] aliases_of_own[OF this, of ?C ?s]
    show "(case p_meta (row_to_project (COLUMNS r)) of None \<Rightarrow> row_to_project (COLUMNS r)
         | Some m \<Rightarrow> (row_to_project (COLUMNS r))\<lparr>p_aliases :=
             map snd (filter (\<lambda>pr. fst pr = m_id m) (aliases_of ?C (map id_of rs) ?s))\<rparr>)
       = (row_to_project (COLUMNS r))\<lparr>p_aliases := own_aliases ?C ?s r\<rparr>"
      by auto
  qed
  with False have a: "with_aliases E (map (\<lambda>r. row_to_project (COLUMNS r)) rs) t
      = (Inr ?pa, t\<lparr>stmts := Suc (stmts t)\<rparr>)"
    by (simp add: with_aliases_def Let_def tx_simps nf)
  let ?t = "t\<lparr>stmts := Suc (stmts t)\<rparr>"
  have "map (\<lambda>p. case p_meta p of None \<Rightarrow> p
         | Some m \<Rightarrow> p\<lparr>p_grants := map (\<lambda>(_, team, level). \<lparr>dg_team_id = team, dg_level = level\<rparr>)
               (filter (\<lambda>row. fst row = m_id m) (grants_of_page ?C (map id_of rs) ?s))\<rparr>) ?pa
      = map (project_view ?C ?s) rs"
    unfolding map_map comp_def
  proof (rule map_cong[OF refl])
    fix r assume r: "r \<in> set rs"
    have "map (\<lambda>(_, team, level). \<lparr>dg_team_id = team, dg_level = level\<rparr>)
       (filter (\<lambda>row. fst row = id_of r) (grants_of_page ?C (map id_of rs) ?s)) = own_grants ?C ?s r"
      using grants_of_own[OF good] r rs by auto
    then show "(case p_meta ((row_to_project (COLUMNS r))\<lparr>p_aliases := own_aliases ?C ?s r\<rparr>) of
           None \<Rightarrow> (row_to_project (COLUMNS r))\<lparr>p_aliases := own_aliases ?C ?s r\<rparr>
         | Some m \<Rightarrow> (row_to_project (COLUMNS r))\<lparr>p_aliases := own_aliases ?C ?s r,
             p_grants := map (\<lambda>(_, team, level). \<lparr>dg_team_id = team, dg_level = level\<rparr>)
               (filter (\<lambda>row. fst row = m_id m) (grants_of_page ?C (map id_of rs) ?s))\<rparr>)
      = project_view ?C ?s r"
      using meta[of r] by (auto simp: project_view_def)
  qed
  with False have "with_grants E ?pa ?t = (Inr (map (project_view ?C ?s) rs), ?t\<lparr>stmts := Suc (stmts ?t)\<rparr>)"
    by (simp add: with_grants_def Let_def tx_simps nf)
  with a have "and_then (with_aliases E (map (\<lambda>r. row_to_project (COLUMNS r)) rs)) (\<lambda>ps.
      and_then (with_grants E ps) f) t = f (map (project_view ?C ?s) rs) (?t\<lparr>stmts := Suc (stmts ?t)\<rparr>)"
    by (simp add: tx_simps)
  then show ?thesis by (intro exI[of _ "?t\<lparr>stmts := Suc (stmts ?t)\<rparr>"]) simp
qed

section \<open>One project\<close>

lemma names_Some_in: "names C s a = Some (r, former) \<Longrightarrow> r \<in> set (projects s)"
  by (auto simp: names_def dest!: find_in split: option.splits)

lemma get_row_names:
  assumes good: "store_good C s"
  shows "get_row C p s = map_option (COLUMNS \<circ> fst) (names C s p)"
proof -
  let ?hit = "\<lambda>r. same_path C (path r) p
       \<or> (case find (\<lambda>a. same_path C (alias_path a) p) (aliases s) of
            None \<Rightarrow> False | Some a \<Rightarrow> same_id C (id_of r) (alias_project a))"
  have rows: "set (get_rows C p s) = {r \<in> set (projects s). ?hit r}"
    unfolding get_rows_def set_sort set_filter by (rule refl)
  have get: "get_rows C p s = [] \<longleftrightarrow> (\<forall>r \<in> set (projects s). \<not> ?hit r)"
    unfolding set_empty[symmetric] rows by blast
  have hd_in: "\<exists>r rs. get_rows C p s = r # rs \<and> r \<in> set (projects s) \<and> ?hit r
      \<and> (\<forall>r' \<in> set (projects s). same_path C (path r') p \<longrightarrow> same_path C (path r) p)"
    if ne: "get_rows C p s \<noteq> []"
  proof -
    let ?k = "\<lambda>r. if same_path C (path r) p then 0 else 1 :: nat"
    from ne obtain r rs where eq: "get_rows C p s = r # rs" by (cases "get_rows C p s") auto
    then have set: "set (r # rs) = {r \<in> set (projects s). ?hit r}"
      using rows by (simp only:)
    have "sorted (map ?k (get_rows C p s))" unfolding get_rows_def by (rule sorted_sort_key)
    then have "sorted (map ?k (r # rs))" by (simp only: eq)
    then have "\<forall>r' \<in> set (r # rs). ?k r \<le> ?k r'" by auto
    then have "\<forall>r' \<in> {r \<in> set (projects s). ?hit r}. ?k r \<le> ?k r'" unfolding set .
    moreover have "r \<in> {r \<in> set (projects s). ?hit r}" unfolding set[symmetric] by simp
    ultimately show ?thesis using eq by (fastforce split: if_splits)
  qed
  show ?thesis
  proof (cases "find (\<lambda>r. same_path C (path r) p) (projects s)")
    case (Some r)
    note r = find_in[OF Some]
    then have "get_rows C p s \<noteq> []" by (auto simp: get)
    with hd_in r obtain r' rs where r': "get_rows C p s = r' # rs" "r' \<in> set (projects s)" "same_path C (path r') p"
      by blast
    have "same_path C (path r') (path r)" using r(1) r r'(3) by (simp add: same_path_def)
    then have "r' = r" using projects_good_path_eq[OF store_good_projects[OF good] r'(2)] r by blast
    with r' Some show ?thesis by (simp add: get_row_def names_def)
  next
    case None
    then have none: "\<forall>r \<in> set (projects s). \<not> same_path C (path r) p" by (auto simp: find_None_iff)
    show ?thesis
    proof (cases "names C s p")
      case nm: None
      have "\<not> ?hit r" if "r \<in> set (projects s)" for r
        using nm None none that
        by (auto simp: names_def find_None_iff split: option.splits dest!: find_in)
      then have "get_rows C p s = []" by (simp add: get)
      with nm show ?thesis by (simp add: get_row_def)
    next
      case (Some rf)
      then obtain r al where rf: "rf = (r, True)"
        and al: "find (\<lambda>a. same_path C (alias_path a) p) (aliases s) = Some al"
        and r: "find (\<lambda>r. same_id C (id_of r) (alias_project al)) (projects s) = Some r"
        using None by (auto simp: names_def split: option.splits)
      then have "?hit r" "r \<in> set (projects s)" using find_in[OF r] by auto
      then have "get_rows C p s \<noteq> []" unfolding get by blast
      with hd_in obtain r' rs where r': "get_rows C p s = r' # rs" "r' \<in> set (projects s)" "?hit r'"
        by blast
      then have "same_id C (id_of r') (id_of r)"
        using none al find_in[OF r] by (auto simp: same_id_def)
      moreover have "r \<in> set (projects s)" using find_in[OF r] by blast
      ultimately have "r' = r"
        using projects_good_id_eq[OF store_good_projects[OF good] r'(2)] by blast
      with r' Some rf show ?thesis by (simp add: get_row_def)
    qed
  qed
qed

lemma get_run:
  assumes nf: "no_faults E" and acq: "acquire (the_pool E) d = Inr ()" and ok: "path_ok (gt_path req)"
    and good: "store_good (coll E) s"
  shows "get E req d s =
     (case names (coll E) s (gt_path req) of
        None \<Rightarrow> Inl (Status Not_found (In_read (No_project (gt_path req))))
      | Some (r, former) \<Rightarrow> Inr \<lparr>gt_project = Some (project_view (coll E) s r)\<rparr>, s)"
proof -
  let ?t = "\<lparr>work = s, stmts = Suc 0\<rparr>"
  have go: "get E req d s = (case get_body E (gt_path req) \<lparr>work = s, stmts = 0\<rparr> of (r, t) \<Rightarrow> (r, work t))"
    using acq ok by (simp add: get_def run_conn_def flip: validate_ok_iff[of "''path''" _ "()"])
  show ?thesis
  proof (cases "names (coll E) s (gt_path req)")
    case None
    then show ?thesis using go
      by (simp add: get_body_def tx_simps nf get_row_names[OF good])
  next
    case (Some rf)
    then obtain r former where rf: "rf = (r, former)" by (cases rf)
    have r: "set [r] \<subseteq> set (projects (work ?t))" using names_Some_in Some rf by fastforce
    have g: "store_good (coll E) (work ?t)" using good by simp
    obtain t' where t': "and_then (with_aliases E (map (\<lambda>r. row_to_project (COLUMNS r)) [r])) (\<lambda>ps.
        and_then (with_grants E ps) (\<lambda>ps.
             ret \<lparr>gt_project = (case ps of [] \<Rightarrow> None | q # _ \<Rightarrow> Some q)\<rparr>)) ?t
      = ret \<lparr>gt_project = (case map (project_view (coll E) (work ?t)) [r] of [] \<Rightarrow> None | q # _ \<Rightarrow> Some q)\<rparr> t'"
      and w': "work t' = work ?t"
      using page_filled[OF nf g r, of "\<lambda>ps. ret \<lparr>gt_project = (case ps of [] \<Rightarrow> None | q # _ \<Rightarrow> Some q)\<rparr>"]
      by blast
    from w' have w: "work t' = s" by simp
    from t' have "get_body E (gt_path req) \<lparr>work = s, stmts = 0\<rparr>
        = (Inr \<lparr>gt_project = Some (project_view (coll E) s r)\<rparr>, t')"
      using Some rf by (simp add: get_body_def and_then_run[of "stmt E _"] stmt_run nf select_run
          get_row_names[OF good] ret_run)
    with go w Some rf show ?thesis by simp
  qed
qed

text \<open>C30. \<open>GetProject\<close> answers the project its path names, live or former, and never an ancestor:
  the whole row with every former path and every grant of its own, each in order; \<open>NOT_FOUND\<close>
  otherwise. Nothing is written.\<close>

theorem get_is_the_named_project:
  assumes "no_faults E" and "acquire (the_pool E) d = Inr ()" and "path_ok (gt_path req)"
    and "store_good (coll E) s"
  shows "get E req d s =
     (case names (coll E) s (gt_path req) of
        None \<Rightarrow> Inl (Status Not_found (In_read (No_project (gt_path req))))
      | Some (r, former) \<Rightarrow> Inr \<lparr>gt_project = Some (project_view (coll E) s r)\<rparr>, s)"
  by (rule get_run[OF assms])

section \<open>One page\<close>

definition selection ::
  "collations \<Rightarrow> list_request \<Rightarrow> project_status option \<Rightarrow> store \<Rightarrow> project_row list" where
  "selection C req status s =
     sort_key (\<lambda>r. ci_key C (path r)) (filter (listed C req status) (projects s))"

definition page_of ::
  "collations \<Rightarrow> list_request \<Rightarrow> nat \<Rightarrow> project_status option \<Rightarrow> store \<Rightarrow> list_response" where
  "page_of C req limit status s =
     (let rows = selection C req status s in
      \<lparr>ls_projects = map (project_view C s) (take limit rows),
       ls_next_page_token = (if length rows > limit \<and> limit > 0 then path (rows ! (limit - 1)) else [])\<rparr>)"

lemma selection_set: "set (selection C req status s) \<subseteq> set (projects s)"
  by (auto simp: selection_def)

lemma last_take: "0 < n \<Longrightarrow> n < length xs \<Longrightarrow> last (take n xs) = xs ! (n - 1)"
  by (subst last_conv_nth) auto

lemma list_run:
  assumes nf: "no_faults E" and acq: "acquire (the_pool E) d = Inr ()"
    and checks: "list_checks req = Inr (limit, status)" and good: "store_good (coll E) s"
  shows "list_projects E req d s = (Inr (page_of (coll E) req limit status s), s)"
proof -
  let ?t = "\<lparr>work = s, stmts = Suc 0\<rparr>" and ?sel = "selection (coll E) req status s"
  let ?rs = "take limit ?sel"
  let ?f = "\<lambda>ps. ret \<lparr>ls_projects = ps,
      ls_next_page_token = (if ps \<noteq> [] \<and> length (take (limit + 1) ?sel) > limit then p_path (last ps) else [])\<rparr>"
  have rows: "list_rows (coll E) req limit status s = map COLUMNS (take (limit + 1) ?sel)"
    by (simp add: list_rows_def selection_def)
  have "set ?rs \<subseteq> set (projects (work ?t))"
    using selection_set[of "coll E" req status s] by (auto dest: in_set_takeD)
  moreover have "store_good (coll E) (work ?t)" using good by simp
  ultimately obtain t' where filled: "and_then (with_aliases E (map (\<lambda>r. row_to_project (COLUMNS r)) ?rs)) (\<lambda>ps.
        and_then (with_grants E ps) ?f) ?t = ?f (map (project_view (coll E) (work ?t)) ?rs) t'"
    and w': "work t' = work ?t"
    using page_filled[OF nf, of ?t ?rs ?f] by blast
  from w' have w: "work t' = s" by simp
  from filled have t': "and_then (with_aliases E (map (\<lambda>r. row_to_project (COLUMNS r)) ?rs)) (\<lambda>ps.
        and_then (with_grants E ps) ?f) ?t = ?f (map (project_view (coll E) s) ?rs) t'"
    by (simp only: tx.simps)
  have take: "take limit (map COLUMNS (take (limit + 1) ?sel)) = map COLUMNS ?rs"
    by (simp add: take_map min_def)
  have "list_body E req limit status \<lparr>work = s, stmts = 0\<rparr> = ?f (map (project_view (coll E) s) ?rs) t'"
    unfolding list_body_def and_then_run[of "stmt E _"] stmt_run[OF nf] select_run
    using t' by (simp add: rows Let_def take_map min_def comp_def)
  moreover have "?f (map (project_view (coll E) s) ?rs) t' = (Inr (page_of (coll E) req limit status s), t')"
  proof (cases "length ?sel > limit \<and> limit > 0")
    case True
    then have "?rs \<noteq> []" by auto
    with True show ?thesis
      by (simp add: ret_run page_of_def Let_def last_map last_take)
  next
    case False
    then have "length (take (limit + 1) ?sel) \<le> limit \<or> ?rs = []" by auto
    with False show ?thesis by (auto simp: ret_run page_of_def Let_def)
  qed
  ultimately show ?thesis using acq checks w by (simp add: list_projects_def run_conn_def)
qed

lemma page_size_bounds: "1 \<le> page_size n" "page_size n \<le> 500"
  by (auto simp: page_size_def MAX_PAGE_def DEFAULT_PAGE_def)

lemma list_checks_Inr:
  "list_checks req = Inr (limit, status) \<longleftrightarrow>
     status_filter (ls_status req) = Inr status
     \<and> (ls_under_path req = [] \<or> path_ok (ls_under_path req)) \<and> limit = nat (page_size (ls_page_size req))"
  by (auto simp: list_checks_def also_check_eq_Inr validate_ok_iff split: if_splits)

end
