(* ===== verification/Pagination.thy ===== *)
theory Pagination
  imports Read_Page
begin

text \<open>
  Walking \<open>ListProjects\<close> by its tokens: a client that follows \<open>next_page_token\<close> until it is empty
  sees every matching project once, in path order, and stops; and a page never carries more than
  the contract's bound.
\<close>

section \<open>A client that follows the tokens\<close>

text \<open>Fuel counts the calls; \<^const>\<open>None\<close> is a refusal or a walk that has not ended.\<close>

fun page_walk :: "env \<Rightarrow> deadline \<Rightarrow> nat \<Rightarrow> list_request \<Rightarrow> store \<Rightarrow> project list option" where
  "page_walk E d 0 req s = None"
| "page_walk E d (Suc n) req s =
     (case list_projects E req d s of
        (Inl e, s') \<Rightarrow> None
      | (Inr resp, s') \<Rightarrow>
          (if ls_next_page_token resp = [] then Some (ls_projects resp)
           else map_option ((@) (ls_projects resp))
                  (page_walk E d n (req\<lparr>ls_page_token := ls_next_page_token resp\<rparr>) s')))"

section \<open>A token cuts the selection where the page ended\<close>

lemma filter_beyond:
  fixes f :: "'a \<Rightarrow> 'k::linorder"
  assumes "sorted (map f xs)" and "distinct (map f xs)" and "n < length xs"
  shows "filter (\<lambda>x. f (xs ! n) < f x) xs = drop (Suc n) xs"
proof -
  have less: "i < j \<Longrightarrow> j < length xs \<Longrightarrow> f (xs ! i) < f (xs ! j)" for i j
    using assms(1,2) sorted_nth_mono[of "map f xs" i j] nth_eq_iff_index_eq[of "map f xs" i j]
    by (simp add: less_le)
  have low: "\<not> f (xs ! n) < f x" if "x \<in> set (take (Suc n) xs)" for x
  proof -
    from that obtain i where "x = xs ! i" "i \<le> n" "i < length xs"
      by (auto simp: in_set_conv_nth less_Suc_eq_le)
    then show ?thesis using less[of i n] assms(3) by (cases "i = n") auto
  qed
  have high: "f (xs ! n) < f x" if "x \<in> set (drop (Suc n) xs)" for x
  proof -
    from that obtain i where "x = xs ! (Suc n + i)" "Suc n + i < length xs"
      by (auto simp: in_set_conv_nth)
    then show ?thesis using less by simp
  qed
  have "filter (\<lambda>x. f (xs ! n) < f x) (take (Suc n) xs) = []" using low by (simp add: filter_empty_conv)
  moreover have "filter (\<lambda>x. f (xs ! n) < f x) (drop (Suc n) xs) = drop (Suc n) xs"
    using high by (simp add: filter_id_conv)
  ultimately show ?thesis by (metis append_Nil append_take_drop_id filter_append)
qed

lemma selection_sorted: "sorted (map (\<lambda>r. ci_key C (path r)) (selection C req status s))"
  by (simp add: selection_def)

lemma selection_distinct:
  assumes "store_good C s"
  shows "distinct (map (\<lambda>r. ci_key C (path r)) (selection C req status s))"
proof -
  let ?k = "\<lambda>r. ci_key C (path r)"
  have d: "distinct (map ?k (projects s))"
    using assms by (simp add: store_good_def projects_good_def)
  then have "distinct (filter (listed C req status) (projects s))"
    and "inj_on ?k (set (filter (listed C req status) (projects s)))"
    by (auto simp: distinct_map intro: inj_on_subset)
  then show ?thesis by (simp add: selection_def distinct_map)
qed

lemma selection_after:
  assumes good: "store_good C s" and r: "r \<in> set (selection C req status s)"
  shows "selection C (req\<lparr>ls_page_token := path r\<rparr>) status s
    = filter (\<lambda>x. ci_key C (path r) < ci_key C (path x)) (selection C req status s)"
proof -
  have r_in: "r \<in> set (projects s)" "listed C req status r" using r by (auto simp: selection_def)
  then have ne: "path r \<noteq> []"
    using projects_good_row[OF store_good_projects[OF good]] path_ok_not_Nil by (auto simp: row_good_def)
  have "listed C (req\<lparr>ls_page_token := path r\<rparr>) status x
      \<longleftrightarrow> listed C req status x \<and> ci_key C (path r) < ci_key C (path x)" for x
    using r_in(2) ne by (auto simp: listed_def)
  then have "listed C (req\<lparr>ls_page_token := path r\<rparr>) status
      = (\<lambda>x. listed C req status x \<and> ci_key C (path r) < ci_key C (path x))" by (rule ext)
  then show ?thesis by (simp add: selection_def filter_sort conj_commute)
qed

lemma list_checks_token [simp]: "list_checks (req\<lparr>ls_page_token := t\<rparr>) = list_checks req"
  by (simp add: list_checks_def)

lemma limit_positive: "list_checks req = Inr (limit, status) \<Longrightarrow> 0 < limit \<and> limit \<le> 500"
  using page_size_bounds[of "ls_page_size req"] by (auto simp: list_checks_Inr)

lemma page_walk_selection:
  assumes nf: "no_faults E" and acq: "acquire (the_pool E) d = Inr ()" and good: "store_good (coll E) s"
  shows "list_checks req = Inr (limit, status) \<Longrightarrow> length (selection (coll E) req status s) < n \<Longrightarrow>
    page_walk E d n req s = Some (map (project_view (coll E) s) (selection (coll E) req status s))"
proof (induction n arbitrary: req)
  case (Suc n)
  let ?sel = "selection (coll E) req status s"
  note run = list_run[OF nf acq Suc.prems(1) good]
  have limit: "0 < limit" using limit_positive[OF Suc.prems(1)] by simp
  show ?case
  proof (cases "length ?sel > limit")
    case False
    then show ?thesis by (simp add: run page_of_def Let_def)
  next
    case True
    let ?r = "?sel ! (limit - 1)" and ?page = "map (project_view (coll E) s) (take limit ?sel)"
    have r: "?r \<in> set ?sel" using True limit by (intro nth_mem) simp
    then have ne: "path ?r \<noteq> []"
      using selection_set projects_good_row[OF store_good_projects[OF good]] path_ok_not_Nil
      by (fastforce simp: row_good_def)
    let ?req = "req\<lparr>ls_page_token := path ?r\<rparr>"
    have rest: "selection (coll E) ?req status s = drop limit ?sel"
      using selection_after[OF good r] limit True
        filter_beyond[OF selection_sorted selection_distinct[OF good], of "limit - 1" req status]
      by simp
    have "page_walk E d n ?req s = Some (map (project_view (coll E) s) (selection (coll E) ?req status s))"
      by (rule Suc.IH) (use Suc.prems limit True rest in simp_all)
    then have "page_walk E d n ?req s = Some (map (project_view (coll E) s) (drop limit ?sel))"
      unfolding rest .
    then show ?thesis using True limit ne
      by (simp add: run page_of_def Let_def map_append[symmetric] del: map_append)
  qed
qed simp

text \<open>C9. The pages are complete and end: starting without a token, as many calls as there are
  projects, and one more, walk every page; together the pages are exactly the projects the filters
  select, each once and whole, in path order.\<close>

theorem pages_complete:
  assumes "no_faults E" and "acquire (the_pool E) d = Inr ()" and "store_good (coll E) s"
    and "list_checks req = Inr (limit, status)"
  shows "page_walk E d (Suc (length (projects s))) req s
      = Some (map (project_view (coll E) s) (selection (coll E) req status s))
    \<and> distinct (map path (selection (coll E) req status s))"
proof
  have "length (selection (coll E) req status s) \<le> length (projects s)"
    by (simp add: selection_def)
  then show "page_walk E d (Suc (length (projects s))) req s
      = Some (map (project_view (coll E) s) (selection (coll E) req status s))"
    by (intro page_walk_selection[OF assms]) simp
  show "distinct (map path (selection (coll E) req status s))"
    using selection_distinct[OF assms(3), of req status] by (auto simp: distinct_map inj_on_def)
qed

section \<open>One page\<close>

lemma status_filter_Inr:
  "status_filter v = Inr status \<Longrightarrow> status = None \<or> status = Some Active \<or> status = Some Archived"
proof (cases v)
  case (Some n)
  moreover assume "status_filter v = Inr status"
  ultimately show ?thesis
    by (cases "status_try_from n"; cases "the (status_try_from n)") (auto simp: status_filter_def)
qed (simp add: status_filter_def)

text \<open>A page is bounded by the contract and never empty while more is promised: at most 500
  projects whatever size was asked for, the size asked for when it is between 1 and 500, and a
  token only after a full page.\<close>

lemma page_bounded:
  assumes "no_faults E" and "acquire (the_pool E) d = Inr ()" and "store_good (coll E) s"
    and "list_projects E req d s = (Inr resp, s')"
  shows "length (ls_projects resp) \<le> 500
    \<and> length (ls_projects resp) \<le> nat (page_size (ls_page_size req))
    \<and> (ls_next_page_token resp = [] \<or> length (ls_projects resp) = nat (page_size (ls_page_size req)))
    \<and> s' = s"
proof -
  obtain limit status where checks: "list_checks req = Inr (limit, status)"
    using assms(4) by (auto simp: list_projects_def split: sum.splits)
  then have limit: "limit = nat (page_size (ls_page_size req))" by (simp add: list_checks_Inr)
  have "resp = page_of (coll E) req limit status s" "s' = s"
    using list_run[OF assms(1,2) checks assms(3)] assms(4) by simp_all
  then show ?thesis
    using limit limit_positive[OF checks] by (auto simp: page_of_def Let_def)
qed

text \<open>C31. What \<open>under_path\<close> selects is the subtree, the named project included: segment by segment
  under the store's case folding, no sibling that shares a prefix of characters, no wildcard read
  out of the value; and the status filter selects one status.\<close>

theorem listed_is_the_subtree:
  assumes "path_collation (ci_key C)" and "store_good C s" and "r \<in> set (projects s)"
    and "list_checks req = Inr (limit, status)" and "ls_page_token req = []"
  shows "listed C req status r \<longleftrightarrow>
     (ls_under_path req = []
      \<or> prefix (segments (to_ascii_lowercase (ls_under_path req))) (segments (to_ascii_lowercase (path r))))
     \<and> (status = None \<or> status = Some Active \<and> row_status r = 1 \<or> status = Some Archived \<and> row_status r = 2)"
proof -
  let ?u = "ls_under_path req"
  have good: "row_good C r" using assms(2,3) projects_good_row store_good_projects by blast
  have st: "(case status of None \<Rightarrow> True | Some st \<Rightarrow> row_status r = status_i8 st) \<longleftrightarrow>
      status = None \<or> status = Some Active \<and> row_status r = 1 \<or> status = Some Archived \<and> row_status r = 2"
    using status_filter_Inr[of "ls_status req" status] assms(4) by (auto simp: list_checks_Inr)
  have "?u \<noteq> [] \<Longrightarrow> same_path C (path r) ?u \<or> sql_like (ci_key C) (subtree ?u) (path r) \<longleftrightarrow>
     prefix (segments (to_ascii_lowercase ?u)) (segments (to_ascii_lowercase (path r)))"
  proof -
    assume "?u \<noteq> []"
    then have u: "path_ok ?u" using assms(4) by (simp add: list_checks_Inr)
    then have "list_all path_char ?u" by (auto simp: list_all_iff path_ok_chars)
    then have "sql_like (ci_key C) (subtree ?u) (path r) \<longleftrightarrow>
      strict_prefix (segments (to_ascii_lowercase ?u)) (segments (to_ascii_lowercase (path r)))"
      by (rule path_collation.subtree_strict[OF assms(1) _ row_good_path_chars[OF good]])
    moreover have "same_path C (path r) ?u \<longleftrightarrow> to_ascii_lowercase ?u = to_ascii_lowercase (path r)"
      using path_collation.ck_path[OF assms(1), of "path r" ?u] u good
      by (auto simp: same_path_def row_good_def eq_ignore_ascii_case_def)
    ultimately show ?thesis by (auto simp: strict_prefix_def)
  qed
  with st assms(5) show ?thesis by (auto simp: listed_def)
qed

end
