(* ===== verification/Register.thy ===== *)
theory Register
  imports Idem
begin

text \<open>
  \<open>src/write/register.rs\<close>: \<open>RegisterProject\<close>, the one writer of the private class. The checks
  that need no store come first (the caller, the path, the class), then one transaction:
  the claim, the former-path lookup, the \<open>INSERT\<close>, the recorded outcome, the commit.
\<close>

section \<open>The checks above the transaction\<close>

definition REGISTER_CALLER :: string where
  "REGISTER_CALLER = ''project-caller''"

definition MAX_DISPLAY_NAME_CHARS :: nat where
  "MAX_DISPLAY_NAME_CHARS = 255"

definition admit_register :: "string option \<Rightarrow> status + unit" where
  "admit_register caller =
     (if caller = Some REGISTER_CALLER then Inr ()
      else refused Permission_denied In_register (Register_not_admitted caller))"

record class_columns =
  cl_owner_user_id :: string
  cl_visibility :: int

definition Class_of :: "uuid_crate \<Rightarrow> string \<Rightarrow> string \<Rightarrow> string \<Rightarrow> status + class_columns" where
  "Class_of U p actor repo =
     (if \<not> is_private_class p
      then refused Failed_precondition In_register (Org_path p)
      else (case account_segment U actor of
              None \<Rightarrow> refused Invalid_argument In_register No_account_segment
            | Some seg \<Rightarrow>
                (if \<not> is_under_own_root p seg
                 then refused Permission_denied In_register (Not_own_root p seg)
                 else if repo \<noteq> []
                 then refused Invalid_argument In_register (Private_with_repo repo p)
                 else Inr \<lparr>cl_owner_user_id = actor, cl_visibility = visibility_i8 Private\<rparr>)))"

definition display_name_check :: "string \<Rightarrow> status + unit" where
  "display_name_check name =
     (if chars_count name > MAX_DISPLAY_NAME_CHARS
      then refused Invalid_argument In_register (Display_name_wide (chars_count name))
      else Inr ())"

definition register_checks ::
  "uuid_crate \<Rightarrow> register_request \<Rightarrow> status + (scope \<times> class_columns)" where
  "register_checks U req =
     also_check (scope_of (rg_scope req)) (\<lambda>sc.
     also_check (validate ''path'' (rg_path req)) (\<lambda>_.
     also_check (refuse_reserved_root ''path'' (rg_path req)) (\<lambda>_.
     also_check (display_name_check (rg_display_name req)) (\<lambda>_.
     also_check (Class_of U (rg_path req) (sc_user_id sc) (rg_source_repo req)) (\<lambda>cls.
       Inr (sc, cls))))))"

section \<open>The transaction\<close>

definition meta_of :: "string \<Rightarrow> nat \<Rightarrow> string \<Rightarrow> string \<Rightarrow> meta" where
  "meta_of pid ver p actor =
     \<lparr>m_id = pid, m_version = ver, m_project_id = p, m_owner_user_id = actor, m_team_id = [],
      m_visibility = 0, m_created_by = actor, m_updated_by = actor, m_created_at = None,
      m_updated_at = None, m_deleted_at = None, m_derived_from = []\<rparr>"

definition payload :: "env \<Rightarrow> register_request \<Rightarrow> string" where
  "payload E req = encode_request E (req\<lparr>rg_scope := None, rg_idempotency := None\<rparr>)"

definition alias_owner :: "env \<Rightarrow> string \<Rightarrow> string option txm" where
  "alias_owner E p =
     stmt E (select (\<lambda>s. map_option alias_project
       (find (\<lambda>a. same_path (coll E) (alias_path a) p) (aliases s))))"

definition private_row ::
  "register_request \<Rightarrow> scope \<Rightarrow> class_columns \<Rightarrow> string \<Rightarrow> int \<Rightarrow> project_row" where
  "private_row req sc cls pid now =
     \<lparr>id_of = pid, version = 1, path = rg_path req, display_name = rg_display_name req,
      row_status = status_i8 Active, source_repo = None,
      owner_user_id = Some (cl_owner_user_id cls), row_visibility = cl_visibility cls,
      created_by = sc_user_id sc, updated_by = sc_user_id sc,
      created_at = now, updated_at = now, last_seen_at = None\<rparr>"

text \<open>The \<open>INSERT\<close> and what follows it.\<close>

definition register_row ::
  "env \<Rightarrow> register_request \<Rightarrow> scope \<Rightarrow> class_columns \<Rightarrow> register_response finish txm" where
  "register_row E req sc cls =
     and_then (mint E) (\<lambda>pid.
     and_then (attempt E (insert_project (coll E) (private_row req sc cls pid))) (\<lambda>done.
       case done of
         Inl e \<Rightarrow> ret (Rollback (Inl
           (if is_duplicate e
            then Status Already_exists (In_register (Already_registered (rg_path req)))
            else internal e)))
       | Inr _ \<Rightarrow>
           (let response = \<lparr>rg_meta = Some (meta_of pid 1 (rg_path req) (sc_user_id sc))\<rparr> in
            and_then (record_outcome E sc (rg_idempotency req) response) (\<lambda>_.
              ret (Commit response)))))"

definition register_body ::
  "env \<Rightarrow> register_request \<Rightarrow> scope \<Rightarrow> class_columns \<Rightarrow> register_response finish txm" where
  "register_body E req sc cls =
     and_then (claim E sc ''RegisterProject'' (rg_idempotency req) (payload E req)) (\<lambda>claimed.
       case claimed of
         Replay original \<Rightarrow> ret (Rollback (Inr original))
       | Proceed \<Rightarrow>
           and_then (alias_owner E (rg_path req)) (\<lambda>former.
             case former of
               Some own \<Rightarrow> ret (Rollback (Inl
                 (Status Already_exists (In_register (Former_path (rg_path req) own)))))
             | None \<Rightarrow> register_row E req sc cls))"

definition register ::
  "env \<Rightarrow> register_request \<Rightarrow> deadline \<Rightarrow> store \<Rightarrow> (status + register_response) \<times> store" where
  "register E req d s =
     (case register_checks (uuid_api E) req of
        Inl e \<Rightarrow> (Inl e, s)
      | Inr (sc, cls) \<Rightarrow> run_tx E d (register_body E req sc cls) s)"

definition register_as ::
  "env \<Rightarrow> string option \<Rightarrow> register_request \<Rightarrow> deadline \<Rightarrow> store
   \<Rightarrow> (status + register_response) \<times> store" where
  "register_as E caller req d s =
     (case admit_register caller of Inl e \<Rightarrow> (Inl e, s) | Inr _ \<Rightarrow> register E req d s)"

section \<open>What the checks establish\<close>

lemma reserved_root_Inr:
  "refuse_reserved_root what p = Inr u \<longleftrightarrow> \<not> eq_ignore_ascii_case p RESERVED_ROOT"
  by (simp add: refuse_reserved_root_def)

lemma Class_of_Inr:
  "Class_of U p actor repo = Inr cls \<longleftrightarrow>
     cls = \<lparr>cl_owner_user_id = actor, cl_visibility = 1\<rparr> \<and> repo = []
     \<and> (\<exists>seg. account_segment U actor = Some seg \<and> is_under_own_root p seg)"
  using own_root_private
  by (auto simp: Class_of_def split: if_splits option.splits)

lemma register_checks_Inr:
  "register_checks U req = Inr (sc, cls) \<longleftrightarrow>
     rg_scope req = Some sc \<and> path_ok (rg_path req)
     \<and> \<not> eq_ignore_ascii_case (rg_path req) RESERVED_ROOT
     \<and> chars_count (rg_display_name req) \<le> 255
     \<and> Class_of U (rg_path req) (sc_user_id sc) (rg_source_repo req) = Inr cls"
  by (auto simp: register_checks_def also_check_eq_Inr scope_of_def validate_ok_iff reserved_root_Inr
        display_name_check_def MAX_DISPLAY_NAME_CHARS_def split: option.splits if_splits)

lemma register_checks_row_good:
  assumes "register_checks U req = Inr (sc, cls)"
    and "row_refusal C (private_row req sc cls pid now) = None"
  shows "row_good C (private_row req sc cls pid now)"
proof -
  from assms(1) obtain seg where "account_segment U (sc_user_id sc) = Some seg"
    and "is_under_own_root (rg_path req) seg"
    by (auto simp: register_checks_Inr Class_of_Inr)
  then have "owner_root (rg_path req) (sc_user_id sc)"
    using account_segment_Some by (auto simp: owner_root_def)
  then show ?thesis
    using assms by (auto simp: row_good_def private_row_def register_checks_Inr Class_of_Inr)
qed

section \<open>Preservation\<close>

lemma find_alias_None:
  "find (\<lambda>a. same_path C (alias_path a) p) als = None \<longleftrightarrow>
     (\<forall>a \<in> set als. \<not> same_path C (alias_path a) p)"
  by (auto simp: find_None_iff)

lemma register_body_good:
  assumes "register_checks U req = Inr (sc, cls)"
  shows "hoare (store_good (coll E)) (register_body E req sc cls) (\<lambda>r s. \<forall>x. r = Commit x \<longrightarrow> store_good (coll E) s)"
proof -
  let ?C = "coll E" and ?I = "store_good (coll E)"
  let ?free = "\<lambda>s. ?I s \<and> (\<forall>a \<in> set (aliases s). \<not> same_path ?C (alias_path a) (rg_path req))"
  have ins: "hoare ?free (attempt E (insert_project ?C (private_row req sc cls pid)))
      (\<lambda>r s. case r of Inr _ \<Rightarrow> ?I s | Inl _ \<Rightarrow> True)" for pid
  proof (rule hoare_attempt)
    fix now s u s'
    assume free: "?free s" and run: "insert_project ?C (private_row req sc cls pid) now s = Inr (u, s')"
    then have "row_good ?C (private_row req sc cls pid now)"
      using register_checks_row_good[OF assms] by (auto simp: insert_project_Inr)
    then show "case Inr u of Inr _ \<Rightarrow> ?I s' | Inl _ \<Rightarrow> True"
      using insert_project_good[OF run] free by (simp add: private_row_def)
  qed simp
  have row: "hoare ?free (register_row E req sc cls) (\<lambda>r s. \<forall>x. r = Commit x \<longrightarrow> ?I s)"
    unfolding register_row_def
  proof (rule hoare_and_then[where R = "\<lambda>_. ?free"], rule hoare_mint, assumption,
      rule hoare_and_then[OF ins])
    fix pid "done"
    show "hoare (\<lambda>s. case done of Inr _ \<Rightarrow> ?I s | Inl _ \<Rightarrow> True)
       (case done of
         Inl e \<Rightarrow> ret (Rollback (Inl
           (if is_duplicate e
            then Status Already_exists (In_register (Already_registered (rg_path req)))
            else internal e)))
       | Inr _ \<Rightarrow>
           (let response = \<lparr>rg_meta = Some (meta_of pid 1 (rg_path req) (sc_user_id sc))\<rparr> in
            and_then (record_outcome E sc (rg_idempotency req) response) (\<lambda>_. ret (Commit response))))
       (\<lambda>r s. \<forall>x. r = Commit x \<longrightarrow> ?I s)"
      by (cases "done") (auto simp: Let_def intro!: hoare_ret hoare_and_then[OF record_good])
  qed
  have former: "hoare ?I (alias_owner E (rg_path req)) (\<lambda>r s. if r = None then ?free s else ?I s)"
    unfolding alias_owner_def
    by (rule hoare_stmt) (auto dest!: select_good simp: find_alias_None)
  show ?thesis unfolding register_body_def
  proof (rule hoare_and_then[OF claim_good])
    fix claimed :: "register_response claimed"
    have "hoare ?I (and_then (alias_owner E (rg_path req)) (\<lambda>former.
             case former of
               Some own \<Rightarrow> ret (Rollback (Inl
                 (Status Already_exists (In_register (Former_path (rg_path req) own)))))
             | None \<Rightarrow> register_row E req sc cls)) (\<lambda>r s. \<forall>x. r = Commit x \<longrightarrow> ?I s)"
    proof (rule hoare_and_then[OF former])
      fix r :: "string option"
      show "hoare (\<lambda>s. if r = None then ?free s else ?I s) (case r of
               Some own \<Rightarrow> ret (Rollback (Inl
                 (Status Already_exists (In_register (Former_path (rg_path req) own)))))
             | None \<Rightarrow> register_row E req sc cls) (\<lambda>r s. \<forall>x. r = Commit x \<longrightarrow> ?I s)"
        using row by (cases r) (auto intro!: hoare_ret)
    qed
    then show "hoare ?I (case claimed of Replay original \<Rightarrow> ret (Rollback (Inr original))
       | Proceed \<Rightarrow> and_then (alias_owner E (rg_path req)) (\<lambda>former.
             case former of
               Some own \<Rightarrow> ret (Rollback (Inl
                 (Status Already_exists (In_register (Former_path (rg_path req) own)))))
             | None \<Rightarrow> register_row E req sc cls)) (\<lambda>r s. \<forall>x. r = Commit x \<longrightarrow> ?I s)"
      by (cases claimed) (auto intro!: hoare_ret)
  qed
qed

lemma register_cases:
  assumes "register_as E caller req d s = (r, s')"
  obtains "s' = s"
  | sc cls where "caller = Some REGISTER_CALLER"
      and "register_checks (uuid_api E) req = Inr (sc, cls)"
      and "run_tx E d (register_body E req sc cls) s = (r, s')"
  using assms
  by (auto simp: register_as_def register_def admit_register_def split: sum.splits if_splits)

lemma register_store_good:
  assumes "register_as E caller req d s = (r, s')" and "store_good (coll E) s"
  shows "store_good (coll E) s'"
  using assms(1)
proof (cases rule: register_cases)
  case (2 sc cls)
  show ?thesis by (rule run_tx_invariant[OF register_body_good[OF 2(2)] 2(3) assms(2)])
qed (use assms(2) in simp)

lemma register_refused_unchanged:
  assumes "register_as E caller req d s = (Inl e, s')" and "\<not> commit_lands E"
  shows "s' = s"
  using assms(1) by (cases rule: register_cases) (auto dest: run_tx_refused[OF _ assms(2)])

end
