(* ===== verification/Register_Spec.thy ===== *)
theory Register_Spec
  imports Register
begin

text \<open>
  What \<open>RegisterProject\<close> promises: exactly what a success left in the store, what a repeat of
  it answers, and what a refusal may depend on.
\<close>

section \<open>The effect of a success\<close>

text \<open>The ledger row of a completed write.\<close>

definition outcome_row :: "env \<Rightarrow> register_request \<Rightarrow> scope \<Rightarrow> register_response \<Rightarrow> write_row list" where
  "outcome_row E req sc resp =
     (case present (rg_idempotency req) of
        None \<Rightarrow> []
      | Some key \<Rightarrow>
          [(claim_row sc ''RegisterProject'' key (fingerprint E (payload E req)))
             \<lparr>w_response := encode_response E resp\<rparr>])"

definition registered ::
  "env \<Rightarrow> register_request \<Rightarrow> scope \<Rightarrow> register_response \<Rightarrow> store \<Rightarrow> store \<Rightarrow> bool" where
  "registered E req sc resp s s' \<longleftrightarrow>
     (\<exists>pid now. resp = \<lparr>rg_meta = Some (meta_of pid 1 (rg_path req) (sc_user_id sc))\<rparr>
        \<and> s' = s\<lparr>projects := projects s @
                    [private_row req sc \<lparr>cl_owner_user_id = sc_user_id sc, cl_visibility = 1\<rparr> pid now],
                 writes := writes s @ outcome_row E req sc resp\<rparr>)
     \<and> (\<forall>r \<in> set (projects s). \<not> same_path (coll E) (path r) (rg_path req))
     \<and> (\<forall>a \<in> set (aliases s). \<not> same_path (coll E) (alias_path a) (rg_path req))
     \<and> (\<forall>key. present (rg_idempotency req) = Some key \<longrightarrow> key_free E sc key s)"

definition replayed :: "env \<Rightarrow> register_request \<Rightarrow> scope \<Rightarrow> register_response \<Rightarrow> store \<Rightarrow> bool" where
  "replayed E req sc resp s \<longleftrightarrow>
     (\<exists>key. present (rg_idempotency req) = Some key
        \<and> recorded E sc ''RegisterProject'' key (fingerprint E (payload E req)) resp (writes s))"

lemma register_row_InrD:
  assumes "register_row E req sc cls t = (Inr (Commit resp), t')"
  obtains pid now u s where
    "resp = \<lparr>rg_meta = Some (meta_of pid 1 (rg_path req) (sc_user_id sc))\<rparr>"
    "insert_project (coll E) (private_row req sc cls pid) now (work t) = Inr (u, s)"
    "present (rg_idempotency req) = None \<and> work t' = s
     \<or> (\<exists>key now' u'. present (rg_idempotency req) = Some key
          \<and> update_write (coll E) (claim_key (coll E) sc key) (encode_response E resp) now' s
              = Inr (u', work t'))"
proof -
  from assms obtain pid got t1 t2 where t1: "mint E t = (Inr pid, t1)"
    and got: "attempt E (insert_project (coll E) (private_row req sc cls pid)) t1 = (Inr got, t2)"
    and rest: "(case got of
         Inl e \<Rightarrow> ret (Rollback (Inl
           (if is_duplicate e
            then Status Already_exists (In_register (Already_registered (rg_path req)))
            else internal e)))
       | Inr _ \<Rightarrow>
           (let response = \<lparr>rg_meta = Some (meta_of pid 1 (rg_path req) (sc_user_id sc))\<rparr> in
            and_then (record_outcome E sc (rg_idempotency req) response) (\<lambda>_. ret (Commit response)))) t2
       = (Inr (Commit resp), t')"
    unfolding register_row_def by (blast dest!: and_then_InrD)
  from rest obtain u where u: "got = Inr u" by (cases got) (auto simp: tx_simps)
  let ?r = "\<lparr>rg_meta = Some (meta_of pid 1 (rg_path req) (sc_user_id sc))\<rparr>"
  have "and_then (record_outcome E sc (rg_idempotency req) ?r) (\<lambda>_. ret (Commit ?r)) t2
      = (Inr (Commit resp), t')"
    using rest by (simp add: u Let_def)
  then obtain v t3 where v: "record_outcome E sc (rg_idempotency req) ?r t2 = (Inr v, t3)"
    and r: "resp = ?r" and t3: "t' = t3"
    by (fastforce dest!: and_then_InrD simp: tx_simps)
  have "work t1 = work t" using t1 by (auto simp: mint_def)
  with got u have ins: "insert_project (coll E) (private_row req sc cls pid) (clock E (stmts t1)) (work t)
      = Inr (u, work t2)"
    using attempt_InrD by fastforce
  have "present (rg_idempotency req) = None \<and> work t' = work t2
     \<or> (\<exists>key now' u'. present (rg_idempotency req) = Some key
          \<and> update_write (coll E) (claim_key (coll E) sc key) (encode_response E resp) now' (work t2)
              = Inr (u', work t'))"
    using v r t3 by (cases "present (rg_idempotency req)")
      (auto simp: record_outcome_def tx_simps dest!: stmt_InrD)
  with r ins that show thesis by blast
qed

lemma alias_owner_InrD:
  assumes "alias_owner E p t = (Inr r, t')"
  shows "work t' = work t"
    and "r = None \<Longrightarrow> \<forall>a \<in> set (aliases (work t)). \<not> same_path (coll E) (alias_path a) p"
  using assms by (auto simp: alias_owner_def find_alias_None dest!: stmt_InrD select_good)

text \<open>The store after a claim that lets the call proceed.\<close>

definition claimed_over :: "env \<Rightarrow> register_request \<Rightarrow> scope \<Rightarrow> store \<Rightarrow> store \<Rightarrow> bool" where
  "claimed_over E req sc s s1 \<longleftrightarrow>
     (case present (rg_idempotency req) of
        None \<Rightarrow> s1 = s
      | Some key \<Rightarrow> key_free E sc key s
          \<and> s1 = s\<lparr>writes := writes s
                 @ [claim_row sc ''RegisterProject'' key (fingerprint E (payload E req))]\<rparr>)"

lemma claimed_over_same:
  "claimed_over E req sc s s1 \<Longrightarrow> projects s1 = projects s \<and> aliases s1 = aliases s"
  by (auto simp: claimed_over_def split: option.splits)

lemma register_body_InrD:
  assumes "register_body E req sc cls t = (Inr fin, t')"
  shows "(\<exists>resp. fin = Rollback (Inr resp) \<and> replayed E req sc resp (work t))
    \<or> (\<exists>e. fin = Rollback (Inl e))
    \<or> (\<exists>t2 resp. fin = Commit resp \<and> claimed_over E req sc (work t) (work t2)
         \<and> (\<forall>a \<in> set (aliases (work t)). \<not> same_path (coll E) (alias_path a) (rg_path req))
         \<and> register_row E req sc cls t2 = (Inr (Commit resp), t'))"
proof -
  from assms obtain c t1 where
    c: "claim E sc ''RegisterProject'' (rg_idempotency req) (payload E req) t = (Inr c, t1)"
    and rest: "(case c of Replay original \<Rightarrow> ret (Rollback (Inr original))
       | Proceed \<Rightarrow>
           and_then (alias_owner E (rg_path req)) (\<lambda>former.
             case former of
               Some own \<Rightarrow> ret (Rollback (Inl
                 (Status Already_exists (In_register (Former_path (rg_path req) own)))))
             | None \<Rightarrow> register_row E req sc cls)) t1 = (Inr fin, t')"
    unfolding register_body_def by (blast dest!: and_then_InrD)
  show ?thesis
  proof (cases c)
    case (Replay r)
    with c rest show ?thesis by (auto simp: tx_simps replayed_def dest!: claim_InrD)
  next
    case Proceed
    with rest obtain former t2 where f: "alias_owner E (rg_path req) t1 = (Inr former, t2)"
      and rest2: "(case former of
               Some own \<Rightarrow> ret (Rollback (Inl
                 (Status Already_exists (In_register (Former_path (rg_path req) own)))))
             | None \<Rightarrow> register_row E req sc cls) t2 = (Inr fin, t')"
      by (auto dest!: and_then_InrD)
    have ledger: "claimed_over E req sc (work t) (work t1)"
      using claim_InrD[OF c] Proceed by (auto simp: claimed_over_def)
    then have als: "aliases (work t1) = aliases (work t)" by (simp add: claimed_over_same)
    show ?thesis
    proof (cases former)
      case (Some own)
      with rest2 show ?thesis by (auto simp: tx_simps)
    next
      case None
      with rest2 have run: "register_row E req sc cls t2 = (Inr fin, t')" by simp
      show ?thesis
      proof (cases fin)
        case (Commit resp)
        have "\<forall>a \<in> set (aliases (work t)). \<not> same_path (coll E) (alias_path a) (rg_path req)"
          using alias_owner_InrD(2)[OF f None] als by simp
        with Commit run ledger alias_owner_InrD(1)[OF f] show ?thesis
          by (intro disjI2 exI[of _ t2] exI[of _ resp] conjI) simp_all
      next
        case (Rollback r)
        have "\<exists>e. r = Inl e"
          using run unfolding Rollback register_row_def
          by (auto simp: Let_def tx_simps split: prod.splits sum.splits)
        with Rollback show ?thesis by blast
      qed
    qed
  qed
qed

lemma register_commit:
  assumes run: "register_body E req sc cls \<lparr>work = s, stmts = 1\<rparr> = (Inr (Commit resp), t)"
    and s': "s' = work t" and cls: "cls = \<lparr>cl_owner_user_id = sc_user_id sc, cl_visibility = 1\<rparr>"
  shows "registered E req sc resp s s'"
proof -
  from register_body_InrD[OF run] obtain t2 where
    led: "claimed_over E req sc s (work t2)"
    and als: "\<forall>a \<in> set (aliases s). \<not> same_path (coll E) (alias_path a) (rg_path req)"
    and row: "register_row E req sc cls t2 = (Inr (Commit resp), t)"
    by auto
  from register_row_InrD[OF row] obtain pid now u s2 where
    resp: "resp = \<lparr>rg_meta = Some (meta_of pid 1 (rg_path req) (sc_user_id sc))\<rparr>"
    and ins: "insert_project (coll E) (private_row req sc cls pid) now (work t2) = Inr (u, s2)"
    and out: "present (rg_idempotency req) = None \<and> work t = s2
     \<or> (\<exists>key now' u'. present (rg_idempotency req) = Some key
          \<and> update_write (coll E) (claim_key (coll E) sc key) (encode_response E resp) now' s2
              = Inr (u', work t))" .
  have same: "projects (work t2) = projects s" using led by (simp add: claimed_over_same)
  have s2: "s2 = (work t2)\<lparr>projects := projects s @ [private_row req sc cls pid now]\<rparr>"
    and new: "\<forall>r \<in> set (projects s). \<not> same_path (coll E) (path r) (rg_path req)"
    using ins same by (auto simp: insert_project_Inr private_row_def)
  have "s' = s\<lparr>projects := projects s @ [private_row req sc cls pid now],
                writes := writes s @ outcome_row E req sc resp\<rparr>
      \<and> (\<forall>key. present (rg_idempotency req) = Some key \<longrightarrow> key_free E sc key s)"
  proof (cases "present (rg_idempotency req)")
    case None
    with led out s2 s' show ?thesis by (simp add: outcome_row_def claimed_over_def)
  next
    case (Some key)
    let ?row = "claim_row sc ''RegisterProject'' key (fingerprint E (payload E req))"
    let ?s = "s\<lparr>projects := projects s @ [private_row req sc cls pid now]\<rparr>"
    from led Some have free: "key_free E sc key s"
      and t2: "work t2 = s\<lparr>writes := writes s @ [?row]\<rparr>" by (auto simp: claimed_over_def)
    have "s2 = ?s\<lparr>writes := writes s @ [?row]\<rparr>" by (simp add: s2 t2)
    with out Some obtain now' u' where
      "update_write (coll E) (claim_key (coll E) sc key) (encode_response E resp) now'
         (?s\<lparr>writes := writes s @ [?row]\<rparr>) = Inr (u', work t)" by auto
    from update_write_last[OF free this] s' Some free show ?thesis
      by (simp add: outcome_row_def)
  qed
  with resp new als cls show ?thesis unfolding registered_def by blast
qed

lemma register_run_tx_Inr:
  assumes "run_tx E d (register_body E req sc cls) s = (Inr resp, s')"
    and cls: "cls = \<lparr>cl_owner_user_id = sc_user_id sc, cl_visibility = 1\<rparr>"
  shows "replayed E req sc resp s \<and> s' = s \<or> registered E req sc resp s s'"
  using assms(1)
proof (cases rule: run_tx_ok)
  case (2 t)
  then show ?thesis using register_body_InrD[OF 2(1)] by auto
next
  case (1 t)
  then show ?thesis using register_commit[OF 1 cls] by simp
qed

text \<open>However the call ends: the store is as it was, or the registration is in it.\<close>

lemma register_effects:
  assumes "register_as E caller req d s = (r, s')"
  shows "s' = s \<or> (\<exists>sc resp. registered E req sc resp s s')"
  using assms
proof (cases rule: register_cases)
  case (2 sc cls)
  have cls: "cls = \<lparr>cl_owner_user_id = sc_user_id sc, cl_visibility = 1\<rparr>"
    using 2(2) by (auto simp: register_checks_Inr Class_of_Inr)
  from 2(3) show ?thesis
  proof (cases rule: run_tx_cases)
    case (2 x t)
    then show ?thesis using register_commit[OF 2 cls] by blast
  qed simp
qed simp

lemma register_success:
  assumes "register_as E caller req d s = (Inr resp, s')"
  obtains sc cls where "caller = Some REGISTER_CALLER"
    and "register_checks (uuid_api E) req = Inr (sc, cls)"
    and "replayed E req sc resp s \<and> s' = s \<or> registered E req sc resp s s'"
proof -
  from assms obtain sc cls where c: "caller = Some REGISTER_CALLER"
    and ok: "register_checks (uuid_api E) req = Inr (sc, cls)"
    and run: "run_tx E d (register_body E req sc cls) s = (Inr resp, s')"
    by (auto simp: register_as_def register_def admit_register_def split: sum.splits if_splits)
  from ok have "cls = \<lparr>cl_owner_user_id = sc_user_id sc, cl_visibility = 1\<rparr>"
    by (auto simp: register_checks_Inr Class_of_Inr)
  with c ok register_run_tx_Inr[OF run] that show thesis by blast
qed

end
