(* ===== verification/Register_Live.thy ===== *)
theory Register_Live
  imports Register_Spec
begin

text \<open>
  \<open>RegisterProject\<close> without faults: when it lands, when it answers from the ledger, and the
  refusal of every path that is taken.
\<close>

section \<open>Landing\<close>

definition minted :: "env \<Rightarrow> nat \<Rightarrow> string" where
  "minted E n = ''yadgar:project:'' @ now_v7 E n"

definition response_for :: "env \<Rightarrow> register_request \<Rightarrow> scope \<Rightarrow> nat \<Rightarrow> register_response" where
  "response_for E req sc n = \<lparr>rg_meta = Some (meta_of (minted E n) 1 (rg_path req) (sc_user_id sc))\<rparr>"

definition path_free :: "collations \<Rightarrow> string \<Rightarrow> store \<Rightarrow> bool" where
  "path_free C p s \<longleftrightarrow>
     (\<forall>r \<in> set (projects s). \<not> same_path C (path r) p)
     \<and> (\<forall>a \<in> set (aliases s). \<not> same_path C (alias_path a) p)"

text \<open>The ids a call may mint, at one of its first \<open>N\<close> statements, fit the column and are new.\<close>

definition ids_fresh :: "env \<Rightarrow> nat \<Rightarrow> store \<Rightarrow> bool" where
  "ids_fresh E N s \<longleftrightarrow>
     (\<forall>n < N. fits 96 (minted E n) \<and> (\<forall>r \<in> set (projects s). \<not> same_id (coll E) (id_of r) (minted E n)))"

definition key_usable :: "env \<Rightarrow> register_request \<Rightarrow> scope \<Rightarrow> store \<Rightarrow> bool" where
  "key_usable E req sc s \<longleftrightarrow>
     (\<forall>key. present (rg_idempotency req) = Some key \<longrightarrow>
        key_free E sc key s \<and> fits 255 (sc_project_id sc) \<and> fits 255 key
        \<and> (\<forall>n. length (encode_response E (response_for E req sc n)) \<le> 4096))"

lemma chars_count_le: "chars_count s \<le> length s"
  by (simp add: chars_count_def)

lemma private_row_accepted:
  assumes coll: "path_collation (ci_key C)" and ok: "register_checks U req = Inr (sc, cls)"
    and fit: "fits 96 pid" "fits 64 (sc_user_id sc)"
  shows "row_refusal C (private_row req sc cls pid now) = None"
proof -
  from ok obtain seg where own: "is_under_own_root (rg_path req) seg" and p: "path_ok (rg_path req)"
    and cls: "cls = \<lparr>cl_owner_user_id = sc_user_id sc, cl_visibility = 1\<rparr>"
    and name: "chars_count (rg_display_name req) \<le> 255"
    by (auto simp: register_checks_Inr Class_of_Inr)
  have "list_all path_char (rg_path req)" using p by (simp add: list_all_iff path_ok_chars)
  then have "sql_like (ci_key C) ''local/%'' (rg_path req)"
    using path_collation.like_private[OF coll] own_root_private[OF own] by simp
  moreover have "fits 255 (rg_path req)"
    using p chars_count_le[of "rg_path req"] by (simp add: path_ok_iff MAX_LEN_def fits_def)
  ultimately show ?thesis
    using fit name cls by (simp add: row_refusal_def row_fits_def class_ok_def private_row_def fits_def fits_nullable_def)
qed

lemma claim_run_fresh:
  assumes "no_faults E" "key_usable E req sc (work t)" "fits 64 (sc_user_id sc)"
  shows "\<exists>n s1. claim E sc ''RegisterProject'' (rg_idempotency req) (payload E req) t
             = (Inr Proceed, \<lparr>work = s1, stmts = n\<rparr>) \<and> claimed_over E req sc (work t) s1
    \<and> n \<le> Suc (stmts t)"
proof (cases "present (rg_idempotency req)")
  case None
  then show ?thesis using assms(1) by (cases t) (simp add: claim_def tx_simps claimed_over_def)
next
  case (Some key)
  let ?row = "claim_row sc ''RegisterProject'' key (fingerprint E (payload E req))"
  have "write_fits ?row" using assms Some
    by (simp add: write_fits_claim_row key_usable_def fits_def chars_count_def)
  then have ins: "insert_write (coll E) ?row now (work t)
      = Inr ((), (work t)\<lparr>writes := writes (work t) @ [?row]\<rparr>)" for now
    using assms(2) Some by (simp add: insert_write_Inr key_usable_def key_free_def)
  then show ?thesis using assms Some
    by (cases t) (simp add: claim_def tx_simps claimed_over_def key_usable_def Let_def)
qed

lemma record_run_fresh:
  assumes E: "no_faults E" and usable: "key_usable E req sc s"
    and over: "claimed_over E req sc s s1"
  shows "\<exists>s2 m. record_outcome E sc (rg_idempotency req) (response_for E req sc n)
             \<lparr>work = s1\<lparr>projects := ps\<rparr>, stmts = k\<rparr> = (Inr (), \<lparr>work = s2, stmts = m\<rparr>)"
proof (cases "present (rg_idempotency req)")
  case (Some key)
  with usable have "length (encode_response E (response_for E req sc n)) \<le> 4096"
    by (simp add: key_usable_def)
  with Some show ?thesis
    by (simp add: record_outcome_def tx_simps E update_write_def)
qed (simp add: record_outcome_def tx_simps)

lemma register_run_lands:
  assumes E: "no_faults E" "path_collation (ci_key (coll E))" "acquire (the_pool E) d = Inr ()"
    and ok: "register_checks (uuid_api E) req = Inr (sc, cls)" "fits 64 (sc_user_id sc)"
    and free: "path_free (coll E) (rg_path req) s" "ids_fresh E 4 s" "key_usable E req sc s"
  shows "\<exists>n s'. register_as E (Some REGISTER_CALLER) req d s = (Inr (response_for E req sc n), s')
           \<and> registered E req sc (response_for E req sc n) s s'"
proof -
  let ?t = "\<lparr>work = s, stmts = 1\<rparr>"
  obtain n s1 where claim: "claim E sc ''RegisterProject'' (rg_idempotency req) (payload E req) ?t
      = (Inr Proceed, \<lparr>work = s1, stmts = n\<rparr>)" and over: "claimed_over E req sc s s1" and n: "n \<le> 2"
    using claim_run_fresh[OF E(1), of req sc ?t] free(3) ok(2) by auto
  have same: "projects s1 = projects s" "aliases s1 = aliases s"
    using claimed_over_same[OF over] by auto
  have former: "alias_owner E (rg_path req) \<lparr>work = s1, stmts = n\<rparr>
      = (Inr None, \<lparr>work = s1, stmts = Suc n\<rparr>)"
    using free(1) same(2) find_alias_None[of "coll E" "rg_path req" "aliases s"]
    by (simp add: alias_owner_def tx_simps E path_free_def)
  let ?row = "private_row req sc cls (minted E (Suc n)) (clock E (Suc n))"
  have "row_refusal (coll E) ?row = None"
    using private_row_accepted[OF E(2) ok(1) _ ok(2)] free(2) n by (simp add: ids_fresh_def)
  then have ins: "insert_project (coll E) (private_row req sc cls (minted E (Suc n))) (clock E (Suc n)) s1
      = Inr ((), s1\<lparr>projects := projects s @ [?row]\<rparr>)"
    using free same n by (auto simp: insert_project_Inr ids_fresh_def path_free_def private_row_def)
  obtain s2 m where rec: "record_outcome E sc (rg_idempotency req) (response_for E req sc (Suc n))
      \<lparr>work = s1\<lparr>projects := projects s @ [?row]\<rparr>, stmts = Suc (Suc n)\<rparr>
        = (Inr (), \<lparr>work = s2, stmts = m\<rparr>)"
    using record_run_fresh[OF E(1) free(3) over] by blast
  have row: "register_row E req sc cls \<lparr>work = s1, stmts = Suc n\<rparr>
      = (Inr (Commit (response_for E req sc (Suc n))), \<lparr>work = s2, stmts = m\<rparr>)"
    using ins rec by (simp add: register_row_def mint_def minted_def response_for_def tx_simps E Let_def)
  have "register_body E req sc cls ?t
      = (Inr (Commit (response_for E req sc (Suc n))), \<lparr>work = s2, stmts = m\<rparr>)"
    by (simp add: register_body_def tx_simps claim[simplified] former row)
  then have run: "run_tx E d (register_body E req sc cls) s = (Inr (response_for E req sc (Suc n)), s2)"
    by (simp add: run_tx_def E no_faultsD[OF E(1)] del: One_nat_def)
  then have reg: "register_as E (Some REGISTER_CALLER) req d s = (Inr (response_for E req sc (Suc n)), s2)"
    using ok(1) by (simp add: register_as_def admit_register_def register_def)
  have "\<not> replayed E req sc r s" for r
    using free(3) by (auto simp: replayed_def recorded_def key_usable_def key_free_def)
  moreover have "cls = \<lparr>cl_owner_user_id = sc_user_id sc, cl_visibility = 1\<rparr>"
    using ok(1) by (auto simp: register_checks_Inr Class_of_Inr)
  ultimately show ?thesis using register_run_tx_Inr[OF run] reg by blast
qed

text \<open>C19. An admitted registration that passes its checks, of a path that is neither registered nor
  a former path, with a fresh id and a usable key, lands: it answers the new row's meta and leaves
  exactly the new row and the ledger row behind.\<close>

theorem register_lands:
  assumes E: "no_faults E" "path_collation (ci_key (coll E))" "acquire (the_pool E) d = Inr ()"
    and ok: "register_checks (uuid_api E) req = Inr (sc, cls)" "fits 64 (sc_user_id sc)"
    and free: "path_free (coll E) (rg_path req) s" "ids_fresh E 4 s" "key_usable E req sc s"
  shows "\<exists>n s'. register_as E (Some REGISTER_CALLER) req d s = (Inr (response_for E req sc n), s')
           \<and> registered E req sc (response_for E req sc n) s s'"
  using assms by (rule register_run_lands)

section \<open>A taken path\<close>

lemma register_row_taken:
  assumes E: "no_faults E" and r: "r \<in> set (projects (work t))" "same_path (coll E) (path r) (rg_path req)"
    and fit: "\<And>pid now. fits 96 pid \<Longrightarrow> row_refusal (coll E) (private_row req sc cls pid now) = None"
    and ids: "fits 96 (minted E (stmts t))"
  shows "\<exists>t'. register_row E req sc cls t
    = (Inr (Rollback (Inl (Status Already_exists (In_register (Already_registered (rg_path req)))))), t')"
proof -
  have "insert_project (coll E) (private_row req sc cls (minted E (stmts t))) now (work t) = Inl unique_violation"
    for now using r fit[OF ids] by (auto simp: insert_project_def list_ex_iff private_row_def)
  then show ?thesis by (simp add: register_row_def mint_def minted_def tx_simps E)
qed

text \<open>C20. A registration that every check of the request admits, with no key or with one not spent
  yet, at a path that is taken - by a project, or as a former path, under the collation's equality -
  is answered ALREADY_EXISTS and leaves the store, the ledger included, as it was, when the engine
  does not fail.\<close>

theorem register_taken:
  assumes E: "no_faults E" "path_collation (ci_key (coll E))" "acquire (the_pool E) d = Inr ()"
    and ok: "register_checks (uuid_api E) req = Inr (sc, cls)" "fits 64 (sc_user_id sc)"
    and ids: "\<forall>n. fits 96 (minted E n)" and key: "key_usable E req sc s"
    and taken: "\<not> path_free (coll E) (rg_path req) s"
  shows "\<exists>reason. register_as E (Some REGISTER_CALLER) req d s = (Inl (Status Already_exists reason), s)"
proof -
  let ?t = "\<lparr>work = s, stmts = 1\<rparr>"
  obtain n s1 where claim: "claim E sc ''RegisterProject'' (rg_idempotency req) (payload E req) ?t
      = (Inr Proceed, \<lparr>work = s1, stmts = n\<rparr>)" and over: "claimed_over E req sc s s1"
    using claim_run_fresh[OF E(1), of req sc ?t] key ok(2) by auto
  have same: "projects s1 = projects s" "aliases s1 = aliases s"
    using claimed_over_same[OF over] by auto
  have "\<exists>reason t'. register_body E req sc cls ?t
      = (Inr (Rollback (Inl (Status Already_exists reason))), t')"
  proof (cases "find (\<lambda>a. same_path (coll E) (alias_path a) (rg_path req)) (aliases s)")
    case (Some a)
    then show ?thesis
      by (simp add: register_body_def tx_simps claim[simplified] alias_owner_def E(1) same)
  next
    case None
    with taken obtain r where r: "r \<in> set (projects s)" "same_path (coll E) (path r) (rg_path req)"
      by (auto simp: path_free_def find_alias_None)
    obtain t' where "register_row E req sc cls \<lparr>work = s1, stmts = Suc n\<rparr> = (Inr (Rollback (Inl
        (Status Already_exists (In_register (Already_registered (rg_path req)))))), t')"
      using register_row_taken[OF E(1), of r "\<lparr>work = s1, stmts = Suc n\<rparr>" req sc cls]
        private_row_accepted[OF E(2) ok(1) _ ok(2)] r same ids by auto
    with None show ?thesis
      by (simp add: register_body_def tx_simps claim[simplified] alias_owner_def E(1) same)
  qed
  then show ?thesis using ok(1)
    by (auto simp: register_as_def admit_register_def register_def run_tx_def E
        no_faultsD[OF E(1)] simp del: One_nat_def)
qed

section \<open>A repeated key\<close>

text \<open>Two calls that agree on everything the code does not decide but time and faults.\<close>

definition same_apis :: "env \<Rightarrow> env \<Rightarrow> bool" where
  "same_apis E E' \<longleftrightarrow>
     coll E' = coll E \<and> uuid_api E' = uuid_api E \<and> sha256 E' = sha256 E
     \<and> encode_request E' = encode_request E \<and> decode_response E' = decode_response E"

definition again :: "register_request \<Rightarrow> scope \<Rightarrow> register_request" where
  "again req sc2 = req\<lparr>rg_scope := Some sc2\<rparr>"

definition same_caller :: "scope \<Rightarrow> scope \<Rightarrow> bool" where
  "same_caller sc sc2 \<longleftrightarrow>
     sc_user_id sc2 = sc_user_id sc \<and> sc_project_id sc2 = sc_project_id sc"

lemma again_checks:
  "register_checks U req = Inr (sc, cls) \<Longrightarrow> same_caller sc sc2 \<Longrightarrow>
   register_checks U (again req sc2) = Inr (sc2, cls)"
  by (simp add: register_checks_Inr again_def same_caller_def)

lemma success_recorded:
  assumes "register_as E caller req d s = (Inr resp, s1)"
    and "present (rg_idempotency req) = Some key" and "rg_scope req = Some sc"
    and "decode_response E (encode_response E resp) = Some resp"
  shows "recorded E sc ''RegisterProject'' key (fingerprint E (payload E req)) resp (writes s1)"
  using assms(1)
proof (cases rule: register_success)
  case (1 sc' cls)
  then have "sc' = sc" using assms(3) by (simp add: register_checks_Inr)
  with 1(3) assms show ?thesis
    by (auto simp: replayed_def registered_def recorded_def outcome_row_def claim_row_def
        ledger_key_def claim_key_def)
qed

lemma held_key_run:
  assumes E: "no_faults E" "acquire (the_pool E) d = Inr ()"
    and ok: "register_checks (uuid_api E) req = Inr (sc, cls)"
    and key: "present (rg_idempotency req) = Some key"
    and fits: "write_fits (claim_row sc ''RegisterProject'' key (fingerprint E (payload E req)))"
    and row: "w \<in> set (writes s)" "ledger_key (coll E) w = claim_key (coll E) sc key"
    and good: "store_good (coll E) s"
  shows "register_as E (Some REGISTER_CALLER) req d s =
    (if w_rpc w \<noteq> ''RegisterProject'' then Inl (Status Invalid_argument (In_engine Key_other_operation))
     else if w_fingerprint w \<noteq> fingerprint E (payload E req)
     then Inl (Status Invalid_argument (In_engine Key_other_request))
     else (case decode_response E (w_response w) of
             Some r \<Rightarrow> Inr r | None \<Rightarrow> Inl (Status Internal (In_engine Storage_error))), s)"
proof -
  have "distinct (map (ledger_key (coll E)) (writes s))" using good by (simp add: store_good_def)
  note run = claim_run_held[OF E(1) key fits, of w "\<lparr>work = s, stmts = 1\<rparr>", simplified, OF row this]
  show ?thesis using ok
    by (simp add: register_as_def admit_register_def register_def run_tx_def register_body_def
        E no_faultsD[OF E(1)] tx_simps run split: option.splits)
qed

text \<open>A key that already carries an outcome answers it: a repeat of a registration that succeeded, from
  the same user and project and with the same bytes, at any later store that kept the ledger,
  answers the original response and changes nothing.\<close>

lemma register_replays:
  assumes first: "register_as E caller req d s = (Inr resp, s1)"
    and scope: "rg_scope req = Some sc" "same_caller sc sc2"
    and key: "present (rg_idempotency req) = Some key"
    and codec: "decode_response E (encode_response E resp) = Some resp"
    and later: "set (writes s1) \<subseteq> set (writes s2)" "store_good (coll E) s2"
    and E': "no_faults E'" "acquire (the_pool E') d' = Inr ()" "same_apis E E'"
    and fits: "fits 255 (sc_project_id sc)" "fits 64 (sc_user_id sc)" "fits 255 key"
  shows "register_as E' (Some REGISTER_CALLER) (again req sc2) d' s2 = (Inr resp, s2)"
proof -
  let ?fp = "fingerprint E (payload E req)"
  from success_recorded[OF first key scope(1) codec] later(1)
  obtain w where w: "w \<in> set (writes s2)" "ledger_key (coll E) w = claim_key (coll E) sc key"
    "w_rpc w = ''RegisterProject''" "w_fingerprint w = ?fp" "decode_response E (w_response w) = Some resp"
    by (auto simp: recorded_def)
  obtain cls where "register_checks (uuid_api E) req = Inr (sc, cls)"
    using first by (cases rule: register_success) (use scope(1) in \<open>auto simp: register_checks_Inr\<close>)
  then have checks: "register_checks (uuid_api E') (again req sc2) = Inr (sc2, cls)"
    using again_checks scope(2) E'(3) by (simp add: same_apis_def)
  have fp: "fingerprint E' (payload E' (again req sc2)) = ?fp"
    using E'(3) by (simp add: same_apis_def fingerprint_def payload_def again_def)
  have ck: "claim_key (coll E') sc2 key = claim_key (coll E) sc key"
    using scope(2) E'(3) by (simp add: claim_key_def same_caller_def same_apis_def)
  have p: "present (rg_idempotency (again req sc2)) = Some key" using key by (simp add: again_def)
  have wf: "write_fits (claim_row sc2 ''RegisterProject'' key fp)" for fp
    using fits scope(2) by (simp add: write_fits_claim_row same_caller_def fits_def chars_count_def)
  show ?thesis
    using held_key_run[OF E'(1,2) checks p wf w(1)] later(2) w E'(3)
    by (simp add: fp ck same_apis_def)
qed

text \<open>C18. A key that carries another request is refused: the same key with different bytes is
  INVALID_ARGUMENT, whatever the new request asks for, and nothing changes.\<close>

theorem register_key_conflict:
  assumes held: "w \<in> set (writes s)" "ledger_key (coll E) w = claim_key (coll E) sc key"
      "w_rpc w \<noteq> ''RegisterProject'' \<or> w_fingerprint w \<noteq> sha256 E (payload E req)"
    and good: "store_good (coll E) s"
    and E: "no_faults E" "acquire (the_pool E) d = Inr ()"
    and ok: "register_checks (uuid_api E) req = Inr (sc, cls)"
    and key: "present (rg_idempotency req) = Some key"
    and fits: "fits 255 (sc_project_id sc)" "fits 64 (sc_user_id sc)" "fits 255 key"
  shows "\<exists>why \<in> {Key_other_operation, Key_other_request}.
    register_as E (Some REGISTER_CALLER) req d s = (Inl (Status Invalid_argument (In_engine why)), s)"
proof -
  have wf: "write_fits (claim_row sc ''RegisterProject'' key fp)" for fp
    using fits by (simp add: write_fits_claim_row fits_def chars_count_def)
  show ?thesis
    using held_key_run[OF E ok key wf held(1,2) good] held(3) by (auto simp: fingerprint_def)
qed

section \<open>No oracle\<close>

text \<open>C17. What \<open>RegisterProject\<close> tells its caller about a path outside its own root depends on the
  request alone: every store, every pool and every fault gives the one same refusal, which is not
  ALREADY_EXISTS and names nothing the store holds.\<close>

theorem register_no_oracle:
  assumes "\<And>sc seg. rg_scope req = Some sc \<Longrightarrow> account_segment U (sc_user_id sc) = Some seg \<Longrightarrow>
      \<not> is_under_own_root (rg_path req) seg"
  shows "\<exists>e. code_of e \<noteq> Already_exists \<and> discloses (reason_of e) = {}
    \<and> (\<forall>E d s. uuid_api E = U \<longrightarrow> register_as E (Some REGISTER_CALLER) req d s = (Inl e, s))"
proof -
  have "\<not> (\<exists>sc cls. register_checks U req = Inr (sc, cls))"
    using assms by (auto simp: register_checks_Inr Class_of_Inr)
  then obtain e where e: "register_checks U req = Inl e"
    by (cases "register_checks U req") auto
  then have "code_of e \<noteq> Already_exists \<and> discloses (reason_of e) = {}"
    by (auto simp: register_checks_def also_check_eq_Inl scope_of_def validate_def
        refuse_reserved_root_def display_name_check_def Class_of_def discloses_def
        split: option.splits if_splits)
  with e show ?thesis by (auto simp: register_as_def admit_register_def register_def)
qed

section \<open>Every success\<close>

text \<open>C2. A success means the caller was \<open>project\<close>, the path is a legal one under the root of the
  user the scope names, and the call either answered from the ledger and changed nothing, or
  added exactly one private row at a free path and, when it carried an idempotency key, one ledger
  row.\<close>

theorem register_effect:
  assumes "register_as E caller req d s = (Inr resp, s')"
  shows "caller = Some REGISTER_CALLER
    \<and> (\<exists>sc seg. rg_scope req = Some sc \<and> path_ok (rg_path req)
         \<and> account_segment (uuid_api E) (sc_user_id sc) = Some seg
         \<and> is_under_own_root (rg_path req) seg \<and> rg_source_repo req = []
         \<and> (replayed E req sc resp s \<and> s' = s \<or> registered E req sc resp s s'))"
  using assms by (cases rule: register_success) (auto simp: register_checks_Inr Class_of_Inr)

end
