(* ===== verification/Sync.thy ===== *)
theory Sync
  imports Grants
begin

text \<open>
  \<open>src/write/sync.rs\<close>: \<open>SyncProjects\<close>, the organisation's whole declaration applied in one
  transaction and the only writer of org-class rows. The request is validated whole; then the
  sentinel lock, the read of every org-class row, the alias rule, the two guards, the rows, the
  archive and the grants.
\<close>

section \<open>Admission\<close>

definition SYNC_CALLER :: string where
  "SYNC_CALLER = ''project-caller''"

definition MAX_CHARS :: nat where
  "MAX_CHARS = 255"

definition MAX_PRINCIPAL_CHARS :: nat where
  "MAX_PRINCIPAL_CHARS = 64"

definition admit_sync :: "string option \<Rightarrow> status + unit" where
  "admit_sync caller =
     (if caller = Some SYNC_CALLER then Inr ()
      else refused Permission_denied In_sync (Sync_not_admitted caller))"

definition principal :: "string \<Rightarrow> status + string" where
  "principal user_id =
     (let chars = chars_count user_id in
      if chars = 0 \<or> chars > MAX_PRINCIPAL_CHARS
      then refused Invalid_argument In_sync (Principal_width chars)
      else Inr user_id)"

definition admitted :: "string option \<Rightarrow> scope option \<Rightarrow> status + string" where
  "admitted caller sc =
     also_check (admit_sync caller) (\<lambda>_.
     (case sc of
        None \<Rightarrow> refused Invalid_argument In_sync Sync_scope_required
      | Some x \<Rightarrow> principal (sc_user_id x)))"

section \<open>Validation\<close>

definition width_check :: "string \<Rightarrow> string \<Rightarrow> string \<Rightarrow> status + unit" where
  "width_check field p value =
     (if chars_count value > MAX_CHARS
      then refused Invalid_argument In_sync (Field_wide field p (chars_count value)) else Inr ())"

definition sync_row :: "string \<Rightarrow> declared_project \<Rightarrow> status + declared" where
  "sync_row what d =
     also_check (validate what (dp_path d)) (\<lambda>_.
     also_check (refuse_reserved_root what (dp_path d)) (\<lambda>_.
     if is_private_class (dp_path d)
     then refused Invalid_argument In_sync (Declared_private what (dp_path d))
     else if dp_source_repo d = []
     then refused Invalid_argument In_sync (No_source_repo (dp_path d))
     else also_check (width_check ''source_repo'' (dp_path d) (dp_source_repo d)) (\<lambda>_.
          also_check (width_check ''display_name'' (dp_path d) (dp_display_name d)) (\<lambda>_.
          also_check (validate_grants d) (\<lambda>gs.
            Inr \<lparr>dc_key = to_ascii_lowercase (dp_path d), dc_path = dp_path d,
                 dc_display_name = dp_display_name d, dc_source_repo = dp_source_repo d,
                 dc_grants = gs\<rparr>)))))"

definition root_row :: "declared_project \<Rightarrow> status + declared" where
  "root_row d =
     also_check (sync_row ''roots[].path'' d) (\<lambda>row.
       if slash \<in> set (dp_path d)
       then refused Invalid_argument In_sync (Root_deep (dp_path d)) else Inr row)"

text \<open>The first piece of a split always exists.\<close>

definition project_row_of :: "string set \<Rightarrow> declared_project \<Rightarrow> status + declared" where
  "project_row_of roots d =
     also_check (sync_row ''projects[].path'' d) (\<lambda>row.
       if slash \<notin> set (dc_key row) \<or> hd (split_on slash (dc_key row)) \<notin> roots
       then refused Invalid_argument In_sync (Not_under_root (dp_path d)) else Inr row)"

fun rows_of :: "(declared_project \<Rightarrow> status + declared) \<Rightarrow> declared_project list \<Rightarrow> status + declared list" where
  "rows_of f [] = Inr []"
| "rows_of f (d # ds) = also_check (f d) (\<lambda>row. also_check (rows_of f ds) (\<lambda>rows. Inr (row # rows)))"

fun refuse_duplicates_from :: "string set \<Rightarrow> declared list \<Rightarrow> status + unit" where
  "refuse_duplicates_from seen [] = Inr ()"
| "refuse_duplicates_from seen (d # ds) =
     (if dc_key d \<in> seen then refused Invalid_argument In_sync (Declared_twice (dc_path d))
      else refuse_duplicates_from (insert (dc_key d) seen) ds)"

definition refuse_duplicates :: "declared list \<Rightarrow> status + unit" where
  "refuse_duplicates ds = refuse_duplicates_from {} ds"

definition validate_sync :: "sync_request \<Rightarrow> status + declared list" where
  "validate_sync req =
     (if sy_roots req = [] then refused Invalid_argument In_sync No_roots
      else also_check (rows_of root_row (sy_roots req)) (\<lambda>roots.
           also_check (rows_of (project_row_of (set (map dc_key roots))) (sy_projects req)) (\<lambda>projs.
           also_check (refuse_duplicates (roots @ projs)) (\<lambda>_. Inr (roots @ projs)))))"

section \<open>Reading the store\<close>

record stored =
  st_id :: string
  st_path :: string
  st_display_name :: string
  st_source_repo :: "string option"
  st_status :: int

definition stored_of :: "project_row \<Rightarrow> stored" where
  "stored_of r = \<lparr>st_id = id_of r, st_path = path r, st_display_name = display_name r,
                  st_source_repo = source_repo r, st_status = row_status r\<rparr>"

definition lock_sync :: "env \<Rightarrow> nat txm" where
  "lock_sync E = stmt E (select_one (\<lambda>s. find (\<lambda>n. n = 1) (sync_lock s)))"

definition read_stored :: "env \<Rightarrow> stored list txm" where
  "read_stored E = stmt E (select (\<lambda>s. map stored_of (filter (\<lambda>r. owner_user_id r = None) (projects s))))"

text \<open>The statement has no ORDER BY: when several declared paths are former paths, which of them the
  refusal names is the engine's choice; here it is the first by age. Whether it refuses, and with
  what code, does not depend on that.\<close>

definition refuse_aliases :: "env \<Rightarrow> declared list \<Rightarrow> unit txm" where
  "refuse_aliases E ds =
     and_then (stmt E (select (\<lambda>s. map_option alias_path
        (find (\<lambda>a. list_ex (\<lambda>d. same_path (coll E) (alias_path a) (dc_path d)) ds) (aliases s)))))
       (\<lambda>hit. case hit of
          None \<Rightarrow> ret ()
        | Some a \<Rightarrow>
            (let p = (case find (\<lambda>d. dc_key d = to_ascii_lowercase a) ds of
                        Some d \<Rightarrow> dc_path d | None \<Rightarrow> a)
             in fail (Status Already_exists (In_sync (Declared_former_path p)))))"

text \<open>The \<open>HashMap\<close> by folded path: of two rows at one key the later wins.\<close>

definition by_key :: "stored list \<Rightarrow> string \<Rightarrow> stored option" where
  "by_key rows = map_of (rev (map (\<lambda>st. (to_ascii_lowercase (st_path st), st)) rows))"

definition archive_guard :: "nat \<Rightarrow> nat \<Rightarrow> bool \<Rightarrow> status + unit" where
  "archive_guard archiving active allowed =
     (if allowed \<or> archiving * 2 \<le> active then Inr ()
      else refused Failed_precondition In_sync (Mass_archive archiving active))"

section \<open>Writing the rows\<close>

definition org_project_row :: "declared \<Rightarrow> string \<Rightarrow> string \<Rightarrow> int \<Rightarrow> project_row" where
  "org_project_row d actor pid now =
     \<lparr>id_of = pid, version = 1, path = dc_path d, display_name = dc_display_name d,
      row_status = status_i8 Active, source_repo = Some (dc_source_repo d), owner_user_id = None,
      row_visibility = visibility_i8 Org, created_by = actor, updated_by = actor,
      created_at = now, updated_at = now, last_seen_at = None\<rparr>"

definition insert_declared :: "env \<Rightarrow> declared \<Rightarrow> string \<Rightarrow> string txm" where
  "insert_declared E d actor =
     and_then (mint E) (\<lambda>pid.
     and_then (stmt E (insert_project (coll E) (org_project_row d actor pid))) (\<lambda>_. ret pid))"

definition overwrite :: "declared \<Rightarrow> string \<Rightarrow> int \<Rightarrow> project_row \<Rightarrow> project_row" where
  "overwrite d actor now r =
     r\<lparr>display_name := dc_display_name d, source_repo := Some (dc_source_repo d),
       row_status := status_i8 Active, version := version r + 1, updated_by := actor,
       updated_at := now\<rparr>"

definition write_one ::
  "env \<Rightarrow> declared \<Rightarrow> stored option \<Rightarrow> string \<Rightarrow> sync_response \<Rightarrow> (string \<times> sync_response) txm" where
  "write_one E d st actor resp =
     (case st of
        None \<Rightarrow>
          and_then (insert_declared E d actor) (\<lambda>pid.
            ret (pid, resp\<lparr>inserted := inserted resp + 1\<rparr>))
      | Some st \<Rightarrow>
          (let differs = (st_display_name st \<noteq> dc_display_name d
                          \<or> st_source_repo st \<noteq> Some (dc_source_repo d));
               reactivating = (st_status st \<noteq> status_i8 Active) in
           if \<not> differs \<and> \<not> reactivating
           then ret (st_id st, resp\<lparr>unchanged := unchanged resp + 1\<rparr>)
           else and_then (stmt E (update_projects (coll E)
                    (\<lambda>_ r. same_id (coll E) (id_of r) (st_id st)) (overwrite d actor))) (\<lambda>_.
                ret (st_id st,
                  if reactivating then resp\<lparr>reactivated := reactivated resp + 1\<rparr>
                  else resp\<lparr>updated := updated resp + 1\<rparr>))))"

definition archived_row :: "string \<Rightarrow> int \<Rightarrow> project_row \<Rightarrow> project_row" where
  "archived_row actor now r =
     r\<lparr>row_status := status_i8 Archived, version := version r + 1, updated_by := actor,
       updated_at := now\<rparr>"

definition archive_ids :: "env \<Rightarrow> string list \<Rightarrow> string \<Rightarrow> unit txm" where
  "archive_ids E ids actor =
     (if ids = [] then ret ()
      else stmt E (update_projects (coll E)
             (\<lambda>_ r. list_ex (same_id (coll E) (id_of r)) ids) (archived_row actor)))"

section \<open>The whole sync\<close>

definition write_rows ::
  "env \<Rightarrow> stored list \<Rightarrow> string \<Rightarrow> declared list
   \<Rightarrow> (sync_response \<times> (string \<Rightarrow> string option)) txm" where
  "write_rows E rows actor ds =
     for_each (\<lambda>d (resp, ids).
       and_then (write_one E d (by_key rows (dc_key d)) actor resp) (\<lambda>(pid, resp').
         ret (resp', ids(dc_key d \<mapsto> pid)))) ds (sync_default, Map.empty)"

definition to_archive :: "stored list \<Rightarrow> declared list \<Rightarrow> string list" where
  "to_archive rows ds =
     map st_id (filter (\<lambda>st. st_status st = status_i8 Active
                             \<and> to_ascii_lowercase (st_path st) \<notin> set (map dc_key ds)) rows)"

definition active_count :: "stored list \<Rightarrow> nat" where
  "active_count rows = length (filter (\<lambda>st. st_status st = status_i8 Active) rows)"

definition sync_apply ::
  "env \<Rightarrow> declared list \<Rightarrow> string \<Rightarrow> bool \<Rightarrow> bool \<Rightarrow> sync_response txm" where
  "sync_apply E ds actor allow_mass_archive allow_mass_revoke =
     and_then (lock_sync E) (\<lambda>_.
     and_then (read_stored E) (\<lambda>rows.
     and_then (refuse_aliases E ds) (\<lambda>_.
     and_then (lift (archive_guard (length (to_archive rows ds)) (active_count rows) allow_mass_archive)) (\<lambda>_.
     and_then (stored_grants E) (\<lambda>grants.
     (let plan = grants_plan ds grants in
     and_then (lift (revoke_guard (length (gp_deletes plan)) (length grants) allow_mass_revoke)) (\<lambda>_.
     and_then (write_rows E rows actor ds) (\<lambda>(resp, ids).
     and_then (archive_ids E (to_archive rows ds) actor) (\<lambda>_.
     and_then (write_grants E plan ids) (\<lambda>_.
       ret (resp\<lparr>archived := of_nat (length (to_archive rows ds)),
                 grants_declared := sum_list (map (\<lambda>d. of_nat (length (dc_grants d))) ds),
                 grants_inserted := of_nat (length (gp_inserts plan)),
                 grants_deleted := of_nat (length (gp_deletes plan)),
                 grants_unchanged := gp_unchanged plan\<rparr>)))))))))))"

text \<open>A refusal of \<open>apply\<close> is rolled back, a response is committed.\<close>

definition settle :: "'a txm \<Rightarrow> 'a finish txm" where
  "settle m = (\<lambda>t. case m t of
     (Inl e, t') \<Rightarrow> (Inr (Rollback (Inl e)), t') | (Inr x, t') \<Rightarrow> (Inr (Commit x), t'))"

definition sync_as ::
  "env \<Rightarrow> string option \<Rightarrow> sync_request \<Rightarrow> deadline \<Rightarrow> store
   \<Rightarrow> (status + sync_response) \<times> store" where
  "sync_as E caller req d s =
     (case also_check (admitted caller (sy_scope req)) (\<lambda>actor.
             also_check (validate_sync req) (\<lambda>ds. Inr (actor, ds))) of
        Inl e \<Rightarrow> (Inl e, s)
      | Inr (actor, ds) \<Rightarrow>
          run_tx E d (settle (sync_apply E ds actor (sy_allow_mass_archive req)
                                (sy_allow_mass_revoke req))) s)"

section \<open>What validation establishes\<close>

definition declared_ok :: "declared \<Rightarrow> bool" where
  "declared_ok d \<longleftrightarrow>
     dc_key d = to_ascii_lowercase (dc_path d) \<and> path_ok (dc_path d)
     \<and> \<not> eq_ignore_ascii_case (dc_path d) RESERVED_ROOT \<and> \<not> is_private_class (dc_path d)
     \<and> dc_source_repo d \<noteq> [] \<and> chars_count (dc_source_repo d) \<le> 255
     \<and> chars_count (dc_display_name d) \<le> 255
     \<and> distinct (map fst (dc_grants d)) \<and> (\<forall>(t, l) \<in> set (dc_grants d). is_team_id t \<and> l \<in> {1, 2})"

definition declaration_ok :: "declared list \<Rightarrow> bool" where
  "declaration_ok ds \<longleftrightarrow> ds \<noteq> [] \<and> (\<forall>d \<in> set ds. declared_ok d) \<and> distinct (map dc_key ds)"

lemma sync_row_Inr:
  assumes "sync_row what d = Inr row"
  shows "declared_ok row \<and> dc_path row = dp_path d \<and> dc_display_name row = dp_display_name d
    \<and> dc_source_repo row = dp_source_repo d
    \<and> dc_grants row = map (\<lambda>g. (dg_team_id g, dg_level g)) (dp_grants d)"
proof -
  from assms obtain gs where gs: "validate_grants d = Inr gs"
    and row: "row = \<lparr>dc_key = to_ascii_lowercase (dp_path d), dc_path = dp_path d,
                 dc_display_name = dp_display_name d, dc_source_repo = dp_source_repo d,
                 dc_grants = gs\<rparr>"
    and ok: "path_ok (dp_path d)" "\<not> eq_ignore_ascii_case (dp_path d) RESERVED_ROOT"
      "\<not> is_private_class (dp_path d)" "dp_source_repo d \<noteq> []"
      "chars_count (dp_source_repo d) \<le> 255" "chars_count (dp_display_name d) \<le> 255"
    by (auto simp: sync_row_def also_check_eq_Inr validate_ok_iff refuse_reserved_root_def
        width_check_def MAX_CHARS_def split: if_splits)
  have "gs = map (\<lambda>g. (dg_team_id g, dg_level g)) (dp_grants d)
     \<and> (\<forall>(t, l) \<in> set gs. is_team_id t \<and> l \<in> {1, 2} \<and> t \<notin> {}) \<and> distinct (map fst gs)"
    using validate_grants_from_Inr gs unfolding validate_grants_def by blast
  with row ok show ?thesis by (auto simp: declared_ok_def)
qed

lemma rows_of_Inr:
  "rows_of f ds = Inr rows \<Longrightarrow> list_all2 (\<lambda>d row. f d = Inr row) ds rows"
  by (induction ds arbitrary: rows) (auto simp: also_check_eq_Inr)

lemma rows_of_mem:
  "rows_of f ds = Inr rows \<Longrightarrow> r \<in> set rows \<Longrightarrow> \<exists>d \<in> set ds. f d = Inr r"
  by (induction ds arbitrary: rows) (auto simp: also_check_eq_Inr)

lemma refuse_duplicates_Inr:
  "refuse_duplicates_from seen ds = Inr u \<longleftrightarrow>
     distinct (map dc_key ds) \<and> (\<forall>d \<in> set ds. dc_key d \<notin> seen)"
  by (induction ds arbitrary: seen) (auto simp: image_iff)

lemma validate_sync_ok:
  assumes "validate_sync req = Inr ds"
  shows "declaration_ok ds"
proof -
  from assms obtain roots projs where
    r: "rows_of root_row (sy_roots req) = Inr roots" and ne: "sy_roots req \<noteq> []"
    and p: "rows_of (project_row_of (set (map dc_key roots))) (sy_projects req) = Inr projs"
    and dup: "refuse_duplicates (roots @ projs) = Inr ()" and ds: "ds = roots @ projs"
    by (auto simp: validate_sync_def also_check_eq_Inr split: if_splits)
  have "roots \<noteq> []" using rows_of_Inr[OF r] ne by auto
  moreover have "declared_ok d" if d: "d \<in> set ds" for d
  proof -
    from d ds rows_of_mem[OF r] rows_of_mem[OF p] obtain x where
      "root_row x = Inr d \<or> project_row_of (set (map dc_key roots)) x = Inr d"
      by (metis Un_iff set_append)
    then obtain what where "sync_row what x = Inr d"
      by (auto simp: root_row_def project_row_of_def also_check_eq_Inr split: if_splits)
    then show ?thesis using sync_row_Inr by blast
  qed
  moreover have "distinct (map dc_key ds)"
    using dup by (auto simp: refuse_duplicates_def refuse_duplicates_Inr ds)
  ultimately show ?thesis using ds by (auto simp: declaration_ok_def)
qed

end
