(* ===== verification/Sync_Rows.thy ===== *)
theory Sync_Rows
  imports Sync
begin

text \<open>
  The row half of a sync against a one-shot specification: what each stored row becomes and which
  rows are new, for a whole declaration at once. The loop of the code is shown to compute it,
  one declared row at a time.
\<close>

section \<open>The specification\<close>

definition folded :: "project_row \<Rightarrow> string" where
  "folded r = to_ascii_lowercase (path r)"

definition org :: "project_row \<Rightarrow> bool" where
  "org r \<longleftrightarrow> owner_user_id r = None"

definition up_to_date :: "declared \<Rightarrow> project_row \<Rightarrow> bool" where
  "up_to_date d r \<longleftrightarrow>
     display_name r = dc_display_name d \<and> source_repo r = Some (dc_source_repo d)
     \<and> row_status r = status_i8 Active"

text \<open>What a stored row becomes under the declared rows \<open>ds\<close>.\<close>

definition settled_row :: "declared list \<Rightarrow> string \<Rightarrow> int \<Rightarrow> project_row \<Rightarrow> project_row" where
  "settled_row ds actor now r =
     (case find (\<lambda>d. org r \<and> dc_key d = folded r) ds of
        Some d \<Rightarrow> if up_to_date d r then r else overwrite d actor now r
      | None \<Rightarrow> r)"

definition stored_at :: "store \<Rightarrow> declared \<Rightarrow> project_row \<Rightarrow> bool" where
  "stored_at s d r \<longleftrightarrow> r \<in> set (projects s) \<and> org r \<and> folded r = dc_key d"

definition unstored :: "store \<Rightarrow> declared \<Rightarrow> bool" where
  "unstored s d \<longleftrightarrow> (\<forall>r \<in> set (projects s). \<not> (org r \<and> folded r = dc_key d))"

definition new_rows :: "declared list \<Rightarrow> string \<Rightarrow> project_row list \<Rightarrow> bool" where
  "new_rows ds actor news \<longleftrightarrow>
     list_all2 (\<lambda>d r. \<exists>pid now. r = org_project_row d actor pid now) ds news"

definition is_kept :: "store \<Rightarrow> declared \<Rightarrow> bool" where
  "is_kept s d \<longleftrightarrow> (\<exists>r. stored_at s d r \<and> up_to_date d r)"

definition is_revived :: "store \<Rightarrow> declared \<Rightarrow> bool" where
  "is_revived s d \<longleftrightarrow> (\<exists>r. stored_at s d r \<and> row_status r \<noteq> status_i8 Active)"

definition is_edited :: "store \<Rightarrow> declared \<Rightarrow> bool" where
  "is_edited s d \<longleftrightarrow> (\<exists>r. stored_at s d r \<and> row_status r = status_i8 Active \<and> \<not> up_to_date d r)"

definition counted :: "store \<Rightarrow> declared list \<Rightarrow> sync_response \<Rightarrow> bool" where
  "counted s ds resp \<longleftrightarrow>
     inserted resp = of_nat (length (filter (unstored s) ds))
     \<and> unchanged resp = of_nat (length (filter (is_kept s) ds))
     \<and> reactivated resp = of_nat (length (filter (is_revived s) ds))
     \<and> updated resp = of_nat (length (filter (is_edited s) ds))"

definition ids_known :: "store \<Rightarrow> declared list \<Rightarrow> (string \<Rightarrow> string option) \<Rightarrow> bool" where
  "ids_known s ds ids \<longleftrightarrow>
     (\<forall>d \<in> set ds. \<exists>r. stored_at s d r \<and> ids (dc_key d) = Some (id_of r))"

definition rows_settled ::
  "collations \<Rightarrow> store \<Rightarrow> string \<Rightarrow> declared list \<Rightarrow> store \<Rightarrow> bool" where
  "rows_settled C s0 actor ds s \<longleftrightarrow>
     store_good C s \<and> aliases s = aliases s0 \<and> writes s = writes s0 \<and> grants s = grants s0
     \<and> (\<exists>nowf news. projects s = map (\<lambda>r. settled_row ds actor (nowf r) r) (projects s0) @ news
          \<and> new_rows (filter (unstored s0) ds) actor news)"

lemma rows_settledI:
  assumes "store_good C s" "aliases s = aliases s0" "writes s = writes s0" "grants s = grants s0"
    and "projects s = map (\<lambda>r. settled_row ds actor (nowf r) r) (projects s0) @ news"
    and "new_rows (filter (unstored s0) ds) actor news"
  shows "rows_settled C s0 actor ds s"
  using assms unfolding rows_settled_def by blast

lemma rows_settledE:
  assumes "rows_settled C s0 actor ds s"
  obtains nowf news where "store_good C s" "aliases s = aliases s0" "writes s = writes s0"
    "grants s = grants s0"
    "projects s = map (\<lambda>r. settled_row ds actor (nowf r) r) (projects s0) @ news"
    "new_rows (filter (unstored s0) ds) actor news"
  using assms unfolding rows_settled_def by blast

section \<open>One declared row\<close>

lemma settled_row_keeps [simp]:
  "id_of (settled_row ds actor now r) = id_of r" "path (settled_row ds actor now r) = path r"
  "owner_user_id (settled_row ds actor now r) = owner_user_id r"
  "org (settled_row ds actor now r) = org r" "folded (settled_row ds actor now r) = folded r"
  by (auto simp: settled_row_def overwrite_def org_def folded_def split: option.splits)

lemma overwrite_keeps [simp]:
  "id_of (overwrite d actor now r) = id_of r" "path (overwrite d actor now r) = path r"
  "owner_user_id (overwrite d actor now r) = owner_user_id r"
  by (simp_all add: overwrite_def)

lemma org_project_row_keeps [simp]:
  "id_of (org_project_row d actor pid now) = pid" "path (org_project_row d actor pid now) = dc_path d"
  "owner_user_id (org_project_row d actor pid now) = None"
  by (simp_all add: org_project_row_def)

text \<open>A folded path names one row.\<close>

lemma folded_unique:
  assumes "path_collation (ci_key C)" "projects_good C rows"
    and "r \<in> set rows" "r' \<in> set rows" "folded r = folded r'"
  shows "r = r'"
proof -
  have "path_ok (path r)" "path_ok (path r')"
    using assms(2,3,4) by (auto dest: projects_good_row simp: row_good_def)
  then have "same_path C (path r) (path r')"
    using path_collation.ck_path[OF assms(1)] assms(5)
    by (simp add: same_path_def folded_def eq_ignore_ascii_case_def)
  then show ?thesis using projects_good_path_eq assms(2,3,4) by blast
qed

lemma settled_row_other:
  "\<not> (org r \<and> dc_key d = folded r) \<Longrightarrow>
   settled_row (ds @ [d]) actor now r = settled_row ds actor now r"
proof -
  assume "\<not> (org r \<and> dc_key d = folded r)"
  then have "find (\<lambda>d. org r \<and> dc_key d = folded r) (ds @ [d]) = find (\<lambda>d. org r \<and> dc_key d = folded r) ds"
    by (induction ds) auto
  then show ?thesis by (simp add: settled_row_def)
qed

lemma settled_row_this:
  assumes "dc_key d = folded r" "org r" "dc_key d \<notin> set (map dc_key ds)"
  shows "settled_row ds actor now r = r"
    and "settled_row (ds @ [d]) actor now r = (if up_to_date d r then r else overwrite d actor now r)"
proof -
  have none: "find (\<lambda>d. org r \<and> dc_key d = folded r) ds = None"
    using assms by (force simp: find_None_iff)
  then have "find (\<lambda>d. org r \<and> dc_key d = folded r) (ds @ [d]) = Some d"
    using assms(1,2) by (induction ds) (auto split: if_splits)
  with none show "settled_row ds actor now r = r"
    and "settled_row (ds @ [d]) actor now r = (if up_to_date d r then r else overwrite d actor now r)"
    by (simp_all add: settled_row_def)
qed

lemma by_key_None:
  "by_key (map stored_of (filter (\<lambda>r. owner_user_id r = None) (projects s))) (dc_key d) = None \<longleftrightarrow> unstored s d"
  by (auto simp: by_key_def map_of_eq_None_iff unstored_def stored_of_def org_def folded_def
      image_image image_iff)

lemma by_key_Some:
  assumes "by_key (map stored_of (filter (\<lambda>r. owner_user_id r = None) (projects s))) (dc_key d) = Some st"
  shows "\<exists>r. stored_at s d r \<and> st = stored_of r"
proof -
  from assms have "(dc_key d, st) \<in> set (map (\<lambda>st. (to_ascii_lowercase (st_path st), st))
      (map stored_of (filter (\<lambda>r. owner_user_id r = None) (projects s))))"
    unfolding by_key_def using map_of_SomeD by fastforce
  then show ?thesis by (auto simp: stored_at_def stored_of_def org_def folded_def)
qed

lemma new_rows_append:
  "new_rows ds actor news \<Longrightarrow> new_rows (ds @ [d]) actor (news @ [org_project_row d actor pid now])"
  unfolding new_rows_def by (rule list_all2_appendI) auto

text \<open>The inserted row is good; so is a rewritten one.\<close>

lemma org_project_row_good:
  assumes "declared_ok d" "row_refusal C (org_project_row d actor pid now) = None"
  shows "row_good C (org_project_row d actor pid now)"
  using assms by (simp add: row_good_def declared_ok_def org_project_row_def)

lemma overwrite_good:
  assumes "declared_ok d" "row_good C r" "org r" "row_refusal C (overwrite d actor now r) = None"
  shows "row_good C (overwrite d actor now r)"
  using assms by (auto simp: row_good_def declared_ok_def overwrite_def org_def)

lemma insert_step:
  assumes settled: "rows_settled C s0 actor ds s" and d: "declared_ok d" "unstored s0 d"
    and free: "\<forall>a \<in> set (aliases s0). \<not> same_path C (alias_path a) (dc_path d)"
    and ins: "insert_project C (org_project_row d actor pid) now s = Inr (u, s')"
  shows "rows_settled C s0 actor (ds @ [d]) s'"
proof -
  from ins have s': "s' = s\<lparr>projects := projects s @ [org_project_row d actor pid now]\<rparr>"
    and ref: "row_refusal C (org_project_row d actor pid now) = None"
    by (auto simp: insert_project_Inr)
  have "store_good C s'"
    using insert_project_good[OF ins _ org_project_row_good[OF d(1) ref]] settled free
    by (simp add: rows_settled_def)
  moreover from settled obtain nowf news where
    rows: "projects s = map (\<lambda>r. settled_row ds actor (nowf r) r) (projects s0) @ news"
    and news: "new_rows (filter (unstored s0) ds) actor news" by (auto simp: rows_settled_def)
  have "map (\<lambda>r. settled_row (ds @ [d]) actor (nowf r) r) (projects s0)
      = map (\<lambda>r. settled_row ds actor (nowf r) r) (projects s0)"
    using d(2) by (auto simp: unstored_def intro!: settled_row_other)
  then have "projects s' = map (\<lambda>r. settled_row (ds @ [d]) actor (nowf r) r) (projects s0)
      @ (news @ [org_project_row d actor pid now])"
    using rows s' by simp
  moreover have "new_rows (filter (unstored s0) (ds @ [d])) actor (news @ [org_project_row d actor pid now])"
    using new_rows_append[OF news] d(2) by simp
  ultimately show ?thesis using settled s' by (intro rows_settledI) (auto elim: rows_settledE)
qed

lemma keep_step:
  assumes settled: "rows_settled C s0 actor ds s" and C: "path_collation (ci_key C)" "store_good C s0"
    and at: "stored_at s0 d r0" "up_to_date d r0" and fresh: "dc_key d \<notin> set (map dc_key ds)"
  shows "rows_settled C s0 actor (ds @ [d]) s"
proof -
  from settled obtain nowf news where
    rows: "projects s = map (\<lambda>r. settled_row ds actor (nowf r) r) (projects s0) @ news"
    and news: "new_rows (filter (unstored s0) ds) actor news" by (auto simp: rows_settled_def)
  have one: "r \<in> set (projects s0) \<Longrightarrow> org r \<Longrightarrow> dc_key d = folded r \<Longrightarrow> r = r0" for r
    using folded_unique[OF C(1) store_good_projects[OF C(2)]] at(1) by (auto simp: stored_at_def)
  have same: "settled_row (ds @ [d]) actor (nowf r) r = settled_row ds actor (nowf r) r"
    if r: "r \<in> set (projects s0)" for r
  proof (cases "org r \<and> dc_key d = folded r")
    case True
    then show ?thesis using one[OF r] settled_row_this[of d r ds] fresh at(2) by auto
  qed (rule settled_row_other)
  have "projects s = map (\<lambda>r. settled_row (ds @ [d]) actor (nowf r) r) (projects s0) @ news"
    using rows same by simp
  moreover have "\<not> unstored s0 d" using at(1) by (auto simp: unstored_def stored_at_def)
  ultimately show ?thesis using settled news
    by (intro rows_settledI[where nowf = nowf and news = news]) (auto elim: rows_settledE)
qed

lemma overwrite_step:
  assumes settled: "rows_settled C s0 actor ds s" and C: "path_collation (ci_key C)" "store_good C s0"
    and at: "stored_at s0 d r0" "\<not> up_to_date d r0" and fresh: "dc_key d \<notin> set (map dc_key ds)"
    and d: "declared_ok d"
    and upd: "update_projects C (\<lambda>_ r. same_id C (id_of r) (id_of r0)) (overwrite d actor) now s = Inr (u, s')"
  shows "rows_settled C s0 actor (ds @ [d]) s'"
proof -
  let ?P = "\<lambda>r. same_id C (id_of r) (id_of r0)"
  from settled obtain nowf news where
    rows: "projects s = map (\<lambda>r. settled_row ds actor (nowf r) r) (projects s0) @ news"
    and news: "new_rows (filter (unstored s0) ds) actor news"
    and good: "store_good C s" by (auto simp: rows_settled_def)
  from at(1) have r0: "r0 \<in> set (projects s0)" "org r0" "dc_key d = folded r0"
    by (auto simp: stored_at_def)
  have img0: "settled_row ds actor (nowf r0) r0 = r0" using settled_row_this(1)[OF r0(3,2) fresh] .
  then have in_s: "r0 \<in> set (projects s)" using r0(1) rows by (auto simp: image_iff intro!: bexI[of _ r0])
  have only: "r \<in> set (projects s) \<Longrightarrow> ?P r \<Longrightarrow> r = r0" for r
    using projects_good_id_eq[OF store_good_projects[OF good]] in_s by blast
  have only0: "r \<in> set (projects s0) \<Longrightarrow> ?P r \<longleftrightarrow> r = r0" for r
    using projects_good_id_eq[OF store_good_projects[OF C(2)]] r0(1) by (auto simp: same_id_def)
  have good': "store_good C s'"
  proof (rule update_projects_good[OF upd good])
    fix r assume "r \<in> set (projects s)" "?P r" "row_refusal C (overwrite d actor now r) = None" "row_good C r"
    then show "row_good C (overwrite d actor now r)"
      using only r0(2) overwrite_good[OF d] by blast
  qed simp
  let ?g = "\<lambda>r. if ?P r then overwrite d actor now r else r"
  have s': "s' = s\<lparr>projects := map ?g (projects s)\<rparr>" using upd by (auto simp: update_projects_Inr)
  have dist: "distinct (map (\<lambda>r. srv_key C (id_of r)) (projects s))"
    using good by (simp add: store_good_def projects_good_def)
  have "map ?g news = news"
  proof (rule map_idI)
    fix r assume r: "r \<in> set news"
    have "srv_key C (id_of r) \<noteq> srv_key C (id_of r0)"
      using dist r r0(1) unfolding rows by (auto simp: image_iff)
    then show "?g r = r" by (simp add: same_id_def)
  qed
  moreover have "?g (settled_row ds actor (nowf r) r) = settled_row (ds @ [d]) actor ((nowf(r0 := now)) r) r"
    if r: "r \<in> set (projects s0)" for r
  proof (cases "r = r0")
    case True
    then show ?thesis using img0 settled_row_this(2)[OF r0(3,2) fresh] at(2) by (simp add: same_id_def)
  next
    case False
    then have "\<not> (org r \<and> dc_key d = folded r)"
      using folded_unique[OF C(1) store_good_projects[OF C(2)] r r0(1)] r0(3) by auto
    with False show ?thesis using only0[OF r] settled_row_other by simp
  qed
  ultimately have "projects s' = map (\<lambda>r. settled_row (ds @ [d]) actor ((nowf(r0 := now)) r) r) (projects s0) @ news"
    using rows s' by simp
  moreover have "\<not> unstored s0 d" using r0 by (auto simp: unstored_def)
  ultimately show ?thesis using settled news good' s'
    by (intro rows_settledI[where nowf = "nowf(r0 := now)" and news = news]) (auto elim: rows_settledE)
qed

section \<open>The loop\<close>

text \<open>The rule of a loop whose invariant speaks of the part already done.\<close>

lemma hoare_for_each_prefix:
  assumes "\<And>done x rest b. xs = done @ x # rest \<Longrightarrow> hoare (I done b) (f x b) (I (done @ [x]))"
  shows "hoare (I [] b) (for_each f xs b) (I xs)"
proof -
  have "xs = done @ todo \<Longrightarrow> hoare (I done b) (for_each f todo b) (I xs)" for "done" todo b
  proof (induction todo arbitrary: "done" b)
    case Nil
    then show ?case by (simp add: hoare_def ret_run)
  next
    case (Cons x todo)
    show ?case unfolding for_each.simps
    proof (rule hoare_and_then)
      show "hoare (I done b) (f x b) (I (done @ [x]))" using assms Cons.prems by blast
      show "hoare (I (done @ [x]) b') (for_each f todo b') (I xs)" for b'
        using Cons.IH[of "done @ [x]"] Cons.prems by simp
    qed
  qed
  from this[of "[]" xs] show ?thesis by simp
qed

definition loop_inv ::
  "collations \<Rightarrow> store \<Rightarrow> string \<Rightarrow> declared list \<Rightarrow> sync_response \<times> (string \<Rightarrow> string option)
   \<Rightarrow> store \<Rightarrow> bool" where
  "loop_inv C s0 actor ds b s \<longleftrightarrow>
     rows_settled C s0 actor ds s \<and> counted s0 ds (fst b) \<and> ids_known s ds (snd b)"

lemma settled_stored_at:
  assumes "rows_settled C s0 actor ds s" "stored_at s0 d r"
  shows "\<exists>r'. stored_at s d r' \<and> id_of r' = id_of r"
proof -
  from assms(1) obtain nowf news where
    "projects s = map (\<lambda>r. settled_row ds actor (nowf r) r) (projects s0) @ news"
    by (auto simp: rows_settled_def)
  with assms(2) show ?thesis
    by (intro exI[of _ "settled_row ds actor (nowf r) r"]) (auto simp: stored_at_def)
qed

lemma ids_known_mono:
  assumes "ids_known s ds ids" and "\<And>d r. stored_at s d r \<Longrightarrow> \<exists>r'. stored_at s' d r' \<and> id_of r' = id_of r"
    and "stored_at s' d r" "dc_key d \<notin> set (map dc_key ds)"
  shows "ids_known s' (ds @ [d]) (ids(dc_key d \<mapsto> id_of r))"
  unfolding ids_known_def
proof (intro ballI)
  fix e assume "e \<in> set (ds @ [d])"
  then consider "e = d" | "e \<in> set ds" by auto
  then show "\<exists>r'. stored_at s' e r' \<and> (ids(dc_key d \<mapsto> id_of r)) (dc_key e) = Some (id_of r')"
  proof cases
    case 1
    then show ?thesis using assms(3) by auto
  next
    case 2
    then obtain q where "stored_at s e q" "ids (dc_key e) = Some (id_of q)"
      using assms(1) by (auto simp: ids_known_def)
    moreover have "dc_key e \<noteq> dc_key d" using 2 assms(4) by (metis image_eqI list.set_map)
    ultimately show ?thesis using assms(2) by (metis fun_upd_other)
  qed
qed

text \<open>Which count a declared row moves.\<close>

lemma counted_insert:
  assumes "counted s0 ds resp" "unstored s0 d"
  shows "counted s0 (ds @ [d]) (resp\<lparr>inserted := inserted resp + 1\<rparr>)"
proof -
  have "\<not> is_kept s0 d" "\<not> is_revived s0 d" "\<not> is_edited s0 d"
    using assms(2) by (auto simp: unstored_def is_kept_def is_revived_def is_edited_def stored_at_def)
  with assms show ?thesis by (simp add: counted_def)
qed

lemma counted_stored:
  assumes "counted s0 ds resp" and at: "stored_at s0 d r"
    and one: "\<And>r'. stored_at s0 d r' \<Longrightarrow> r' = r"
  shows "up_to_date d r \<Longrightarrow> counted s0 (ds @ [d]) (resp\<lparr>unchanged := unchanged resp + 1\<rparr>)"
    and "row_status r \<noteq> status_i8 Active \<Longrightarrow>
      counted s0 (ds @ [d]) (resp\<lparr>reactivated := reactivated resp + 1\<rparr>)"
    and "row_status r = status_i8 Active \<Longrightarrow> \<not> up_to_date d r \<Longrightarrow>
      counted s0 (ds @ [d]) (resp\<lparr>updated := updated resp + 1\<rparr>)"
proof -
  have only: "stored_at s0 d r' \<longleftrightarrow> r' = r" for r' using at one by blast
  have stored: "\<not> unstored s0 d" using at by (auto simp: unstored_def stored_at_def)
  have kinds: "is_kept s0 d = up_to_date d r"
    "is_revived s0 d = (row_status r \<noteq> status_i8 Active)"
    "is_edited s0 d = (row_status r = status_i8 Active \<and> \<not> up_to_date d r)"
    by (simp_all add: is_kept_def is_revived_def is_edited_def only del: status_i8.simps)
  have active: "up_to_date d r \<Longrightarrow> row_status r = status_i8 Active" by (simp add: up_to_date_def)
  show "counted s0 (ds @ [d]) (resp\<lparr>unchanged := unchanged resp + 1\<rparr>)" if "up_to_date d r"
    using assms(1) that stored kinds active by (simp add: counted_def del: status_i8.simps)
  show "counted s0 (ds @ [d]) (resp\<lparr>reactivated := reactivated resp + 1\<rparr>)"
    if "row_status r \<noteq> status_i8 Active"
    using assms(1) that stored kinds active by (auto simp: counted_def simp del: status_i8.simps)
  show "counted s0 (ds @ [d]) (resp\<lparr>updated := updated resp + 1\<rparr>)"
    if "row_status r = status_i8 Active" "\<not> up_to_date d r"
    using assms(1) that stored kinds active by (simp add: counted_def del: status_i8.simps)
qed

section \<open>Writing every declared row\<close>

lemma write_one_hoare:
  assumes C: "path_collation (ci_key (coll E))" "store_good (coll E) s0"
    and d: "declared_ok d" "dc_key d \<notin> set (map dc_key ds)"
    and free: "\<forall>a \<in> set (aliases s0). \<not> same_path (coll E) (alias_path a) (dc_path d)"
    and rows: "rows = map stored_of (filter (\<lambda>r. owner_user_id r = None) (projects s0))"
  shows "hoare (loop_inv (coll E) s0 actor ds (resp, ids))
     (and_then (write_one E d (by_key rows (dc_key d)) actor resp) (\<lambda>(pid, resp').
         ret (resp', ids(dc_key d \<mapsto> pid))))
     (loop_inv (coll E) s0 actor (ds @ [d]))"
proof -
  let ?C = "coll E" and ?I = "loop_inv (coll E) s0 actor ds (resp, ids)"
  let ?done = "\<lambda>pr s. rows_settled (coll E) s0 actor (ds @ [d]) s \<and> counted s0 (ds @ [d]) (snd pr)
    \<and> ids_known s (ds @ [d]) (ids(dc_key d \<mapsto> fst pr))"
  have "hoare ?I (write_one E d (by_key rows (dc_key d)) actor resp) ?done"
  proof (cases "by_key rows (dc_key d)")
    case None
    then have un: "unstored s0 d" by (simp add: rows by_key_None)
    have ins: "hoare ?I (stmt E (insert_project ?C (org_project_row d actor pid)))
        (\<lambda>_. ?done (pid, resp\<lparr>inserted := inserted resp + 1\<rparr>))" for pid
    proof (rule hoare_stmt)
      fix now s u s'
      assume I: "?I s" and run: "insert_project ?C (org_project_row d actor pid) now s = Inr (u, s')"
      then have settled: "rows_settled ?C s0 actor (ds @ [d]) s'"
        using insert_step[OF _ d(1) un free run] by (simp add: loop_inv_def)
      have s': "s' = s\<lparr>projects := projects s @ [org_project_row d actor pid now]\<rparr>"
        using run by (auto simp: insert_project_Inr)
      have "folded (org_project_row d actor pid now) = dc_key d"
        using d(1) by (simp add: folded_def declared_ok_def)
      then have at: "stored_at s' d (org_project_row d actor pid now)"
        by (simp add: stored_at_def s' org_def)
      have "ids_known s' (ds @ [d]) (ids(dc_key d \<mapsto> id_of (org_project_row d actor pid now)))"
        by (rule ids_known_mono[OF _ _ at d(2)]) (use I in \<open>auto simp: loop_inv_def stored_at_def s'\<close>)
      then show "?done (pid, resp\<lparr>inserted := inserted resp + 1\<rparr>) s'"
        using settled I counted_insert[OF _ un] by (simp add: loop_inv_def)
    qed
    show ?thesis unfolding write_one_def insert_declared_def None option.case
    proof (rule hoare_and_then[where R = "\<lambda>pid. ?done (pid, resp\<lparr>inserted := inserted resp + 1\<rparr>)"])
      show "hoare ?I (and_then (mint E) (\<lambda>pid.
          and_then (stmt E (insert_project ?C (org_project_row d actor pid))) (\<lambda>_. ret pid)))
          (\<lambda>pid. ?done (pid, resp\<lparr>inserted := inserted resp + 1\<rparr>))"
        by (rule hoare_and_then[where R = "\<lambda>_. ?I"], rule hoare_mint, assumption,
            rule hoare_and_then[OF ins], rule hoare_ret, assumption)
    qed (simp add: hoare_def ret_run)
  next
    case (Some st)
    then obtain r0 where at: "stored_at s0 d r0" and st: "st = stored_of r0"
      using by_key_Some rows by blast
    have one: "stored_at s0 d r' \<Longrightarrow> r' = r0" for r'
      using folded_unique[OF C(1) store_good_projects[OF C(2)]] at by (simp add: stored_at_def)
    have known: "ids_known s (ds @ [d]) (ids(dc_key d \<mapsto> st_id st))"
      if I: "?I s0'" and set: "rows_settled ?C s0 actor (ds @ [d]) s"
        and mono: "\<And>d r. stored_at s0' d r \<Longrightarrow> \<exists>r'. stored_at s d r' \<and> id_of r' = id_of r" for s s0'
    proof -
      obtain r' where r': "stored_at s d r'" "id_of r' = id_of r0"
        using settled_stored_at[OF set at] by blast
      have "ids_known s (ds @ [d]) (ids(dc_key d \<mapsto> id_of r'))"
      proof (rule ids_known_mono[OF _ _ r'(1) d(2)])
        show "ids_known s0' ds ids" using I by (simp add: loop_inv_def)
      qed (rule mono)
      then show ?thesis using r'(2) by (simp add: st stored_of_def)
    qed
    have kept: "(st_display_name st \<noteq> dc_display_name d \<or> st_source_repo st \<noteq> Some (dc_source_repo d))
        \<or> st_status st \<noteq> status_i8 Active \<longleftrightarrow> \<not> up_to_date d r0"
      by (auto simp: st stored_of_def up_to_date_def)
    show ?thesis
    proof (cases "up_to_date d r0")
      case True
      then have "write_one E d (Some st) actor resp = ret (st_id st, resp\<lparr>unchanged := unchanged resp + 1\<rparr>)"
        using kept by (auto simp: write_one_def Let_def)
      moreover have "?done (st_id st, resp\<lparr>unchanged := unchanged resp + 1\<rparr>) s" if I: "?I s" for s
      proof -
        have set: "rows_settled ?C s0 actor (ds @ [d]) s"
          using keep_step[OF _ C at True d(2)] I by (simp add: loop_inv_def)
        show ?thesis using set known[OF I set] counted_stored(1)[OF _ at one True] I
          by (auto simp: loop_inv_def)
      qed
      ultimately show ?thesis unfolding Some by (simp add: hoare_def ret_run)
    next
      case False
      let ?resp = "if st_status st \<noteq> status_i8 Active then resp\<lparr>reactivated := reactivated resp + 1\<rparr>
                  else resp\<lparr>updated := updated resp + 1\<rparr>"
      have "write_one E d (Some st) actor resp =
          and_then (stmt E (update_projects ?C (\<lambda>_ r. same_id ?C (id_of r) (st_id st)) (overwrite d actor)))
            (\<lambda>_. ret (st_id st, ?resp))"
        using False kept by (auto simp: write_one_def Let_def)
      moreover have upd: "hoare ?I (stmt E (update_projects ?C (\<lambda>_ r. same_id ?C (id_of r) (st_id st)) (overwrite d actor)))
          (\<lambda>_. ?done (st_id st, ?resp))"
      proof (rule hoare_stmt)
        fix now s u s'
        assume I: "?I s"
          and run: "update_projects ?C (\<lambda>_ r. same_id ?C (id_of r) (st_id st)) (overwrite d actor) now s = Inr (u, s')"
        have sid: "st_id st = id_of r0" by (simp add: st stored_of_def)
        have set: "rows_settled ?C s0 actor (ds @ [d]) s'"
          using overwrite_step[OF _ C at False d(2,1) run[unfolded sid]] I by (simp add: loop_inv_def)
        have mono: "\<exists>r'. stored_at s' e r' \<and> id_of r' = id_of r" if "stored_at s e r" for e r
          using that run by (intro exI[of _ "if same_id ?C (id_of r) (st_id st) then overwrite d actor now r else r"])
            (auto simp: update_projects_Inr stored_at_def org_def folded_def)
        have "counted s0 (ds @ [d]) ?resp"
          using counted_stored(2,3)[OF _ at one] False I by (auto simp: loop_inv_def st stored_of_def)
        then show "?done (st_id st, ?resp) s'" using set known[OF I set mono] by simp
      qed
      ultimately show ?thesis unfolding Some
        by (simp only:) (rule hoare_and_then[OF upd], rule hoare_ret, assumption)
    qed
  qed
  then show ?thesis
    by (rule hoare_and_then) (auto simp: hoare_def ret_run loop_inv_def split: prod.splits)
qed

lemma write_rows_hoare:
  assumes C: "path_collation (ci_key (coll E))" "store_good (coll E) s0" and ds: "declaration_ok ds"
    and free: "\<forall>a \<in> set (aliases s0). \<forall>d \<in> set ds. \<not> same_path (coll E) (alias_path a) (dc_path d)"
    and rows: "rows = map stored_of (filter (\<lambda>r. owner_user_id r = None) (projects s0))"
  shows "hoare (\<lambda>s. s = s0) (write_rows E rows actor ds) (loop_inv (coll E) s0 actor ds)"
proof -
  have "hoare (loop_inv (coll E) s0 actor [] (sync_default, Map.empty)) (write_rows E rows actor ds)
      (loop_inv (coll E) s0 actor ds)"
    unfolding write_rows_def
  proof (rule hoare_for_each_prefix)
    fix "done" d todo and b :: "sync_response \<times> (string \<Rightarrow> string option)"
    assume split: "ds = done @ d # todo"
    obtain resp ids where b: "b = (resp, ids)" by (cases b)
    have "declared_ok d" "dc_key d \<notin> set (map dc_key done)"
      and "\<forall>a \<in> set (aliases s0). \<not> same_path (coll E) (alias_path a) (dc_path d)"
      using ds free split by (auto simp: declaration_ok_def)
    from write_one_hoare[OF C this rows]
    show "hoare (loop_inv (coll E) s0 actor done b)
       (case b of (resp, ids) \<Rightarrow> and_then (write_one E d (by_key rows (dc_key d)) actor resp)
           (\<lambda>(pid, resp'). ret (resp', ids(dc_key d \<mapsto> pid))))
       (loop_inv (coll E) s0 actor (done @ [d]))"
      unfolding b prod.case by blast
  qed
  then show ?thesis
    by (rule hoare_weaken)
      (auto simp: loop_inv_def rows_settled_def counted_def ids_known_def sync_default_def
        settled_row_def new_rows_def C(2))
qed

end
