(* ===== verification/Sync_Grants.thy ===== *)
theory Sync_Grants
  imports Sync_Rows
begin

text \<open>
  The second half of a sync: the archive of what the declaration stopped naming, and the grants.
  Each loop is shown to compute a whole-table expression, which the convergence theorems then
  read off.
\<close>

section \<open>The archive\<close>

definition declared_keys :: "declared list \<Rightarrow> string set" where
  "declared_keys ds = dc_key ` set ds"

lemma declared_keysI: "d \<in> set ds \<Longrightarrow> dc_key d = k \<Longrightarrow> k \<in> declared_keys ds"
  by (auto simp: declared_keys_def)

lemma declared_keysE: "k \<in> declared_keys ds \<Longrightarrow> (\<And>d. d \<in> set ds \<Longrightarrow> k = dc_key d \<Longrightarrow> P) \<Longrightarrow> P"
  by (auto simp: declared_keys_def)

text \<open>What a stored row becomes under the whole sync.\<close>

definition closed_row :: "declared list \<Rightarrow> string \<Rightarrow> int \<Rightarrow> project_row \<Rightarrow> project_row" where
  "closed_row ds actor now r =
     (if org r \<and> folded r \<notin> declared_keys ds
      then (if row_status r = status_i8 Active then archived_row actor now r else r)
      else settled_row ds actor now r)"

definition rows_closed ::
  "collations \<Rightarrow> store \<Rightarrow> string \<Rightarrow> declared list \<Rightarrow> store \<Rightarrow> bool" where
  "rows_closed C s0 actor ds s \<longleftrightarrow>
     store_good C s \<and> aliases s = aliases s0 \<and> writes s = writes s0 \<and> grants s = grants s0
     \<and> (\<exists>nowf news. projects s = map (\<lambda>r. closed_row ds actor (nowf r) r) (projects s0) @ news
          \<and> new_rows (filter (unstored s0) ds) actor news)"

lemma settled_row_undeclared:
  "folded r \<notin> declared_keys ds \<Longrightarrow> settled_row ds actor now r = r"
  by (auto simp: settled_row_def split: option.splits dest!: find_in dest: declared_keysI)

lemma archived_row_keeps [simp]:
  "id_of (archived_row actor now r) = id_of r" "path (archived_row actor now r) = path r"
  "owner_user_id (archived_row actor now r) = owner_user_id r"
  "row_status (archived_row actor now r) = 2"
  by (simp_all add: archived_row_def)

lemma closed_row_keeps [simp]:
  "id_of (closed_row ds actor now r) = id_of r" "path (closed_row ds actor now r) = path r"
  "owner_user_id (closed_row ds actor now r) = owner_user_id r"
  "org (closed_row ds actor now r) = org r" "folded (closed_row ds actor now r) = folded r"
  by (auto simp: closed_row_def org_def folded_def)

lemma new_rows_declared:
  assumes "new_rows ds actor news" "r \<in> set news"
  shows "\<exists>d \<in> set ds. \<exists>pid now. r = org_project_row d actor pid now"
proof -
  from assms obtain i where i: "i < length ds" "r = news ! i"
    and "\<exists>pid now. news ! i = org_project_row (ds ! i) actor pid now"
    unfolding new_rows_def by (auto simp: list_all2_conv_all_nth in_set_conv_nth)
  then show ?thesis using nth_mem by blast
qed

lemma archived_good: "row_good C r \<Longrightarrow> org r \<Longrightarrow> row_refusal C (archived_row actor now r) = None \<Longrightarrow>
   row_good C (archived_row actor now r)"
  by (simp add: row_good_def org_def archived_row_def)

definition archive_list :: "store \<Rightarrow> declared list \<Rightarrow> string list" where
  "archive_list s ds = map id_of (filter (\<lambda>r. org r \<and> row_status r = status_i8 Active
     \<and> folded r \<notin> declared_keys ds) (projects s))"

lemma to_archive_stored:
  "to_archive (map stored_of (filter (\<lambda>r. owner_user_id r = None) (projects s))) ds = archive_list s ds"
proof -
  have conj: "filter P (filter Q xs) = filter (\<lambda>x. Q x \<and> P x) xs" for P Q :: "project_row \<Rightarrow> bool" and xs
    by (simp add: conj_commute)
  show ?thesis
    by (simp add: to_archive_def archive_list_def filter_map o_def stored_of_def org_def folded_def
        declared_keys_def conj del: filter_filter)
qed

lemma archive_update:
  assumes C: "store_good C s0" and settled: "rows_settled C s0 actor ds s"
    and key: "\<And>d. d \<in> set ds \<Longrightarrow> declared_ok d"
    and upd: "update_projects C (\<lambda>_ r. list_ex (same_id C (id_of r)) (archive_list s0 ds))
                (archived_row actor) now s = Inr (u, s')"
  shows "rows_closed C s0 actor ds s'"
proof -
  let ?P = "\<lambda>r. list_ex (same_id C (id_of r)) (archive_list s0 ds)"
  let ?hit = "\<lambda>r. org r \<and> row_status r = status_i8 Active \<and> folded r \<notin> declared_keys ds"
  from settled obtain nowf news where good: "store_good C s" "aliases s = aliases s0"
    "writes s = writes s0" "grants s = grants s0"
    and rows: "projects s = map (\<lambda>r. settled_row ds actor (nowf r) r) (projects s0) @ news"
    and news: "new_rows (filter (unstored s0) ds) actor news" by (rule rows_settledE)
  have hit0: "?P r \<longleftrightarrow> ?hit r" if r: "r \<in> set (projects s0)" for r
  proof
    assume "?P r"
    then obtain q where q: "q \<in> set (projects s0)" "?hit q" "same_id C (id_of r) (id_of q)"
      by (auto simp: archive_list_def list_ex_iff)
    then have "r = q" using projects_good_id_eq[OF store_good_projects[OF C] r q(1)] by simp
    with q show "?hit r" by simp
  next
    assume "?hit r"
    with r show "?P r" by (auto simp: archive_list_def list_ex_iff same_id_def)
  qed
  have none: "\<not> ?P r" if r: "r \<in> set news" for r
  proof
    assume "?P r"
    then obtain q where q: "q \<in> set (projects s0)" "?hit q" "same_id C (id_of r) (id_of q)"
      by (auto simp: archive_list_def list_ex_iff)
    then have "settled_row ds actor (nowf q) q = q" by (simp add: settled_row_undeclared)
    then have "q \<in> set (projects s)" using q(1) rows by (auto simp: image_iff intro!: bexI[of _ q])
    then have "r = q"
      using projects_good_id_eq[OF store_good_projects[OF good(1)]] r rows q(3) by auto
    moreover obtain d pid now where "d \<in> set ds" "r = org_project_row d actor pid now"
      using new_rows_declared[OF news r] by auto
    then have "folded r \<in> declared_keys ds" using key[of d]
      by (intro declared_keysI[of d]) (simp_all add: folded_def declared_ok_def)
    ultimately show False using q(2) by simp
  qed
  have s': "s' = s\<lparr>projects := map (\<lambda>r. if ?P r then archived_row actor now r else r) (projects s)\<rparr>"
    using upd by (auto simp: update_projects_Inr)
  have keep_id: "?P (settled_row ds actor (nowf r) r) = ?P r" for r by simp
  have each: "(if ?P (settled_row ds actor (nowf r) r) then archived_row actor now (settled_row ds actor (nowf r) r)
        else settled_row ds actor (nowf r) r)
      = closed_row ds actor (if ?hit r then now else nowf r) r" if r: "r \<in> set (projects s0)" for r
    unfolding keep_id hit0[OF r] closed_row_def
    by (auto simp: settled_row_undeclared split: if_splits)
  have newsame: "map (\<lambda>r. if ?P r then archived_row actor now r else r) news = news"
    using none by (intro map_idI) simp
  have "projects s' = map (\<lambda>r. closed_row ds actor (if ?hit r then now else nowf r) r) (projects s0) @ news"
    using each newsame unfolding s' rows by simp
  moreover have "store_good C s'"
  proof (rule update_projects_good[OF upd good(1)])
    fix r assume r: "r \<in> set (projects s)" "?P r" "row_refusal C (archived_row actor now r) = None" "row_good C r"
    from r(1) rows none r(2) obtain q where q: "q \<in> set (projects s0)" "r = settled_row ds actor (nowf q) q"
      by (auto simp: image_iff)
    with r(2) hit0[OF q(1)] have "org r" by simp
    then show "row_good C (archived_row actor now r)" using archived_good r(3,4) by blast
  qed simp
  ultimately show ?thesis using good news s' unfolding rows_closed_def
    by (intro conjI exI[of _ "\<lambda>r. if ?hit r then now else nowf r"] exI[of _ news]) simp_all
qed

lemma archive_nothing:
  assumes settled: "rows_settled C s0 actor ds s" and none: "archive_list s0 ds = []"
  shows "rows_closed C s0 actor ds s"
proof -
  from settled obtain nowf news where good: "store_good C s" "aliases s = aliases s0"
    "writes s = writes s0" "grants s = grants s0"
    and rows: "projects s = map (\<lambda>r. settled_row ds actor (nowf r) r) (projects s0) @ news"
    and news: "new_rows (filter (unstored s0) ds) actor news" by (rule rows_settledE)
  have "closed_row ds actor (nowf r) r = settled_row ds actor (nowf r) r" if "r \<in> set (projects s0)" for r
    using that none by (auto simp: closed_row_def archive_list_def filter_empty_conv settled_row_undeclared)
  then have "projects s = map (\<lambda>r. closed_row ds actor (nowf r) r) (projects s0) @ news"
    using rows by simp
  with good news show ?thesis unfolding rows_closed_def by blast
qed

lemma archive_hoare:
  assumes C: "store_good (coll E) s0" and ds: "declaration_ok ds"
  shows "hoare (\<lambda>s. rows_settled (coll E) s0 actor ds s \<and> ids_known s ds ids)
     (archive_ids E (archive_list s0 ds) actor)
     (\<lambda>_ s. rows_closed (coll E) s0 actor ds s \<and> ids_known s ds ids)"
proof (cases "archive_list s0 ds = []")
  case True
  then show ?thesis using archive_nothing by (auto simp: archive_ids_def hoare_def ret_run)
next
  case False
  have ok: "\<And>d. d \<in> set ds \<Longrightarrow> declared_ok d" using ds by (simp add: declaration_ok_def)
  have "archive_ids E (archive_list s0 ds) actor = stmt E (update_projects (coll E)
      (\<lambda>_ r. list_ex (same_id (coll E) (id_of r)) (archive_list s0 ds)) (archived_row actor))"
    using False by (simp add: archive_ids_def)
  moreover have "hoare (\<lambda>s. rows_settled (coll E) s0 actor ds s \<and> ids_known s ds ids) \<dots>
      (\<lambda>_ s. rows_closed (coll E) s0 actor ds s \<and> ids_known s ds ids)"
  proof (rule hoare_stmt)
    fix now s u s'
    assume pre: "rows_settled (coll E) s0 actor ds s \<and> ids_known s ds ids"
      and upd: "update_projects (coll E) (\<lambda>_ r. list_ex (same_id (coll E) (id_of r)) (archive_list s0 ds))
                (archived_row actor) now s = Inr (u, s')"
    have "ids_known s' ds ids" unfolding ids_known_def
    proof
      fix d assume "d \<in> set ds"
      with pre obtain r where r: "stored_at s d r" "ids (dc_key d) = Some (id_of r)"
        by (auto simp: ids_known_def)
      let ?r = "if list_ex (same_id (coll E) (id_of r)) (archive_list s0 ds) then archived_row actor now r else r"
      have "stored_at s' d ?r" using r(1) upd
        by (auto simp: update_projects_Inr stored_at_def org_def folded_def)
      then show "\<exists>r. stored_at s' d r \<and> ids (dc_key d) = Some (id_of r)"
        using r(2) by (intro exI[of _ ?r]) auto
    qed
    then show "rows_closed (coll E) s0 actor ds s' \<and> ids_known s' ds ids"
      using archive_update[OF C _ ok upd] pre by blast
  qed
  ultimately show ?thesis by simp
qed

end
