(* ===== verification/Sync_Converge.thy ===== *)
theory Sync_Converge
  imports Sync_Grants
begin

section \<open>Grants and their rows\<close>

text \<open>
  The grant half of a sync, computed for the whole table, and the convergence of both halves.
  A grant is known by its row's folded path and its team.
\<close>

definition pair_of :: "store \<Rightarrow> grant_row \<Rightarrow> string \<times> string" where
  "pair_of s g =
     (case find (\<lambda>r. id_of r = g_project_id g) (projects s) of
        Some r \<Rightarrow> (folded r, g_team_id g) | None \<Rightarrow> ([], g_team_id g))"

lemma filter_one:
  "distinct (map f xs) \<Longrightarrow> x \<in> set xs \<Longrightarrow> P x \<Longrightarrow> filter (\<lambda>y. f y = f x \<and> P y) xs = [x]"
proof (induction xs)
  case (Cons a xs)
  show ?case
  proof (cases "a = x")
    case True
    with Cons.prems have "filter (\<lambda>y. f y = f x \<and> P y) xs = []"
      by (auto simp: filter_empty_conv image_iff)
    with True Cons.prems show ?thesis by simp
  next
    case False
    with Cons.prems have "f a \<noteq> f x" by auto
    with False Cons show ?thesis by simp
  qed
qed simp

lemma grant_owner:
  assumes "store_good C s" "g \<in> set (grants s)"
  obtains r where "r \<in> set (projects s)" "id_of r = g_project_id g" "org r"
    "pair_of s g = (folded r, g_team_id g)"
proof -
  from assms obtain r where r: "r \<in> set (projects s)" "id_of r = g_project_id g" "org r"
    by (auto simp: store_good_def grants_good_def org_def)
  then obtain q where q: "find (\<lambda>r. id_of r = g_project_id g) (projects s) = Some q"
    by (cases "find (\<lambda>r. id_of r = g_project_id g) (projects s)") (auto simp: find_None_iff)
  then have "q \<in> set (projects s)" "id_of q = id_of r" using r(2) by (auto dest: find_in)
  then have "q = r" using projects_good_id_eq[OF store_good_projects[OF assms(1)]] r(1)
    by (simp add: same_id_def)
  with q that[OF r] show thesis by (simp add: pair_of_def)
qed

definition as_stored :: "store \<Rightarrow> grant_row \<Rightarrow> stored_grant" where
  "as_stored s g =
     \<lparr>sg_project_id = g_project_id g,
      sg_path = (case find (\<lambda>r. id_of r = g_project_id g) (projects s) of Some r \<Rightarrow> path r | None \<Rightarrow> []),
      sg_team_id = g_team_id g, sg_level = g_level g\<rparr>"

lemma grant_pair_as_stored [simp]: "grant_pair (as_stored s g) = pair_of s g"
  by (simp add: grant_pair_def as_stored_def pair_of_def folded_def split: option.splits)

lemma concat_map_single:
  "(\<And>x. x \<in> set xs \<Longrightarrow> f x = [g x]) \<Longrightarrow> concat (map f xs) = map g xs"
  by (induction xs) auto

lemma stored_grants_of_good:
  assumes good: "store_good C s"
  shows "stored_grants_of C s = map (as_stored s) (grants s)"
  unfolding stored_grants_of_def
proof (rule concat_map_single)
  fix g assume g: "g \<in> set (grants s)"
  obtain r where r: "r \<in> set (projects s)" "id_of r = g_project_id g" "org r"
    using grant_owner[OF good g] by metis
  have ids: "distinct (map (\<lambda>r. srv_key C (id_of r)) (projects s))"
    using good by (simp add: store_good_def projects_good_def)
  have "filter (\<lambda>p. same_id C (id_of p) (g_project_id g) \<and> owner_user_id p = None) (projects s) = [r]"
    using filter_one[OF ids r(1), of "\<lambda>p. owner_user_id p = None"] r by (simp add: same_id_def org_def)
  moreover have "find (\<lambda>r. id_of r = g_project_id g) (projects s) = Some r"
  proof -
    obtain q where q: "find (\<lambda>r. id_of r = g_project_id g) (projects s) = Some q"
      using r by (cases "find (\<lambda>r. id_of r = g_project_id g) (projects s)") (auto simp: find_None_iff)
    then have "q = r" using distinct_map_eq[OF ids, of q r] r by (auto dest!: find_in)
    with q show ?thesis by simp
  qed
  ultimately show "map (\<lambda>p. \<lparr>sg_project_id = g_project_id g, sg_path = path p,
      sg_team_id = g_team_id g, sg_level = g_level g\<rparr>)
      (filter (\<lambda>p. same_id C (id_of p) (g_project_id g) \<and> owner_user_id p = None) (projects s))
      = [as_stored s g]"
    by (simp add: as_stored_def)
qed

section \<open>The plan\<close>

lemma plan_fold:
  "fold (plan_one ds) gs p =
     p\<lparr>gp_updates := gp_updates p @ map (\<lambda>g. (sg_project_id g, sg_team_id g, the (wanted ds (grant_pair g))))
          (filter (\<lambda>g. \<exists>l. wanted ds (grant_pair g) = Some l \<and> l \<noteq> sg_level g) gs),
       gp_deletes := gp_deletes p @ map (\<lambda>g. (sg_project_id g, sg_team_id g))
          (filter (\<lambda>g. wanted ds (grant_pair g) = None) gs),
       gp_unchanged := gp_unchanged p
          + of_nat (length (filter (\<lambda>g. wanted ds (grant_pair g) = Some (sg_level g)) gs))\<rparr>"
proof (induction gs arbitrary: p)
  case (Cons g gs)
  show ?case unfolding fold_Cons o_apply Cons.IH
    by (simp add: plan_one_def split: option.splits)
qed simp

lemma wanted_Some:
  assumes "declaration_ok ds"
  shows "wanted ds (k, t) = Some l \<longleftrightarrow> (\<exists>d \<in> set ds. k = dc_key d \<and> (t, l) \<in> set (dc_grants d))"
proof -
  let ?es = "concat (map (\<lambda>d. map (\<lambda>(t, l). ((dc_key d, t), l)) (dc_grants d)) ds)"
  have keys: "distinct (map dc_key ds)" "\<And>d. d \<in> set ds \<Longrightarrow> distinct (map fst (dc_grants d))"
    using assms by (auto simp: declaration_ok_def declared_ok_def)
  then have dist: "distinct (map fst ?es)"
  proof (induction ds)
    case (Cons d ds)
    have firsts: "map fst (map (\<lambda>(t, l). ((dc_key d, t), l)) (dc_grants d)) = map (\<lambda>t. (dc_key d, t)) (map fst (dc_grants d))"
      by auto
    have "distinct (map fst (map (\<lambda>(t, l). ((dc_key d, t), l)) (dc_grants d)))"
      unfolding firsts using Cons.prems(2)[of d] by (subst distinct_map) (auto simp: inj_on_def)
    moreover have "fst e \<noteq> fst f" if "e \<in> set (map (\<lambda>(t, l). ((dc_key d, t), l)) (dc_grants d))"
      "f \<in> set (concat (map (\<lambda>d. map (\<lambda>(t, l). ((dc_key d, t), l)) (dc_grants d)) ds))" for e f
    proof -
      from that(2) obtain d' where "d' \<in> set ds" "fst (fst f) = dc_key d'" by auto
      moreover have "fst (fst e) = dc_key d" using that(1) by auto
      moreover have "dc_key d \<notin> dc_key ` set ds" using Cons.prems(1) by simp
      ultimately show ?thesis by (metis image_eqI)
    qed
    ultimately show ?case using Cons by (fastforce simp del: map_map)
  qed simp
  have "wanted ds (k, t) = Some l \<longleftrightarrow> ((k, t), l) \<in> set ?es"
    unfolding wanted_def using dist by (subst map_of_eq_Some_iff) (simp_all add: rev_map[symmetric])
  also have "\<dots> \<longleftrightarrow> (\<exists>d \<in> set ds. k = dc_key d \<and> (t, l) \<in> set (dc_grants d))" by auto
  finally show ?thesis .
qed

definition grants_of_store :: "store \<Rightarrow> declared list \<Rightarrow> grant_row \<Rightarrow> int option" where
  "grants_of_store s ds g = wanted ds (pair_of s g)"

lemma plan_good:
  assumes "store_good C s"
  shows "gp_deletes (grants_plan ds (stored_grants_of C s)) = map (\<lambda>g. (g_project_id g, g_team_id g))
      (filter (\<lambda>g. grants_of_store s ds g = None) (grants s))"
    and "gp_updates (grants_plan ds (stored_grants_of C s)) =
      map (\<lambda>g. (g_project_id g, g_team_id g, the (grants_of_store s ds g)))
        (filter (\<lambda>g. \<exists>l. grants_of_store s ds g = Some l \<and> l \<noteq> g_level g) (grants s))"
    and "gp_inserts (grants_plan ds (stored_grants_of C s)) = plan_inserts ds (pair_of s ` set (grants s))"
    and "gp_unchanged (grants_plan ds (stored_grants_of C s)) =
      of_nat (length (filter (\<lambda>g. grants_of_store s ds g = Some (g_level g)) (grants s)))"
  unfolding stored_grants_of_good[OF assms] grants_plan_def Let_def plan_fold
  by (simp_all add: filter_map o_def grants_of_store_def as_stored_def image_image)
    (simp_all add: as_stored_def[symmetric] grant_pair_as_stored)

end
