(* ===== verification/Sync_Writes.thy ===== *)
theory Sync_Writes
  imports Sync_Converge
begin

text \<open>Carrying the grant plan out: each of the three loops as one expression over the table.\<close>

section \<open>The statements on the grants\<close>

lemma hoare_conj:
  "hoare P m Q \<Longrightarrow> hoare P' m Q' \<Longrightarrow> hoare (\<lambda>s. P s \<and> P' s) m (\<lambda>x s. Q x s \<and> Q' x s)"
  unfolding hoare_def by blast

lemma delete_grants_good:
  "delete_grants C pid team now s = Inr (u, s') \<Longrightarrow> store_good C s \<Longrightarrow> store_good C s'"
  by (auto simp: delete_grants_def store_good_def grants_good_def distinct_map_filter)

lemma grant_key_level [simp]: "grant_key C (g\<lparr>g_level := l\<rparr>) = grant_key C g"
  by (simp add: grant_key_def)

lemma update_grants_good:
  assumes upd: "update_grants C pid team level now s = Inr (u, s')" and good: "store_good C s"
  shows "store_good C s'"
proof -
  let ?m = "\<lambda>g. same_id C (g_project_id g) pid \<and> same_id C (g_team_id g) team"
  let ?f = "\<lambda>g. if ?m g then g\<lparr>g_level := level\<rparr> else g"
  from upd have s': "s' = s\<lparr>grants := map ?f (grants s)\<rparr>"
    and ok: "level \<in> {1, 2} \<or> (\<forall>g \<in> set (grants s). \<not> ?m g)"
    by (auto simp: update_grants_def list_ex_iff split: if_splits)
  have keys: "map (grant_key C) (map ?f (grants s)) = map (grant_key C) (grants s)" by auto
  have "distinct (map (grant_key C) (map ?f (grants s)))"
    unfolding keys using good by (simp add: store_good_def grants_good_def)
  moreover have "\<forall>g \<in> set (map ?f (grants s)). g_level g \<in> {1, 2}
      \<and> (\<exists>r \<in> set (projects s). id_of r = g_project_id g \<and> owner_user_id r = None)"
    using good ok by (auto simp: grants_good_def store_good_def)
  ultimately have "grants_good C (projects s) (map ?f (grants s))"
    unfolding grants_good_def by blast
  then show ?thesis using good s' by (simp add: store_good_def)
qed

lemma insert_grant_Inr:
  "insert_grant C g now s = Inr (u, s') \<Longrightarrow>
     s' = s\<lparr>grants := grants s @ [g]\<rparr> \<and> g_level g \<in> {1, 2}
     \<and> (\<forall>h \<in> set (grants s). grant_key C h \<noteq> grant_key C g)"
  by (auto simp: insert_grant_def grant_refusal_def list_ex_iff split: option.splits if_splits)

lemma insert_grant_good:
  assumes "insert_grant C g now s = Inr (u, s')" "store_good C s"
    and "\<exists>r \<in> set (projects s). id_of r = g_project_id g \<and> owner_user_id r = None"
  shows "store_good C s'"
  using insert_grant_Inr[OF assms(1)] assms(2,3) by (auto simp: store_good_def grants_good_def)

section \<open>The three loops\<close>

definition named_by :: "collations \<Rightarrow> (string \<times> string) list \<Rightarrow> grant_row \<Rightarrow> bool" where
  "named_by C ps g \<longleftrightarrow>
     list_ex (\<lambda>(pid, team). same_id C (g_project_id g) pid \<and> same_id C (g_team_id g) team) ps"

definition relevel :: "collations \<Rightarrow> string \<times> string \<times> int \<Rightarrow> grant_row \<Rightarrow> grant_row" where
  "relevel C p g =
     (case p of (pid, team, level) \<Rightarrow>
        if same_id C (g_project_id g) pid \<and> same_id C (g_team_id g) team
        then g\<lparr>g_level := level\<rparr> else g)"

definition new_grant :: "(string \<Rightarrow> string option) \<Rightarrow> string \<times> string \<times> int \<Rightarrow> grant_row" where
  "new_grant ids p =
     (case p of (key, team, level) \<Rightarrow>
        \<lparr>g_project_id = the (ids key), g_team_id = team, g_level = level\<rparr>)"

lemma write_deletes_hoare:
  "hoare (\<lambda>s. s = s1 \<and> store_good (coll E) s) (write_deletes E ps)
     (\<lambda>_ s. s = s1\<lparr>grants := filter (\<lambda>g. \<not> named_by (coll E) ps g) (grants s1)\<rparr> \<and> store_good (coll E) s)"
proof -
  let ?I = "\<lambda>done (_::unit) s. s = s1\<lparr>grants := filter (\<lambda>g. \<not> named_by (coll E) done g) (grants s1)\<rparr>
      \<and> store_good (coll E) s"
  have "hoare (?I [] ()) (write_deletes E ps) (?I ps)"
    unfolding write_deletes_def
  proof (rule hoare_for_each_prefix)
    fix "done" x todo and b :: unit
    assume "ps = done @ x # todo"
    obtain pid team where x: "x = (pid, team)" by (cases x)
    show "hoare (?I done b) ((case x of (pid, team) \<Rightarrow> \<lambda>_. stmt E (delete_grants (coll E) pid team)) b)
        (?I (done @ [x]))"
      unfolding x prod.case
    proof (rule hoare_stmt, intro conjI)
      fix now s u s'
      assume I: "?I done b s" and del: "delete_grants (coll E) pid team now s = Inr (u, s')"
      show "store_good (coll E) s'" using delete_grants_good[OF del] I by blast
      show "s' = s1\<lparr>grants := filter (\<lambda>g. \<not> named_by (coll E) (done @ [(pid, team)]) g) (grants s1)\<rparr>"
        using del I by (auto simp: delete_grants_def named_by_def intro!: filter_cong)
    qed
  qed
  then show ?thesis by (rule hoare_weaken) (auto simp: named_by_def)
qed

lemma write_updates_hoare:
  "hoare (\<lambda>s. s = s1 \<and> store_good (coll E) s) (write_updates E ps)
     (\<lambda>_ s. s = s1\<lparr>grants := map (fold (relevel (coll E)) ps) (grants s1)\<rparr> \<and> store_good (coll E) s)"
proof -
  let ?I = "\<lambda>done (_::unit) s. s = s1\<lparr>grants := map (fold (relevel (coll E)) done) (grants s1)\<rparr>
      \<and> store_good (coll E) s"
  have "hoare (?I [] ()) (write_updates E ps) (?I ps)"
    unfolding write_updates_def
  proof (rule hoare_for_each_prefix)
    fix "done" x todo and b :: unit
    assume "ps = done @ x # todo"
    obtain pid team level where x: "x = (pid, team, level)" by (cases x)
    show "hoare (?I done b) ((case x of (pid, team, level) \<Rightarrow> \<lambda>_. stmt E (update_grants (coll E) pid team level)) b)
        (?I (done @ [x]))"
      unfolding x prod.case
    proof (rule hoare_stmt, intro conjI)
      fix now s u s'
      assume I: "?I done b s" and upd: "update_grants (coll E) pid team level now s = Inr (u, s')"
      show "store_good (coll E) s'" using update_grants_good[OF upd] I by blast
      show "s' = s1\<lparr>grants := map (fold (relevel (coll E)) (done @ [(pid, team, level)])) (grants s1)\<rparr>"
        using upd I by (auto simp: update_grants_def relevel_def split: if_splits)
    qed
  qed
  then show ?thesis by (rule hoare_weaken) (auto simp: fun_eq_iff)
qed

lemma write_inserts_hoare:
  assumes known: "\<And>k t l. (k, t, l) \<in> set ps \<Longrightarrow>
      \<exists>r \<in> set (projects s1). ids k = Some (id_of r) \<and> owner_user_id r = None"
  shows "hoare (\<lambda>s. s = s1 \<and> store_good (coll E) s) (write_inserts E ids ps)
     (\<lambda>_ s. s = s1\<lparr>grants := grants s1 @ map (new_grant ids) ps\<rparr> \<and> store_good (coll E) s)"
proof -
  let ?I = "\<lambda>done (_::unit) s. s = s1\<lparr>grants := grants s1 @ map (new_grant ids) done\<rparr>
      \<and> store_good (coll E) s"
  have "hoare (?I [] ()) (write_inserts E ids ps) (?I ps)"
    unfolding write_inserts_def
  proof (rule hoare_for_each_prefix)
    fix "done" x todo and b :: unit
    assume split: "ps = done @ x # todo"
    obtain key team level where x: "x = (key, team, level)" by (cases x)
    obtain r where r: "r \<in> set (projects s1)" "ids key = Some (id_of r)" "owner_user_id r = None"
      using known[of key team level] split x by auto
    have "hoare (?I done b) (stmt E (insert_grant (coll E)
             \<lparr>g_project_id = id_of r, g_team_id = team, g_level = level\<rparr>)) (?I (done @ [x]))"
    proof (rule hoare_stmt, intro conjI)
      fix now s u s'
      assume I: "?I done b s" and ins: "insert_grant (coll E)
             \<lparr>g_project_id = id_of r, g_team_id = team, g_level = level\<rparr> now s = Inr (u, s')"
      show "store_good (coll E) s'" using insert_grant_good[OF ins] I r by auto
      show "s' = s1\<lparr>grants := grants s1 @ map (new_grant ids) (done @ [x])\<rparr>"
        using insert_grant_Inr[OF ins] I by (simp add: x new_grant_def r(2))
    qed
    then show "hoare (?I done b) ((case x of (key, team, level) \<Rightarrow> \<lambda>_.
       case ids key of
         None \<Rightarrow> fail (Status Internal (In_grants (No_row_id key)))
       | Some pid \<Rightarrow> stmt E (insert_grant (coll E)
             \<lparr>g_project_id = pid, g_team_id = team, g_level = level\<rparr>)) b) (?I (done @ [x]))"
      by (simp add: x r(2))
  qed
  then show ?thesis by (rule hoare_weaken) auto
qed

end
