(* ===== verification/Sync_Run.thy ===== *)
theory Sync_Run
  imports Sync_Writes
begin

text \<open>The whole of a sync against its one-shot specification \<open>synced\<close>.\<close>

section \<open>The grant half\<close>

definition final_grants ::
  "store \<Rightarrow> declared list \<Rightarrow> (string \<Rightarrow> string option) \<Rightarrow> grant_row list" where
  "final_grants s0 ds ids =
     map (\<lambda>g. g\<lparr>g_level := the (grants_of_store s0 ds g)\<rparr>)
       (filter (\<lambda>g. grants_of_store s0 ds g \<noteq> None) (grants s0))
     @ map (new_grant ids) (plan_inserts ds (pair_of s0 ` set (grants s0)))"

lemma same_grant:
  assumes "store_good C s" "g \<in> set (grants s)" "h \<in> set (grants s)"
    and "same_id C (g_project_id g) (g_project_id h)" "same_id C (g_team_id g) (g_team_id h)"
  shows "g = h"
proof -
  have "grant_key C g = grant_key C h" using assms(4,5) by (simp add: grant_key_def same_id_def)
  then show ?thesis using distinct_map_eq[of "grant_key C" "grants s" g h] assms(1-3)
    by (simp add: store_good_def grants_good_def)
qed

lemma named_deletes:
  assumes "store_good C s0" "g \<in> set (grants s0)"
  shows "named_by C (map (\<lambda>g. (g_project_id g, g_team_id g))
           (filter (\<lambda>g. grants_of_store s0 ds g = None) (grants s0))) g
         \<longleftrightarrow> grants_of_store s0 ds g = None"
proof
  assume "named_by C (map (\<lambda>g. (g_project_id g, g_team_id g))
           (filter (\<lambda>g. grants_of_store s0 ds g = None) (grants s0))) g"
  then obtain h where "h \<in> set (grants s0)" "grants_of_store s0 ds h = None"
    "same_id C (g_project_id g) (g_project_id h)" "same_id C (g_team_id g) (g_team_id h)"
    by (auto simp: named_by_def list_ex_iff)
  then show "grants_of_store s0 ds g = None" using same_grant[OF assms] by blast
next
  assume "grants_of_store s0 ds g = None"
  with assms(2) show "named_by C (map (\<lambda>g. (g_project_id g, g_team_id g))
           (filter (\<lambda>g. grants_of_store s0 ds g = None) (grants s0))) g"
    by (auto simp: named_by_def list_ex_iff same_id_def intro!: bexI[of _ g])
qed

lemma fold_relevel:
  assumes "\<And>pid t l. (pid, t, l) \<in> set ps \<Longrightarrow> same_id C (g_project_id g) pid \<Longrightarrow>
      same_id C (g_team_id g) t \<Longrightarrow> l = lev"
    and "lev \<noteq> g_level g \<Longrightarrow> \<exists>(pid, t, l) \<in> set ps. same_id C (g_project_id g) pid \<and> same_id C (g_team_id g) t"
  shows "fold (relevel C) ps g = g\<lparr>g_level := lev\<rparr>"
  using assms
proof (induction ps arbitrary: g)
  case Nil
  then show ?case by (cases "lev = g_level g") auto
next
  case (Cons p ps)
  obtain pid t l where p: "p = (pid, t, l)" by (cases p)
  show ?case
  proof (cases "same_id C (g_project_id g) pid \<and> same_id C (g_team_id g) t")
    case True
    then have "l = lev" using Cons.prems(1)[of pid t l] p by simp
    then have "relevel C p g = g\<lparr>g_level := lev\<rparr>" using True by (simp add: relevel_def p)
    moreover have "fold (relevel C) ps (g\<lparr>g_level := lev\<rparr>) = g\<lparr>g_level := lev\<rparr>"
      by (subst Cons.IH) (use Cons.prems(1) in auto)
    ultimately show ?thesis by simp
  next
    case False
    then have "relevel C p g = g" by (auto simp: relevel_def p)
    moreover have "fold (relevel C) ps g = g\<lparr>g_level := lev\<rparr>"
      by (rule Cons.IH) (use Cons.prems False p in auto)
    ultimately show ?thesis by simp
  qed
qed

lemma relevel_updates:
  assumes good: "store_good C s0" and g: "g \<in> set (grants s0)" "grants_of_store s0 ds g = Some lev"
  shows "fold (relevel C) (map (\<lambda>g. (g_project_id g, g_team_id g, the (grants_of_store s0 ds g)))
      (filter (\<lambda>g. \<exists>l. grants_of_store s0 ds g = Some l \<and> l \<noteq> g_level g) (grants s0))) g
    = g\<lparr>g_level := lev\<rparr>"
proof (rule fold_relevel)
  fix pid t l
  assume "(pid, t, l) \<in> set (map (\<lambda>g. (g_project_id g, g_team_id g, the (grants_of_store s0 ds g)))
      (filter (\<lambda>g. \<exists>l. grants_of_store s0 ds g = Some l \<and> l \<noteq> g_level g) (grants s0)))"
    and "same_id C (g_project_id g) pid" "same_id C (g_team_id g) t"
  then obtain h where "h \<in> set (grants s0)" "l = the (grants_of_store s0 ds h)"
    "same_id C (g_project_id g) (g_project_id h)" "same_id C (g_team_id g) (g_team_id h)" by auto
  moreover from this have "g = h" using same_grant[OF good g(1)] by blast
  ultimately show "l = lev" using g(2) by simp
next
  assume "lev \<noteq> g_level g"
  with g show "\<exists>(pid, t, l) \<in> set (map (\<lambda>g. (g_project_id g, g_team_id g, the (grants_of_store s0 ds g)))
      (filter (\<lambda>g. \<exists>l. grants_of_store s0 ds g = Some l \<and> l \<noteq> g_level g) (grants s0))).
      same_id C (g_project_id g) pid \<and> same_id C (g_team_id g) t"
    by (auto simp: same_id_def intro!: bexI[of _ g])
qed

lemma write_grants_hoare:
  assumes good: "store_good (coll E) s0" and s1: "grants s1 = grants s0"
    and known: "ids_known s1 ds ids"
  shows "hoare (\<lambda>s. s = s1 \<and> store_good (coll E) s)
     (write_grants E (grants_plan ds (stored_grants_of (coll E) s0)) ids)
     (\<lambda>_ s. s = s1\<lparr>grants := final_grants s0 ds ids\<rparr> \<and> store_good (coll E) s)"
proof -
  let ?C = "coll E" and ?plan = "grants_plan ds (stored_grants_of (coll E) s0)"
  let ?G1 = "filter (\<lambda>g. grants_of_store s0 ds g \<noteq> None) (grants s0)"
  let ?G2 = "map (\<lambda>g. g\<lparr>g_level := the (grants_of_store s0 ds g)\<rparr>) ?G1"
  have del: "filter (\<lambda>g. \<not> named_by ?C (gp_deletes ?plan) g) (grants s1) = ?G1"
    unfolding plan_good(1)[OF good] s1 by (rule filter_cong) (simp_all add: named_deletes[OF good])
  have upd: "map (fold (relevel ?C) (gp_updates ?plan)) ?G1 = ?G2"
    unfolding plan_good(2)[OF good] using relevel_updates[OF good] by auto
  have keys: "\<exists>r \<in> set (projects s1). ids k = Some (id_of r) \<and> owner_user_id r = None"
    if "(k, t, l) \<in> set (gp_inserts ?plan)" for k t l
    using that known unfolding plan_good(3)[OF good] plan_inserts_def
    by (auto simp: ids_known_def stored_at_def org_def)
  show ?thesis unfolding write_grants_def
  proof (rule hoare_and_then[OF write_deletes_hoare], rule hoare_and_then)
    show "hoare (\<lambda>s. s = s1\<lparr>grants := filter (\<lambda>g. \<not> named_by ?C (gp_deletes ?plan) g) (grants s1)\<rparr>
          \<and> store_good ?C s) (write_updates E (gp_updates ?plan))
        (\<lambda>_ s. s = s1\<lparr>grants := ?G2\<rparr> \<and> store_good ?C s)"
      unfolding del
      by (rule hoare_weaken[OF write_updates_hoare[where ?s1.0 = "s1\<lparr>grants := ?G1\<rparr>"]]) (simp_all add: upd del: not_None_eq)
    show "hoare (\<lambda>s. s = s1\<lparr>grants := ?G2\<rparr> \<and> store_good ?C s) (write_inserts E ids (gp_inserts ?plan))
        (\<lambda>_ s. s = s1\<lparr>grants := final_grants s0 ds ids\<rparr> \<and> store_good ?C s)"
      by (rule hoare_weaken[OF write_inserts_hoare[where ?s1.0 = "s1\<lparr>grants := ?G2\<rparr>"]])
        (use keys in \<open>auto simp: final_grants_def plan_good(3)[OF good]\<close>)
  qed
qed

section \<open>The specification of a sync\<close>

definition synced ::
  "collations \<Rightarrow> string \<Rightarrow> declared list \<Rightarrow> store \<Rightarrow> store \<Rightarrow> bool" where
  "synced C actor ds s s' \<longleftrightarrow>
     store_good C s' \<and> aliases s' = aliases s \<and> writes s' = writes s
     \<and> (\<exists>nowf news. projects s' = map (\<lambda>r. closed_row ds actor (nowf r) r) (projects s) @ news
          \<and> new_rows (filter (unstored s) ds) actor news)
     \<and> (\<exists>ids. ids_known s' ds ids \<and> grants s' = final_grants s ds ids)"

definition answered :: "collations \<Rightarrow> declared list \<Rightarrow> store \<Rightarrow> sync_response \<Rightarrow> bool" where
  "answered C ds s resp \<longleftrightarrow>
     counted s ds resp
     \<and> archived resp = of_nat (length (archive_list s ds))
     \<and> grants_declared resp = of_nat (length (concat (map dc_grants ds)))
     \<and> grants_inserted resp = of_nat (length (plan_inserts ds (pair_of s ` set (grants s))))
     \<and> grants_deleted resp = of_nat (length (filter (\<lambda>g. grants_of_store s ds g = None) (grants s)))
     \<and> grants_unchanged resp = of_nat (length (filter (\<lambda>g. grants_of_store s ds g = Some (g_level g)) (grants s)))"

definition free_of_aliases :: "collations \<Rightarrow> declared list \<Rightarrow> store \<Rightarrow> bool" where
  "free_of_aliases C ds s \<longleftrightarrow>
     (\<forall>a \<in> set (aliases s). \<forall>d \<in> set ds. \<not> same_path C (alias_path a) (dc_path d))"

definition org_active :: "store \<Rightarrow> project_row list" where
  "org_active s = filter (\<lambda>r. org r \<and> row_status r = status_i8 Active) (projects s)"

lemma ids_known_grants [simp]: "ids_known (s\<lparr>grants := G\<rparr>) ds ids = ids_known s ds ids"
  by (simp add: ids_known_def stored_at_def)

lemma sum_of_nat_lengths: "sum_list (map (\<lambda>d. of_nat (length (f d))) ds) = of_nat (length (concat (map f ds)))"
  by (induction ds) auto

lemma lock_InrD: "lock_sync E t = (Inr n, t') \<Longrightarrow> work t' = work t"
  by (auto simp: lock_sync_def dest!: stmt_InrD select_one_good)

lemma read_stored_InrD:
  "read_stored E t = (Inr rows, t') \<Longrightarrow> work t' = work t
   \<and> rows = map stored_of (filter (\<lambda>r. owner_user_id r = None) (projects (work t)))"
  by (auto simp: read_stored_def dest!: stmt_InrD select_good)

lemma stored_grants_InrD:
  "stored_grants E t = (Inr gs, t') \<Longrightarrow> work t' = work t \<and> gs = stored_grants_of (coll E) (work t)"
  by (auto simp: stored_grants_def dest!: stmt_InrD select_good)

lemma refuse_aliases_InrD:
  assumes "refuse_aliases E ds t = (Inr u, t')"
  shows "work t' = work t \<and> free_of_aliases (coll E) ds (work t)"
proof -
  let ?q = "\<lambda>s. map_option alias_path
        (find (\<lambda>a. list_ex (\<lambda>d. same_path (coll E) (alias_path a) (dc_path d)) ds) (aliases s))"
  from assms obtain hit t1 where hit: "stmt E (select ?q) t = (Inr hit, t1)"
    and rest: "(case hit of
          None \<Rightarrow> ret ()
        | Some a \<Rightarrow>
            (let p = (case find (\<lambda>d. dc_key d = to_ascii_lowercase a) ds of
                        Some d \<Rightarrow> dc_path d | None \<Rightarrow> a)
             in fail (Status Already_exists (In_sync (Declared_former_path p))))) t1 = (Inr u, t')"
    unfolding refuse_aliases_def by (blast dest!: and_then_InrD)
  have "hit = ?q (work t)" "work t1 = work t" using stmt_InrD[OF hit] by (auto dest!: select_good)
  moreover have "hit = None" "t' = t1" using rest by (auto simp: tx_simps Let_def split: option.splits)
  ultimately show ?thesis by (auto simp: free_of_aliases_def find_None_iff list_ex_iff)
qed

lemma active_count_stored:
  "active_count (map stored_of (filter (\<lambda>r. owner_user_id r = None) (projects s))) = length (org_active s)"
  by (simp add: active_count_def org_active_def filter_map o_def stored_of_def org_def conj_commute)

definition guards_held :: "declared list \<Rightarrow> bool \<Rightarrow> bool \<Rightarrow> store \<Rightarrow> bool" where
  "guards_held ds allow_archive allow_revoke s \<longleftrightarrow>
     (allow_archive \<or> length (archive_list s ds) * 2 \<le> length (org_active s))
     \<and> (allow_revoke
        \<or> length (filter (\<lambda>g. grants_of_store s ds g = None) (grants s)) * 2 \<le> length (grants s))"

lemma sync_apply_InrD:
  assumes run: "sync_apply E ds actor aa ar t = (Inr resp, t')"
    and C: "path_collation (ci_key (coll E))" "store_good (coll E) (work t)" and ds: "declaration_ok ds"
  shows "synced (coll E) actor ds (work t) (work t') \<and> answered (coll E) ds (work t) resp
    \<and> free_of_aliases (coll E) ds (work t) \<and> guards_held ds aa ar (work t)"
proof -
  let ?C = "coll E" and ?s = "work t"
  let ?rows = "map stored_of (filter (\<lambda>r. owner_user_id r = None) (projects ?s))"
  let ?plan = "grants_plan ds (stored_grants_of ?C ?s)"
  from run obtain n t1 rows t2 u t3 gs t5 t4 t6 where
    n: "lock_sync E t = (Inr n, t1)" and rows: "read_stored E t1 = (Inr rows, t2)"
    and al: "refuse_aliases E ds t2 = (Inr u, t3)"
    and ag: "lift (archive_guard (length (to_archive rows ds)) (active_count rows) aa) t3 = (Inr (), t4)"
    and gs: "stored_grants E t4 = (Inr gs, t5)"
    and rest: "(let plan = grants_plan ds gs in
     and_then (lift (revoke_guard (length (gp_deletes plan)) (length gs) ar)) (\<lambda>_.
     and_then (write_rows E rows actor ds) (\<lambda>(resp, ids).
     and_then (archive_ids E (to_archive rows ds) actor) (\<lambda>_.
     and_then (write_grants E plan ids) (\<lambda>_.
       ret (resp\<lparr>archived := of_nat (length (to_archive rows ds)),
                 grants_declared := sum_list (map (\<lambda>d. of_nat (length (dc_grants d))) ds),
                 grants_inserted := of_nat (length (gp_inserts plan)),
                 grants_deleted := of_nat (length (gp_deletes plan)),
                 grants_unchanged := gp_unchanged plan\<rparr>)))))) t5 = (Inr resp, t')"
    unfolding sync_apply_def by (fastforce dest!: and_then_InrD)
  have w: "work t1 = ?s" "work t2 = ?s" "work t3 = ?s" "work t4 = ?s" "work t5 = ?s"
    using lock_InrD[OF n] read_stored_InrD[OF rows] refuse_aliases_InrD[OF al] ag stored_grants_InrD[OF gs]
    by (auto simp: lift_run)
  have rows_eq: "rows = ?rows" using read_stored_InrD[OF rows] w by simp
  have gs_eq: "gs = stored_grants_of ?C ?s" using stored_grants_InrD[OF gs] w by simp
  have free: "free_of_aliases ?C ds ?s" using refuse_aliases_InrD[OF al] w by simp
  from rest[unfolded Let_def rows_eq to_archive_stored gs_eq] obtain t6 b t7 u7 t8 u8 t9 where
    rg: "lift (revoke_guard (length (gp_deletes ?plan)) (length (stored_grants_of ?C ?s)) ar) t5 = (Inr (), t6)"
    and wr: "write_rows E ?rows actor ds t6 = (Inr b, t7)"
    and ar: "archive_ids E (archive_list ?s ds) actor t7 = (Inr u7, t8)"
    and wg: "write_grants E ?plan (snd b) t8 = (Inr u8, t9)"
    and resp: "resp = (fst b)\<lparr>archived := of_nat (length (archive_list ?s ds)),
                 grants_declared := sum_list (map (\<lambda>d. of_nat (length (dc_grants d))) ds),
                 grants_inserted := of_nat (length (gp_inserts ?plan)),
                 grants_deleted := of_nat (length (gp_deletes ?plan)),
                 grants_unchanged := gp_unchanged ?plan\<rparr>" and t': "t' = t9"
    by (fastforce dest!: and_then_InrD simp: ret_run split: prod.splits)
  have t6: "work t6 = ?s" using rg w by (auto simp: lift_run)
  have "\<forall>a \<in> set (aliases ?s). \<forall>d \<in> set ds. \<not> same_path ?C (alias_path a) (dc_path d)"
    using free by (simp add: free_of_aliases_def)
  from hoareD[OF write_rows_hoare[OF C ds this refl] wr t6]
  have i7: "rows_settled ?C ?s actor ds (work t7)" "counted ?s ds (fst b)" "ids_known (work t7) ds (snd b)"
    by (auto simp: loop_inv_def)
  from hoareD[OF archive_hoare[OF C(2) ds] ar] i7
  have i8: "rows_closed ?C ?s actor ds (work t8)" "ids_known (work t8) ds (snd b)" by auto
  then have g8: "grants (work t8) = grants ?s" "store_good ?C (work t8)" by (auto simp: rows_closed_def)
  from hoareD[OF write_grants_hoare[OF C(2) g8(1) i8(2)] wg] g8(2)
  have i9: "work t9 = (work t8)\<lparr>grants := final_grants ?s ds (snd b)\<rparr>" "store_good ?C (work t9)" by auto
  have "synced ?C actor ds ?s (work t')"
    unfolding synced_def
  proof (intro conjI)
    show "\<exists>ids. ids_known (work t') ds ids \<and> grants (work t') = final_grants ?s ds ids"
      using i9 t' i8(2) by (intro exI[of _ "snd b"]) simp
  qed (use i8(1) i9 t' in \<open>auto simp: rows_closed_def\<close>)
  moreover have "answered ?C ds ?s resp"
    using i7(2) by (simp add: answered_def resp counted_def plan_good[OF C(2)] sum_of_nat_lengths)
  moreover have "guards_held ds aa ar ?s"
  proof -
    have "length (gp_deletes ?plan) = length (filter (\<lambda>g. grants_of_store ?s ds g = None) (grants ?s))"
      by (simp add: plan_good[OF C(2)])
    moreover have "length (stored_grants_of ?C ?s) = length (grants ?s)"
      by (simp add: stored_grants_of_good[OF C(2)])
    ultimately show ?thesis using ag rg
      by (auto simp: guards_held_def lift_run archive_guard_def revoke_guard_def rows_eq
          to_archive_stored active_count_stored split: if_splits)
  qed
  ultimately show ?thesis using free by blast
qed

section \<open>The call\<close>

lemma settle_Commit: "settle m t = (Inr (Commit x), t') \<longleftrightarrow> m t = (Inr x, t')"
  by (auto simp: settle_def split: prod.splits sum.splits)

lemma settle_Rollback: "settle m t = (Inr (Rollback r), t') \<Longrightarrow> \<exists>e. r = Inl e"
  by (auto simp: settle_def split: prod.splits sum.splits)

lemma admitted_Inr:
  "admitted caller sc = Inr actor \<longleftrightarrow>
     caller = Some SYNC_CALLER \<and> (\<exists>x. sc = Some x \<and> actor = sc_user_id x)
     \<and> 0 < chars_count actor \<and> chars_count actor \<le> 64"
  by (auto simp: admitted_def admit_sync_def principal_def also_check_eq_Inr Let_def
      MAX_PRINCIPAL_CHARS_def split: option.splits if_splits)

text \<open>However a sync ends, the store is what it was or what the specification says.\<close>

lemma sync_cases:
  assumes run: "sync_as E caller req d s = (r, s')"
    and C: "path_collation (ci_key (coll E))" "store_good (coll E) s"
  obtains "s' = s" "\<And>x. r \<noteq> Inr x"
  | actor ds resp where "admitted caller (sy_scope req) = Inr actor" "validate_sync req = Inr ds"
      "r = Inr resp \<or> (\<exists>e. r = Inl e) \<and> commit_lands E"
      "synced (coll E) actor ds s s'" "answered (coll E) ds s resp" "free_of_aliases (coll E) ds s"
      "guards_held ds (sy_allow_mass_archive req) (sy_allow_mass_revoke req) s"
proof -
  consider e where "r = Inl e" "s' = s"
    | actor ds where "admitted caller (sy_scope req) = Inr actor" "validate_sync req = Inr ds"
      "run_tx E d (settle (sync_apply E ds actor (sy_allow_mass_archive req) (sy_allow_mass_revoke req))) s = (r, s')"
    using run by (auto simp: sync_as_def also_check_def split: sum.splits)
  then show thesis
  proof cases
    case 1
    then show thesis using that(1) by simp
  next
    case (2 actor ds)
    note spec = sync_apply_InrD[OF _ C(1) _ validate_sync_ok[OF 2(2)], of actor
        "sy_allow_mass_archive req" "sy_allow_mass_revoke req" "\<lparr>work = s, stmts = 1\<rparr>"]
    let ?body = "settle (sync_apply E ds actor (sy_allow_mass_archive req) (sy_allow_mass_revoke req))"
    show thesis
    proof (cases "\<exists>x t. ?body \<lparr>work = s, stmts = 1\<rparr> = (Inr (Commit x), t) \<and> s' = work t")
      case True
      then obtain x t where x: "?body \<lparr>work = s, stmts = 1\<rparr> = (Inr (Commit x), t)" "s' = work t" by blast
      then have "sync_apply E ds actor (sy_allow_mass_archive req) (sy_allow_mass_revoke req) \<lparr>work = s, stmts = 1\<rparr> = (Inr x, t)"
        by (simp add: settle_Commit)
      note sp = spec[OF this]
      show thesis
      proof (cases "r = Inr x \<or> (\<exists>e. r = Inl e) \<and> commit_lands E")
        case True
        then show thesis using that(2)[OF 2(1,2)] sp C(2) x(2) by auto
      next
        case False
        then have "s' = s \<and> (\<forall>y. r \<noteq> Inr y)" using 2(3) x
          by (auto simp: run_tx_def split: sum.splits option.splits if_splits)
        then show thesis using that(1) by blast
      qed
    next
      case False
      then have "s' = s \<and> (\<forall>y. r \<noteq> Inr y)" using 2(3)
        by (auto simp: run_tx_def dest!: settle_Rollback
            split: sum.splits option.splits prod.splits finish.splits if_splits)
      then show thesis using that(1) by blast
    qed
  qed
qed

lemma sync_store_good:
  assumes "sync_as E caller req d s = (r, s')" "path_collation (ci_key (coll E))" "store_good (coll E) s"
  shows "store_good (coll E) s'"
  using sync_cases[OF assms] assms(3) by (cases) (auto simp: synced_def)

lemma sync_refused_unchanged:
  assumes "sync_as E caller req d s = (Inl e, s')" "\<not> commit_lands E"
  shows "s' = s"
  using assms by (auto simp: sync_as_def split: sum.splits dest: run_tx_refused)

section \<open>The reads, without faults\<close>

lemma sync_reads_run:
  assumes E: "no_faults E" and good: "store_good (coll E) s"
  shows "lock_sync E \<lparr>work = s, stmts = n\<rparr> = (Inr 1, \<lparr>work = s, stmts = Suc n\<rparr>)"
    and "read_stored E \<lparr>work = s, stmts = n\<rparr>
      = (Inr (map stored_of (filter (\<lambda>r. owner_user_id r = None) (projects s))), \<lparr>work = s, stmts = Suc n\<rparr>)"
    and "free_of_aliases (coll E) ds s \<Longrightarrow>
      refuse_aliases E ds \<lparr>work = s, stmts = n\<rparr> = (Inr (), \<lparr>work = s, stmts = Suc n\<rparr>)"
    and "stored_grants E \<lparr>work = s, stmts = n\<rparr>
      = (Inr (stored_grants_of (coll E) s), \<lparr>work = s, stmts = Suc n\<rparr>)"
proof -
  show "lock_sync E \<lparr>work = s, stmts = n\<rparr> = (Inr 1, \<lparr>work = s, stmts = Suc n\<rparr>)"
    using good by (simp add: lock_sync_def tx_simps E select_one_def store_good_def)
  show "refuse_aliases E ds \<lparr>work = s, stmts = n\<rparr> = (Inr (), \<lparr>work = s, stmts = Suc n\<rparr>)"
    if free: "free_of_aliases (coll E) ds s"
  proof -
    have "find (\<lambda>a. list_ex (\<lambda>d. same_path (coll E) (alias_path a) (dc_path d)) ds) (aliases s) = None"
      using free by (auto simp: find_None_iff list_ex_iff free_of_aliases_def)
    then show ?thesis by (simp add: refuse_aliases_def tx_simps E)
  qed
qed (simp_all add: read_stored_def stored_grants_def tx_simps E)

end
