(* ===== verification/Sync_Spec.thy ===== *)
theory Sync_Spec
  imports Sync_Run
begin

text \<open>
  What \<open>SyncProjects\<close> promises: the store converges to the declaration, a second sync of the same
  declaration changes nothing, no row is lost or renamed, private rows are not its business,
  and without the explicit flags it never archives or revokes more than half.
\<close>

section \<open>Convergence\<close>

definition granted :: "store \<Rightarrow> (string \<times> string \<times> int) set" where
  "granted s = (\<lambda>g. (fst (pair_of s g), snd (pair_of s g), g_level g)) ` set (grants s)"

definition declared_grants :: "declared list \<Rightarrow> (string \<times> string \<times> int) set" where
  "declared_grants ds = {(dc_key d, t, l) |d t l. d \<in> set ds \<and> (t, l) \<in> set (dc_grants d)}"

definition converged :: "declared list \<Rightarrow> store \<Rightarrow> bool" where
  "converged ds s \<longleftrightarrow>
     (\<forall>d \<in> set ds. \<exists>r. stored_at s d r \<and> up_to_date d r)
     \<and> (\<forall>r \<in> set (projects s). org r \<and> folded r \<notin> declared_keys ds \<longrightarrow> row_status r \<noteq> status_i8 Active)
     \<and> granted s = declared_grants ds"

lemma find_declared:
  assumes "declaration_ok ds" "d \<in> set ds" "org r" "folded r = dc_key d"
  shows "find (\<lambda>d. org r \<and> dc_key d = folded r) ds = Some d"
proof -
  obtain e where e: "find (\<lambda>d. org r \<and> dc_key d = folded r) ds = Some e"
    using assms(2-4) by (cases "find (\<lambda>d. org r \<and> dc_key d = folded r) ds") (auto simp: find_None_iff)
  then have "e \<in> set ds" "dc_key e = dc_key d" using assms(4) by (auto dest!: find_in)
  then have "e = d" using assms(1,2) distinct_map_eq[of dc_key ds e d] by (simp add: declaration_ok_def)
  with e show ?thesis by simp
qed

lemma up_to_date_settled:
  assumes "declaration_ok ds" "d \<in> set ds" "org r" "folded r = dc_key d"
  shows "up_to_date d (settled_row ds actor now r)"
  using find_declared[OF assms] by (simp add: settled_row_def up_to_date_def overwrite_def)

lemma new_rows_mem:
  assumes "new_rows ds actor news" "d \<in> set ds"
  shows "\<exists>pid now. org_project_row d actor pid now \<in> set news"
proof -
  from assms obtain i where "i < length ds" "d = ds ! i" by (auto simp: in_set_conv_nth)
  with assms(1) obtain pid now where "news ! i = org_project_row d actor pid now" "i < length news"
    by (auto simp: new_rows_def list_all2_conv_all_nth)
  then show ?thesis by (metis nth_mem)
qed

lemma pair_of_row:
  assumes "store_good C s" "g \<in> set (grants s)" "r \<in> set (projects s)" "id_of r = g_project_id g"
  shows "pair_of s g = (folded r, g_team_id g)"
proof -
  obtain q where q: "q \<in> set (projects s)" "id_of q = g_project_id g" "pair_of s g = (folded q, g_team_id g)"
    using grant_owner[OF assms(1,2)] by metis
  then have "q = r" using projects_good_id_eq[OF store_good_projects[OF assms(1)] q(1) assms(3)] assms(4)
    by (simp add: same_id_def)
  with q show ?thesis by simp
qed

lemma plan_inserts_mem:
  "(k, t, l) \<in> set (plan_inserts ds kept) \<longleftrightarrow>
     (\<exists>d \<in> set ds. k = dc_key d \<and> (t, l) \<in> set (dc_grants d)) \<and> (k, t) \<notin> kept"
  by (auto simp: plan_inserts_def)

lemma declared_grants_wanted:
  "declaration_ok ds \<Longrightarrow> (k, t, l) \<in> declared_grants ds \<longleftrightarrow> wanted ds (k, t) = Some l"
  by (auto simp: declared_grants_def wanted_Some)

lemma synced_granted:
  assumes sync: "synced C actor ds s s'" and good: "store_good C s" and ds: "declaration_ok ds"
  shows "granted s' = declared_grants ds"
proof -
  from sync obtain nowf news where good': "store_good C s'"
    and rows: "projects s' = map (\<lambda>r. closed_row ds actor (nowf r) r) (projects s) @ news"
    by (auto simp: synced_def)
  from sync obtain ids where ids: "ids_known s' ds ids" and gs: "grants s' = final_grants s ds ids"
    by (auto simp: synced_def)
  have old: "pair_of s' (g\<lparr>g_level := l\<rparr>) = pair_of s g"
    if g: "g \<in> set (grants s)" "g\<lparr>g_level := l\<rparr> \<in> set (grants s')" for g l
  proof -
    obtain r where r: "r \<in> set (projects s)" "id_of r = g_project_id g" "pair_of s g = (folded r, g_team_id g)"
      using grant_owner[OF good g(1)] by metis
    have "closed_row ds actor (nowf r) r \<in> set (projects s')" using r(1) by (simp add: rows)
    from pair_of_row[OF good' g(2) this] r show ?thesis by simp
  qed
  have new: "pair_of s' (new_grant ids (k, t, l)) = (k, t)"
    if g: "(k, t, l) \<in> set (plan_inserts ds (pair_of s ` set (grants s)))" for k t l
  proof -
    from g obtain d where "d \<in> set ds" "k = dc_key d" by (auto simp: plan_inserts_mem)
    with ids obtain r where r: "stored_at s' d r" "ids k = Some (id_of r)" by (auto simp: ids_known_def)
    have "new_grant ids (k, t, l) \<in> set (grants s')" using g by (auto simp: gs final_grants_def)
    from pair_of_row[OF good' this, of r] r show ?thesis
      using \<open>k = dc_key d\<close> by (simp add: stored_at_def new_grant_def)
  qed
  show ?thesis
  proof (intro subset_antisym subsetI)
    fix x assume "x \<in> granted s'"
    then obtain h where h: "h \<in> set (grants s')" "x = (fst (pair_of s' h), snd (pair_of s' h), g_level h)"
      by (auto simp: granted_def)
    from h(1) consider g where "g \<in> set (grants s)" "grants_of_store s ds g \<noteq> None"
        "h = g\<lparr>g_level := the (grants_of_store s ds g)\<rparr>"
      | k t l where "(k, t, l) \<in> set (plan_inserts ds (pair_of s ` set (grants s)))" "h = new_grant ids (k, t, l)"
      by (auto simp: gs final_grants_def)
    then show "x \<in> declared_grants ds"
    proof cases
      case 1
      then have "x = (fst (pair_of s g), snd (pair_of s g), the (grants_of_store s ds g))"
        using h old by auto
      with 1 show ?thesis by (cases "pair_of s g") (auto simp: declared_grants_wanted[OF ds] grants_of_store_def)
    next
      case 2
      then have "x = (k, t, l)" using h(2) new by (simp add: new_grant_def)
      with 2 show ?thesis by (auto simp: plan_inserts_mem declared_grants_def)
    qed
  next
    fix x assume x: "x \<in> declared_grants ds"
    then obtain k t l where ktl: "x = (k, t, l)" by (auto simp: declared_grants_def)
    show "x \<in> granted s'"
    proof (cases "(k, t) \<in> pair_of s ` set (grants s)")
      case True
      then obtain g where g: "g \<in> set (grants s)" "pair_of s g = (k, t)" by auto
      have l: "grants_of_store s ds g = Some l"
        using x ktl g(2) by (simp add: declared_grants_wanted[OF ds] grants_of_store_def)
      let ?g = "g\<lparr>g_level := l\<rparr>"
      have "?g \<in> set (grants s')" using g(1) l by (auto simp: gs final_grants_def image_iff intro!: disjI1 bexI[of _ g])
      then show ?thesis using old[OF g(1)] g(2) ktl
        by (auto simp: granted_def intro!: image_eqI[of _ _ ?g])
    next
      case False
      then have m: "(k, t, l) \<in> set (plan_inserts ds (pair_of s ` set (grants s)))"
        using x ktl by (auto simp: plan_inserts_mem declared_grants_def)
      then have "new_grant ids (k, t, l) \<in> set (grants s')" by (auto simp: gs final_grants_def)
      then show ?thesis using new[OF m] ktl
        by (auto simp: granted_def new_grant_def intro!: image_eqI[of _ _ "new_grant ids (k, t, l)"])
    qed
  qed
qed

lemma synced_converged:
  assumes sync: "synced C actor ds s s'" and good: "store_good C s" and ds: "declaration_ok ds"
  shows "converged ds s'"
proof -
  from sync obtain nowf news where
    rows: "projects s' = map (\<lambda>r. closed_row ds actor (nowf r) r) (projects s) @ news"
    and news: "new_rows (filter (unstored s) ds) actor news"
    by (auto simp: synced_def)
  have ok: "\<And>d. d \<in> set ds \<Longrightarrow> declared_ok d" using ds by (simp add: declaration_ok_def)
  have "\<exists>r. stored_at s' d r \<and> up_to_date d r" if d: "d \<in> set ds" for d
  proof (cases "unstored s d")
    case True
    then obtain pid now where "org_project_row d actor pid now \<in> set (projects s')"
      using new_rows_mem[OF news, of d] d by (auto simp: rows)
    then show ?thesis using ok[OF d]
      by (intro exI[of _ "org_project_row d actor pid now"])
        (simp add: stored_at_def up_to_date_def org_project_row_def org_def folded_def declared_ok_def)
  next
    case False
    then obtain r where r: "r \<in> set (projects s)" "org r" "folded r = dc_key d" by (auto simp: unstored_def)
    have "closed_row ds actor (nowf r) r = settled_row ds actor (nowf r) r"
      using declared_keysI[OF d] r(3) by (simp add: closed_row_def)
    moreover have "closed_row ds actor (nowf r) r \<in> set (projects s')" using r(1) by (simp add: rows)
    ultimately show ?thesis using r up_to_date_settled[OF ds d r(2,3)]
      by (intro exI[of _ "closed_row ds actor (nowf r) r"]) (simp add: stored_at_def)
  qed
  moreover have "row_status r' \<noteq> status_i8 Active"
    if r': "r' \<in> set (projects s')" "org r'" "folded r' \<notin> declared_keys ds" for r'
  proof -
    from r'(1) consider r where "r \<in> set (projects s)" "r' = closed_row ds actor (nowf r) r"
      | "r' \<in> set news" by (auto simp: rows)
    then show ?thesis
    proof cases
      case 1
      then have "folded r \<notin> declared_keys ds" "org r" using r' by simp_all
      then show ?thesis unfolding 1(2) by (simp add: closed_row_def archived_row_def)
    next
      case 2
      then obtain d pid now where d: "d \<in> set ds" "r' = org_project_row d actor pid now"
        using new_rows_declared[OF news] by fastforce
      then have "folded r' \<in> declared_keys ds" using ok[OF d(1)]
        by (intro declared_keysI[OF d(1)]) (simp add: folded_def declared_ok_def)
      with r'(3) show ?thesis by simp
    qed
  qed
  ultimately show ?thesis using synced_granted[OF assms] by (auto simp: converged_def)
qed

text \<open>C1. A sync that answers has converged the store: the caller was \<open>project\<close>, every declared
  project is an ACTIVE row with the declared name and repository, no organisation row outside
  the declaration is ACTIVE, and the team grants are exactly the declared ones.\<close>

theorem sync_converges:
  assumes "sync_as E caller req d s = (Inr resp, s')"
    and "path_collation (ci_key (coll E))" "store_good (coll E) s"
  shows "caller = Some SYNC_CALLER \<and> (\<exists>ds. validate_sync req = Inr ds \<and> converged ds s')"
  using assms
proof (cases rule: sync_cases)
  case (2 actor ds resp')
  then show ?thesis
    using synced_converged[OF _ assms(3) validate_sync_ok] by (auto simp: admitted_Inr)
qed auto

section \<open>A second sync\<close>

definition quiet_response :: "declared list \<Rightarrow> store \<Rightarrow> sync_response" where
  "quiet_response ds s =
     sync_default\<lparr>unchanged := of_nat (length ds),
       grants_declared := of_nat (length (concat (map dc_grants ds))),
       grants_unchanged := of_nat (length (grants s))\<rparr>"

lemma by_key_converged:
  assumes C: "path_collation (ci_key C)" "store_good C s" and conv: "converged ds s" and d: "d \<in> set ds"
  shows "\<exists>r. by_key (map stored_of (filter (\<lambda>r. owner_user_id r = None) (projects s))) (dc_key d) = Some (stored_of r)
    \<and> up_to_date d r"
proof -
  from conv d obtain r where r: "stored_at s d r" "up_to_date d r" by (auto simp: converged_def)
  then have "\<not> unstored s d" by (auto simp: unstored_def stored_at_def)
  then obtain st where st: "by_key (map stored_of (filter (\<lambda>r. owner_user_id r = None) (projects s))) (dc_key d) = Some st"
    using by_key_None[of s d] by fastforce
  then obtain q where q: "stored_at s d q" "st = stored_of q" using by_key_Some by blast
  then have "q = r" using folded_unique[OF C(1) store_good_projects[OF C(2)]] r(1) by (simp add: stored_at_def)
  with st q r show ?thesis by blast
qed

lemma write_rows_quiet:
  assumes C: "path_collation (ci_key (coll E))" "store_good (coll E) s" and conv: "converged ds s"
    and rows: "rows = map stored_of (filter (\<lambda>r. owner_user_id r = None) (projects s))"
  shows "set xs \<subseteq> set ds \<Longrightarrow>
    \<exists>ids'. for_each (\<lambda>d (resp, ids).
       and_then (write_one E d (by_key rows (dc_key d)) actor resp) (\<lambda>(pid, resp').
         ret (resp', ids(dc_key d \<mapsto> pid)))) xs (resp, ids) t
      = (Inr (resp\<lparr>unchanged := unchanged resp + of_nat (length xs)\<rparr>, ids'), t)"
proof (induction xs arbitrary: resp ids)
  case (Cons d xs)
  obtain r where r: "by_key rows (dc_key d) = Some (stored_of r)" "up_to_date d r"
    using by_key_converged[OF C conv] Cons.prems rows by auto
  then have one: "write_one E d (by_key rows (dc_key d)) actor resp
      = ret (id_of r, resp\<lparr>unchanged := unchanged resp + 1\<rparr>)"
    by (simp add: write_one_def Let_def stored_of_def up_to_date_def)
  from Cons.IH[of "resp\<lparr>unchanged := unchanged resp + 1\<rparr>" "ids(dc_key d \<mapsto> id_of r)"] Cons.prems
  show ?case by (simp add: one and_then_def ret_def add.assoc add.commute add.left_commute)
qed (simp add: ret_run)

lemma converged_wanted:
  assumes "store_good C s" "converged ds s" "declaration_ok ds"
  shows "g \<in> set (grants s) \<Longrightarrow> grants_of_store s ds g = Some (g_level g)"
    and "plan_inserts ds (pair_of s ` set (grants s)) = []"
proof -
  have eq: "granted s = declared_grants ds" using assms(2) by (simp add: converged_def)
  show "grants_of_store s ds g = Some (g_level g)" if "g \<in> set (grants s)" for g
  proof -
    have "(fst (pair_of s g), snd (pair_of s g), g_level g) \<in> granted s"
      using that unfolding granted_def by blast
    then show ?thesis using eq by (simp add: declared_grants_wanted[OF assms(3)] grants_of_store_def)
  qed
  have "(k, t, l) \<notin> set (plan_inserts ds (pair_of s ` set (grants s)))" for k t l
  proof
    assume "(k, t, l) \<in> set (plan_inserts ds (pair_of s ` set (grants s)))"
    then have "(k, t, l) \<in> declared_grants ds" and no: "(k, t) \<notin> pair_of s ` set (grants s)"
      by (auto simp: plan_inserts_mem declared_grants_def)
    then have "(k, t, l) \<in> granted s" using eq by simp
    then show False using no by (auto simp: granted_def image_iff)
  qed
  then show "plan_inserts ds (pair_of s ` set (grants s)) = []"
    by (cases "plan_inserts ds (pair_of s ` set (grants s))") auto
qed

lemma converged_nothing_to_archive: "converged ds s \<Longrightarrow> archive_list s ds = []"
  by (auto simp: archive_list_def converged_def filter_empty_conv)

lemma sync_apply_quiet:
  assumes E: "no_faults E" "path_collation (ci_key (coll E))" and good: "store_good (coll E) s"
    and ds: "declaration_ok ds" and conv: "converged ds s" and free: "free_of_aliases (coll E) ds s"
  shows "\<exists>m. sync_apply E ds actor aa ar \<lparr>work = s, stmts = n\<rparr>
    = (Inr (quiet_response ds s), \<lparr>work = s, stmts = m\<rparr>)"
proof -
  let ?C = "coll E"
  let ?rows = "map stored_of (filter (\<lambda>r. owner_user_id r = None) (projects s))"
  let ?plan = "grants_plan ds (stored_grants_of ?C s)"
  note reads = sync_reads_run[OF E(1) good]
  have arch: "archive_list s ds = []" by (rule converged_nothing_to_archive[OF conv])
  note w = converged_wanted[OF good conv ds]
  have all: "filter (\<lambda>g. grants_of_store s ds g = Some (g_level g)) (grants s) = grants s"
    using w(1) by simp
  have plan: "gp_deletes ?plan = []" "gp_updates ?plan = []" "gp_inserts ?plan = []"
    "gp_unchanged ?plan = of_nat (length (grants s))"
    unfolding plan_good[OF good] all using w by (auto simp: filter_empty_conv)
  have wg: "write_grants E ?plan ids = ret ()" for ids
    by (simp add: write_grants_def plan write_deletes_def write_updates_def write_inserts_def
        and_then_def ret_def)
  let ?t = "\<lparr>work = s, stmts = Suc (Suc (Suc (Suc n)))\<rparr>"
  obtain ids where wr: "write_rows E ?rows actor ds ?t
      = (Inr (sync_default\<lparr>unchanged := of_nat (length ds)\<rparr>, ids), ?t)"
    using write_rows_quiet[OF E(2) good conv refl order_refl, of actor sync_default Map.empty ?t]
    by (auto simp: write_rows_def sync_default_def)
  show ?thesis
    unfolding sync_apply_def
    by (simp add: tx_simps reads free wr wg plan Let_def to_archive_stored arch archive_guard_def
        revoke_guard_def archive_ids_def quiet_response_def sum_of_nat_lengths sync_default_def)
qed

text \<open>C22. Idempotent by convergence: after a sync that answered, any later call that declares the same
  rows - by whatever principal, with whatever flags - answers that nothing changed, and changes
  nothing: no version, no timestamp, no grant.\<close>

theorem sync_idempotent:
  assumes first: "sync_as E caller req d s = (Inr resp, s')"
    and C: "path_collation (ci_key (coll E))" "store_good (coll E) s"
    and E': "no_faults E'" "coll E' = coll E" "acquire (the_pool E') d' = Inr ()"
    and again: "admitted caller' (sy_scope req') = Inr actor'" "validate_sync req' = validate_sync req"
  shows "\<exists>ds. validate_sync req = Inr ds
    \<and> sync_as E' caller' req' d' s' = (Inr (quiet_response ds s'), s')"
  using first C
proof (cases rule: sync_cases)
  case (2 actor ds resp')
  have ok: "declaration_ok ds" using validate_sync_ok[OF 2(2)] .
  have good: "store_good (coll E') s'" using 2(4) E'(2) by (simp add: synced_def)
  have free: "free_of_aliases (coll E') ds s'"
    using 2(4,6) E'(2) by (simp add: synced_def free_of_aliases_def)
  obtain m where run: "sync_apply E' ds actor' (sy_allow_mass_archive req') (sy_allow_mass_revoke req')
      \<lparr>work = s', stmts = 1\<rparr> = (Inr (quiet_response ds s'), \<lparr>work = s', stmts = m\<rparr>)"
    using sync_apply_quiet[OF E'(1) _ good ok synced_converged[OF 2(4) C(2) ok] free] C(1) E'(2)
    by metis
  then have "settle (sync_apply E' ds actor' (sy_allow_mass_archive req') (sy_allow_mass_revoke req'))
      \<lparr>work = s', stmts = 1\<rparr> = (Inr (Commit (quiet_response ds s')), \<lparr>work = s', stmts = m\<rparr>)"
    by (simp only: settle_Commit)
  then have "sync_as E' caller' req' d' s' = (Inr (quiet_response ds s'), s')"
    by (simp add: sync_as_def again 2(2) run_tx_def E' no_faultsD[OF E'(1)] del: One_nat_def)
  with 2(2) show ?thesis by blast
qed auto

section \<open>What a sync leaves alone\<close>

definition kept_row :: "project_row \<Rightarrow> project_row \<Rightarrow> bool" where
  "kept_row r r' \<longleftrightarrow>
     id_of r' = id_of r \<and> path r' = path r \<and> owner_user_id r' = owner_user_id r
     \<and> row_visibility r' = row_visibility r \<and> created_by r' = created_by r
     \<and> created_at r' = created_at r \<and> last_seen_at r' = last_seen_at r
     \<and> (r' = r \<or> org r \<and> version r' = version r + 1)"

lemma closed_row_kept: "kept_row r (closed_row ds actor now r)"
  by (auto simp: kept_row_def closed_row_def settled_row_def overwrite_def archived_row_def org_def
      split: option.splits dest!: find_in)

text \<open>However a sync ends, no row is deleted and none is renamed: every row keeps its id, its stored
  spelling, its owner and its history, a row that changed is an organisation row whose version moved
  by one, a private row is exactly as it was, and every new row is an organisation row. Former paths
  and the ledger are not touched.\<close>

lemma sync_rows_kept:
  assumes "sync_as E caller req d s = (r, s')"
    and "path_collation (ci_key (coll E))" "store_good (coll E) s"
  shows "(\<exists>old news. projects s' = old @ news \<and> list_all2 kept_row (projects s) old
      \<and> (\<forall>n \<in> set news. org n))
    \<and> aliases s' = aliases s \<and> writes s' = writes s"
  using assms
proof (cases rule: sync_cases)
  case 1
  then show ?thesis
    by (intro conjI exI[of _ "projects s"] exI[of _ "[]"]) (auto simp: list_all2_same kept_row_def)
next
  case (2 actor ds resp)
  from 2(4) obtain nowf news where
    rows: "projects s' = map (\<lambda>r. closed_row ds actor (nowf r) r) (projects s) @ news"
    and news: "new_rows (filter (unstored s) ds) actor news" and same: "aliases s' = aliases s" "writes s' = writes s"
    by (auto simp: synced_def)
  have "\<forall>n \<in> set news. org n"
  proof
    fix n assume "n \<in> set news"
    then obtain d pid now where "n = org_project_row d actor pid now"
      using new_rows_declared[OF news] by blast
    then show "org n" by (simp add: org_def)
  qed
  with rows same show ?thesis
    by (intro conjI exI[of _ "map (\<lambda>r. closed_row ds actor (nowf r) r) (projects s)"] exI[of _ news])
      (auto simp: list_all2_map2 list_all2_same closed_row_kept)
qed

section \<open>The guards\<close>

definition deactivated :: "store \<Rightarrow> store \<Rightarrow> project_row list" where
  "deactivated s s' =
     filter (\<lambda>r. \<exists>r' \<in> set (projects s'). id_of r' = id_of r \<and> row_status r' \<noteq> status_i8 Active) (org_active s)"

definition revoked :: "store \<Rightarrow> store \<Rightarrow> grant_row list" where
  "revoked s s' =
     filter (\<lambda>g. \<forall>g' \<in> set (grants s'). \<not> (g_project_id g' = g_project_id g \<and> g_team_id g' = g_team_id g)) (grants s)"

lemma length_filter_mono: "(\<And>x. x \<in> set xs \<Longrightarrow> P x \<Longrightarrow> Q x) \<Longrightarrow> length (filter P xs) \<le> length (filter Q xs)"
  by (induction xs) auto

lemma synced_deactivated:
  assumes "synced C actor ds s s'" "store_good C s"
  shows "length (deactivated s s') \<le> length (archive_list s ds)"
proof -
  from assms obtain nowf news where good': "store_good C s'"
    and rows: "projects s' = map (\<lambda>r. closed_row ds actor (nowf r) r) (projects s) @ news"
    by (auto simp: synced_def)
  have hit: "org r \<and> row_status r = status_i8 Active \<and> folded r \<notin> declared_keys ds"
    if r: "r \<in> set (projects s)" "org r" "row_status r = status_i8 Active"
      and r': "r' \<in> set (projects s')" "id_of r' = id_of r" "row_status r' \<noteq> status_i8 Active" for r r'
  proof -
    have "closed_row ds actor (nowf r) r \<in> set (projects s')" using r(1) rows by simp
    then have "r' = closed_row ds actor (nowf r) r"
      using projects_good_id_eq[OF store_good_projects[OF good'] r'(1)] r'(2) by (simp add: same_id_def)
    with r'(3) r(2,3) show ?thesis
      by (auto simp: closed_row_def settled_row_def overwrite_def split: if_splits option.splits)
  qed
  have "length (deactivated s s') \<le> length (filter (\<lambda>r. org r \<and> row_status r = status_i8 Active
      \<and> folded r \<notin> declared_keys ds) (projects s))"
    unfolding deactivated_def org_active_def filter_filter
    by (rule length_filter_mono) (use hit in blast)
  then show ?thesis by (simp add: archive_list_def)
qed

lemma synced_revoked:
  assumes "synced C actor ds s s'"
  shows "length (revoked s s') \<le> length (filter (\<lambda>g. grants_of_store s ds g = None) (grants s))"
proof -
  from assms obtain ids where gs: "grants s' = final_grants s ds ids" by (auto simp: synced_def)
  have "grants_of_store s ds g = None"
    if "g \<in> set (grants s)" "\<forall>g' \<in> set (grants s'). \<not> (g_project_id g' = g_project_id g \<and> g_team_id g' = g_team_id g)" for g
  proof (rule ccontr)
    assume "grants_of_store s ds g \<noteq> None"
    then have "g\<lparr>g_level := the (grants_of_store s ds g)\<rparr> \<in> set (grants s')"
      using that(1) by (auto simp: gs final_grants_def)
    with that(2) show False by force
  qed
  then show ?thesis unfolding revoked_def by (intro length_filter_mono) blast
qed

text \<open>C13. Without the flag that allows it, a sync never deactivates more than half of the active
  organisation projects, however it ends.\<close>

theorem sync_archives_at_most_half:
  assumes "sync_as E caller req d s = (r, s')"
    and "path_collation (ci_key (coll E))" "store_good (coll E) s"
    and "\<not> sy_allow_mass_archive req"
  shows "length (deactivated s s') * 2 \<le> length (org_active s)"
  using assms(1-3)
proof (cases rule: sync_cases)
  case 1
  have "r' = r" if "r \<in> set (projects s)" "r' \<in> set (projects s)" "id_of r' = id_of r" for r r'
    using projects_good_id_eq[OF store_good_projects[OF assms(3)] that(2,1)] that(3)
    by (simp add: same_id_def)
  then have "deactivated s s = []"
    unfolding deactivated_def org_active_def filter_empty_conv by fastforce
  with 1 show ?thesis by simp
next
  case (2 actor ds resp)
  have "length (archive_list s ds) * 2 \<le> length (org_active s)"
    using 2(7) assms(4) by (simp add: guards_held_def)
  with synced_deactivated[OF 2(4) assms(3)] show ?thesis by linarith
qed

text \<open>C14. Without the flag that allows it, a sync never revokes more than half of the stored team
  grants, however it ends.\<close>

theorem sync_revokes_at_most_half:
  assumes "sync_as E caller req d s = (r, s')"
    and "path_collation (ci_key (coll E))" "store_good (coll E) s"
    and "\<not> sy_allow_mass_revoke req"
  shows "length (revoked s s') * 2 \<le> length (grants s)"
  using assms(1-3)
proof (cases rule: sync_cases)
  case 1
  have "revoked s s = []" by (auto simp: revoked_def filter_empty_conv)
  with 1 show ?thesis by simp
next
  case (2 actor ds resp)
  have "length (filter (\<lambda>g. grants_of_store s ds g = None) (grants s)) * 2 \<le> length (grants s)"
    using 2(7) assms(4) by (simp add: guards_held_def)
  with synced_revoked[OF 2(4)] show ?thesis by linarith
qed

section \<open>The counts\<close>

lemma counted_total:
  assumes "path_collation (ci_key C)" "store_good C s"
  shows "length (filter (unstored s) ds) + length (filter (is_kept s) ds)
    + length (filter (is_revived s) ds) + length (filter (is_edited s) ds) = length ds"
proof (induction ds)
  case (Cons d ds)
  show ?case
  proof (cases "unstored s d")
    case True
    then have "\<not> is_kept s d" "\<not> is_revived s d" "\<not> is_edited s d"
      by (auto simp: unstored_def is_kept_def is_revived_def is_edited_def stored_at_def)
    with True Cons show ?thesis by simp
  next
    case False
    then obtain r where at: "stored_at s d r" by (auto simp: unstored_def stored_at_def)
    have only: "stored_at s d q \<longleftrightarrow> q = r" for q
      using folded_unique[OF assms(1) store_good_projects[OF assms(2)]] at by (auto simp: stored_at_def)
    have "is_kept s d = up_to_date d r" "is_revived s d = (row_status r \<noteq> status_i8 Active)"
      "is_edited s d = (row_status r = status_i8 Active \<and> \<not> up_to_date d r)"
      by (simp_all add: is_kept_def is_revived_def is_edited_def only del: status_i8.simps)
    moreover have "up_to_date d r \<Longrightarrow> row_status r = status_i8 Active" by (simp add: up_to_date_def)
    ultimately show ?thesis using False Cons by (auto simp del: status_i8.simps)
  qed
qed simp

text \<open>The five row counts are exact: every declared row is counted once, as inserted, updated,
  reactivated or unchanged according to what the store held, and the rows archived are the
  active organisation rows the declaration does not name.\<close>

theorem sync_counts:
  assumes "sync_as E caller req d s = (Inr resp, s')"
    and "path_collation (ci_key (coll E))" "store_good (coll E) s"
  shows "\<exists>ds. validate_sync req = Inr ds \<and> answered (coll E) ds s resp
    \<and> inserted resp + updated resp + reactivated resp + unchanged resp = of_nat (length ds)
    \<and> of_nat (length (projects s')) = of_nat (length (projects s)) + inserted resp"
  using assms
proof (cases rule: sync_cases)
  case (2 actor ds resp')
  then have a: "answered (coll E) ds s resp" by auto
  have "inserted resp + updated resp + reactivated resp + unchanged resp = of_nat (length ds)"
    using a counted_total[OF assms(2,3), of ds] unfolding answered_def counted_def
    by (metis (no_types, opaque_lifting) add.assoc add.commute of_nat_add)
  moreover from 2(4) obtain nowf news where
    "projects s' = map (\<lambda>r. closed_row ds actor (nowf r) r) (projects s) @ news"
    "new_rows (filter (unstored s) ds) actor news" by (auto simp: synced_def)
  then have "of_nat (length (projects s')) = of_nat (length (projects s)) + inserted resp"
    using a by (auto simp: answered_def counted_def new_rows_def dest: list_all2_lengthD)
  ultimately show ?thesis using 2(2) a by blast
qed auto

end
