(* ===== verification/Read_After_Write.thy ===== *)
theory Read_After_Write
  imports Pagination Register_Live Sync_Spec
begin

text \<open>
  What a write promises the reads: a registered project is found at its path as it was answered, and
  after a sync every declared path resolves to itself with the declared repository and answers the
  declared name and grants.
\<close>

section \<open>The candidate itself\<close>

lemma resolve_chain_hd:
  "\<not> eq_ignore_ascii_case p RESERVED_ROOT \<Longrightarrow> \<exists>as. resolve_chain p = p # as"
  by (simp add: resolve_chain_def ancestors_def)

lemma walk_live:
  assumes "store_good C s" and "r \<in> set (projects s)" and "same_path C (path r) p"
    and "\<not> eq_ignore_ascii_case p RESERVED_ROOT"
  shows "walk C s (resolve_chain p) = Some (p, r, False)"
  using resolve_chain_hd[OF assms(4)] live_names[OF assms(1-3)] by auto

lemma resolve_live:
  assumes "no_faults E" and "acquire (the_pool E) d = Inr ()" and "path_collation (ci_key (coll E))"
    and good: "store_good (coll E) s" and r: "r \<in> set (projects s)" "same_path (coll E) (path r) (rs_candidate_path req)"
    and ok: "path_ok (rs_candidate_path req)" "\<not> eq_ignore_ascii_case (rs_candidate_path req) RESERVED_ROOT"
  shows "resolve E req d s =
     (Inr \<lparr>rs_resolved_path = path r, rs_exact = True, rs_via_alias = False, rs_status = row_status r,
           rs_source_repo = unwrap_or_default (source_repo r)\<rparr>, s)"
proof -
  have "resolve_checks req = Inr ()" using ok by (simp add: resolve_checks_Inr)
  from resolve_walk[OF assms(1,2) this assms(3) good] walk_live[OF good r ok(2)]
  show ?thesis by (simp add: walk_answer_def)
qed

section \<open>After a registration\<close>

lemma registered_row:
  assumes "registered E req sc resp s s'"
  shows "\<exists>pid now. resp = \<lparr>rg_meta = Some (meta_of pid 1 (rg_path req) (sc_user_id sc))\<rparr>
    \<and> private_row req sc \<lparr>cl_owner_user_id = sc_user_id sc, cl_visibility = 1\<rparr> pid now \<in> set (projects s')"
  using assms by (force simp: registered_def)

text \<open>C29. A registration can be read back: unless it answered from the ledger, \<open>GetProject\<close> at the
  registered path - in the next call, with any scope - answers an ACTIVE project with the
  registered path and display name, no grants, and the very \<open>Meta\<close> the registration answered, its
  two timestamps now filled in.\<close>

theorem register_then_get:
  assumes "register_as E caller req d s = (Inr resp, s')"
    and "store_good (coll E) s" and "s' \<noteq> s"
    and "no_faults E'" and "acquire (the_pool E') d' = Inr ()" and "coll E' = coll E"
    and "gt_path greq = rg_path req"
  shows "\<exists>p m created updated. get E' greq d' s' = (Inr \<lparr>gt_project = Some p\<rparr>, s')
    \<and> p_path p = rg_path req \<and> p_display_name p = rg_display_name req \<and> p_status p = 1
    \<and> p_last_seen_at p = None \<and> p_grants p = []
    \<and> rg_meta resp = Some m
    \<and> p_meta p = Some (m\<lparr>m_created_at := Some created, m_updated_at := Some updated\<rparr>)"
proof -
  let ?C = "coll E"
  from assms(1) obtain sc cls where checks: "register_checks (uuid_api E) req = Inr (sc, cls)"
    and "replayed E req sc resp s \<and> s' = s \<or> registered E req sc resp s s'"
    by (rule register_success)
  then have "registered E req sc resp s s'" using assms(3) by simp
  then obtain pid now where resp: "resp = \<lparr>rg_meta = Some (meta_of pid 1 (rg_path req) (sc_user_id sc))\<rparr>"
    and row: "private_row req sc \<lparr>cl_owner_user_id = sc_user_id sc, cl_visibility = 1\<rparr> pid now \<in> set (projects s')"
      (is "?r \<in> _")
    using registered_row by blast
  have good: "store_good (coll E') s'" using register_store_good[OF assms(1,2)] assms(6) by simp
  have ok: "path_ok (gt_path greq)" using checks assms(7) by (auto simp: register_checks_Inr)
  have "path ?r = gt_path greq" using assms(7) by (simp add: private_row_def)
  then have "names (coll E') s' (gt_path greq) = Some (?r, False)"
    by (intro live_names[OF good row]) (simp add: same_path_def)
  then have "get E' greq d' s' = (Inr \<lparr>gt_project = Some (project_view (coll E') s' ?r)\<rparr>, s')"
    using get_run[OF assms(4,5) ok good] by simp
  moreover have "p_meta (project_view (coll E') s' ?r)
      = Some ((meta_of pid 1 (rg_path req) (sc_user_id sc))\<lparr>m_created_at := Some (at now), m_updated_at := Some (at now)\<rparr>)"
    by (simp add: project_view_def row_to_project_def COLUMNS_def private_row_def meta_of_def unwrap_or_default_def)
  ultimately show ?thesis using resp
    by (intro exI[of _ "project_view (coll E') s' ?r"] exI[of _ "meta_of pid 1 (rg_path req) (sc_user_id sc)"]
        exI[of _ "at now"] conjI)
      (simp_all add: project_view_def row_to_project_def COLUMNS_def private_row_def own_grants_def)
qed

section \<open>After a sync\<close>

lemma sync_converged:
  assumes "sync_as E caller req d s = (Inr resp, s')"
    and "path_collation (ci_key (coll E))" "store_good (coll E) s"
  obtains ds where "validate_sync req = Inr ds" and "declaration_ok ds" and "converged ds s'"
    and "store_good (coll E) s'"
  using assms
proof (cases rule: sync_cases)
  case (2 actor ds resp')
  note ok = validate_sync_ok[OF 2(2)]
  show ?thesis
    by (rule that[OF 2(2) ok synced_converged[OF 2(4) assms(3) ok]]) (use 2(4) in \<open>simp add: synced_def\<close>)
qed auto

lemma stored_at_names:
  assumes ck: "path_collation (ci_key C)" and good: "store_good C s" and d: "declared_ok d" and r: "stored_at s d r"
  shows "r \<in> set (projects s)" and "same_path C (path r) (dc_path d)"
proof -
  show r_in: "r \<in> set (projects s)" using r by (simp add: stored_at_def)
  then have "path_ok (path r)"
    using projects_good_row[OF store_good_projects[OF good]] by (simp add: row_good_def)
  then show "same_path C (path r) (dc_path d)"
    using path_collation.ck_path[OF ck] d r
    by (simp add: same_path_def stored_at_def declared_ok_def folded_def eq_ignore_ascii_case_def)
qed

lemma own_grants_declared:
  assumes ck: "path_collation (ci_key C)" and good: "store_good C s" and conv: "converged ds s" and ds: "declaration_ok ds"
    and d: "d \<in> set ds" and r: "stored_at s d r"
  shows "(\<lambda>g. (dg_team_id g, dg_level g)) ` set (own_grants C s r) = set (dc_grants d)"
proof -
  have org: "owner_user_id r = None" using r by (simp add: stored_at_def org_def)
  have pair: "pair_of s g = (dc_key d, g_team_id g)" if g: "g \<in> set (grants s)" "g_project_id g = id_of r" for g
  proof -
    obtain q where q: "q \<in> set (projects s)" "id_of q = g_project_id g" "pair_of s g = (folded q, g_team_id g)"
      by (rule grant_owner[OF good g(1)])
    then have "q = r"
      using projects_good_id_eq[OF store_good_projects[OF good] q(1), of r] r g(2)
      by (simp add: same_id_def stored_at_def)
    with q(3) r show ?thesis by (simp add: stored_at_def)
  qed
  have only: "g_project_id g = id_of r" if g: "g \<in> set (grants s)" "fst (pair_of s g) = dc_key d" for g
  proof -
    obtain q where q: "q \<in> set (projects s)" "id_of q = g_project_id g" "pair_of s g = (folded q, g_team_id g)"
      by (rule grant_owner[OF good g(1)])
    then have "folded q = folded r" using g(2) r by (simp add: stored_at_def)
    then have "q = r"
      using folded_unique[OF ck store_good_projects[OF good] q(1)] r by (simp add: stored_at_def)
    with q(2) show ?thesis by simp
  qed
  have own: "(\<lambda>g. (dg_team_id g, dg_level g)) ` set (own_grants C s r)
      = {(g_team_id g, g_level g) |g. g \<in> set (grants s) \<and> g_project_id g = id_of r}"
    using org by (auto simp: own_grants_def image_iff)
  show ?thesis unfolding own
  proof (intro equalityI subsetI)
    fix x assume "x \<in> {(g_team_id g, g_level g) |g. g \<in> set (grants s) \<and> g_project_id g = id_of r}"
    then obtain g where g: "g \<in> set (grants s)" "g_project_id g = id_of r" "x = (g_team_id g, g_level g)"
      by blast
    then have "(dc_key d, g_team_id g, g_level g) \<in> granted s"
      using pair[OF g(1,2)] by (force simp: granted_def)
    then have "(dc_key d, g_team_id g, g_level g) \<in> declared_grants ds"
      using conv by (simp add: converged_def)
    then obtain d' where "d' \<in> set ds" "dc_key d' = dc_key d" "(g_team_id g, g_level g) \<in> set (dc_grants d')"
      by (auto simp: declared_grants_def)
    moreover have "d' = d" if "d' \<in> set ds" "dc_key d' = dc_key d" for d'
      using ds d that distinct_map_eq by (fastforce simp: declaration_ok_def)
    ultimately show "x \<in> set (dc_grants d)" using g(3) by blast
  next
    fix x assume "x \<in> set (dc_grants d)"
    then have "(dc_key d, fst x, snd x) \<in> granted s"
      using conv d by (simp add: converged_def declared_grants_def) (metis prod.collapse)
    then obtain g where "g \<in> set (grants s)" "fst (pair_of s g) = dc_key d" "snd (pair_of s g) = fst x"
      "g_level g = snd x" by (auto simp: granted_def)
    moreover from this have "g_project_id g = id_of r" using only by blast
    moreover from calculation have "g_team_id g = fst x" using pair by fastforce
    ultimately show "x \<in> {(g_team_id g, g_level g) |g. g \<in> set (grants s) \<and> g_project_id g = id_of r}"
      by (cases x) force
  qed
qed

text \<open>C28. A declaration can be read back: after a sync that answered, every declared path resolves to
  itself - exactly, not through an alias, ACTIVE, with the declared repository - and \<open>GetProject\<close>
  there answers the declared display name and exactly the declared team grants.\<close>

theorem sync_then_read:
  assumes "sync_as E caller req d s = (Inr resp, s')"
    and "path_collation (ci_key (coll E))" and "store_good (coll E) s"
    and "no_faults E'" and "acquire (the_pool E') d' = Inr ()" and "coll E' = coll E"
    and "validate_sync req = Inr ds" and "dc \<in> set ds"
    and "rs_candidate_path rreq = dc_path dc" and "gt_path greq = dc_path dc"
  shows "\<exists>p q. resolve E' rreq d' s' = (Inr \<lparr>rs_resolved_path = p, rs_exact = True, rs_via_alias = False,
             rs_status = 1, rs_source_repo = dc_source_repo dc\<rparr>, s')
    \<and> to_ascii_lowercase p = dc_key dc
    \<and> get E' greq d' s' = (Inr \<lparr>gt_project = Some q\<rparr>, s')
    \<and> p_path q = p \<and> p_display_name q = dc_display_name dc \<and> p_status q = 1
    \<and> (\<lambda>g. (dg_team_id g, dg_level g)) ` set (p_grants q) = set (dc_grants dc)"
proof -
  from sync_converged[OF assms(1-3)] assms(7) have decl: "declaration_ok ds"
    and conv: "converged ds s'" and good: "store_good (coll E') s'" using assms(6) by auto
  have d: "declared_ok dc" using decl assms(8) by (simp add: declaration_ok_def)
  obtain r where r: "stored_at s' dc r" "up_to_date dc r"
    using conv assms(8) by (auto simp: converged_def)
  have ck: "path_collation (ci_key (coll E'))" using assms(2,6) by simp
  note at = stored_at_names[OF ck good d r(1)]
  have "resolve E' rreq d' s' = (Inr \<lparr>rs_resolved_path = path r, rs_exact = True, rs_via_alias = False,
      rs_status = row_status r, rs_source_repo = unwrap_or_default (source_repo r)\<rparr>, s')"
    by (rule resolve_live[OF assms(4,5) ck good at(1)])
      (use at(2) d in \<open>simp_all add: assms(9) declared_ok_def\<close>)
  moreover have "names (coll E') s' (gt_path greq) = Some (r, False)"
    using live_names[OF good at] assms(10) by simp
  then have "get E' greq d' s' = (Inr \<lparr>gt_project = Some (project_view (coll E') s' r)\<rparr>, s')"
    using get_run[OF assms(4,5) _ good, of greq] d assms(10) by (simp add: declared_ok_def)
  ultimately show ?thesis
    using r own_grants_declared[OF ck good conv decl assms(8) r(1)]
    by (intro exI[of _ "path r"] exI[of _ "project_view (coll E') s' r"] conjI)
      (simp_all add: up_to_date_def unwrap_or_default_def stored_at_def folded_def project_view_def
        row_to_project_def COLUMNS_def)
qed

end
