(* ===== verification/Sample.thy ===== *)
theory Sample
  imports Tx
begin

text \<open>
  A concrete environment and the values the examples of the other theories evaluate: one user
  id the \<open>uuid\<close> stand-in knows, collations that weigh ASCII as \<open>utf8mb4_general_ci\<close> does, a
  codec that inverts on the responses the code builds, a pool with a free connection, and an
  engine that raises no fault.
\<close>

definition sample_uuid :: string where
  "sample_uuid = ''0190a0b0-c0d0-7000-8000-000000000001''"

definition sample_uuids :: uuid_crate where
  "sample_uuids =
     \<lparr>try_parse = (\<lambda>s. if s = sample_uuid then Some 1 else None), version_num = (\<lambda>_. 7),
      is_rfc4122 = (\<lambda>_. True), hyphenated = (\<lambda>_. sample_uuid)\<rparr>"

definition sample_user :: string where
  "sample_user = ''yadgar:user:'' @ sample_uuid"

definition bar :: char where
  "bar = CHR ''|''"

definition encode_sample :: "register_response \<Rightarrow> string" where
  "encode_sample r =
     (case rg_meta r of
        None \<Rightarrow> []
      | Some m \<Rightarrow> join_on bar [m_id m, m_project_id m, m_owner_user_id m])"

definition decode_sample :: "string \<Rightarrow> register_response option" where
  "decode_sample bytes =
     (case split_on bar bytes of
        [pid, p, owner] \<Rightarrow>
          Some \<lparr>rg_meta = Some \<lparr>m_id = pid, m_version = 1, m_project_id = p, m_owner_user_id = owner,
             m_team_id = [], m_visibility = 0, m_created_by = owner, m_updated_by = owner,
             m_created_at = None, m_updated_at = None, m_deleted_at = None, m_derived_from = []\<rparr>\<rparr>
      | _ \<Rightarrow> None)"

definition sample_env :: env where
  "sample_env =
     \<lparr>coll = \<lparr>ci_key = general_ci, srv_key = general_ci\<rparr>, fault = (\<lambda>_. None), clock = (\<lambda>n. int n),
      now_v7 = (\<lambda>n. ''00000000-0000-7000-8000-00000000000'' @ [char_of (48 + n mod 16)]),
      commit_lands = False,
      the_pool = \<lparr>acquire_timeout = 30, pool_answer = None, pool_answers_after = 1\<rparr>,
      uuid_api = sample_uuids, sha256 = (\<lambda>bytes. bytes),
      encode_request = (\<lambda>r. join_on bar [rg_path r, rg_display_name r, rg_source_repo r]),
      encode_response = encode_sample, decode_response = decode_sample\<rparr>"

definition sample_deadline :: deadline where
  "sample_deadline = \<lparr>remaining = Some 5, bound_of = (\<lambda>ceiling. min 5 ceiling)\<rparr>"

definition sample_scope :: scope where
  "sample_scope =
     \<lparr>sc_user_id = sample_user, sc_project_id = ''yadgarhq'', sc_team_ids = [], sc_instance_id = ''i'',
      sc_request_id = ''r''\<rparr>"

lemmas sample_defs =
  sample_uuid_def sample_uuids_def sample_user_def bar_def encode_sample_def decode_sample_def
  sample_env_def sample_deadline_def sample_scope_def

lemma sample_env_ready [simp]:
  "no_faults sample_env" "acquire (the_pool sample_env) sample_deadline = Inr ()"
  "coll sample_env = \<lparr>ci_key = general_ci, srv_key = general_ci\<rparr>"
  "uuid_api sample_env = sample_uuids" "fault sample_env n = None" "clock sample_env n = int n"
  "path_collation (ci_key (coll sample_env))" "path_collation (srv_key (coll sample_env))"
  using general.path_collation_axioms
  by (simp_all add: no_faults_def sample_env_def sample_deadline_def acquire_def pool_acquire_def)

end
