(* ===== verification/Register_Examples.thy ===== *)
theory Register_Examples
  imports Register_Live Sample
begin

text \<open>\<open>RegisterProject\<close> run on concrete requests.\<close>

definition sample_register :: register_request where
  "sample_register =
     \<lparr>rg_idempotency = Some \<lparr>idem_key = ''k1''\<rparr>, rg_scope = Some sample_scope,
      rg_path = ''local/'' @ sample_uuid @ ''/notes'', rg_display_name = ''Notes'', rg_source_repo = []\<rparr>"

abbreviation run_register :: "register_request \<Rightarrow> store \<Rightarrow> (status + register_response) \<times> store" where
  "run_register req s \<equiv> register_as sample_env (Some REGISTER_CALLER) req sample_deadline s"

definition store1 :: store where
  "store1 = snd (run_register sample_register empty_store)"

lemma sample_checks:
  "register_checks sample_uuids sample_register
     = Inr (sample_scope, \<lparr>cl_owner_user_id = sample_user, cl_visibility = 1\<rparr>)"
  by code_simp

lemma sample_widths [simp]:
  "fits 64 (sc_user_id sample_scope)" "fits 255 (sc_project_id sample_scope)" "fits 255 ''k1''"
  by code_simp+

lemma sample_key [simp]:
  "present (rg_idempotency sample_register) = Some ''k1''"
  "rg_scope sample_register = Some sample_scope"
  by (simp_all add: sample_register_def present_def)

lemma length_minted: "length (minted sample_env n) = 51"
  by (simp add: minted_def sample_env_def)

lemma sample_ids: "fits 96 (minted sample_env n)"
  using chars_count_le[of "minted sample_env n"] by (simp add: fits_def length_minted)

lemma length_encode_sample:
  "length (encode_sample \<lparr>rg_meta = Some (meta_of pid v p u)\<rparr>) = length pid + length p + length u + 2"
  by (simp add: encode_sample_def meta_of_def)

lemma sample_codecs [simp]:
  "encode_response sample_env = encode_sample" "decode_response sample_env = decode_sample"
  "sha256 sample_env = (\<lambda>bytes. bytes)"
  "encode_request sample_env = (\<lambda>r. join_on bar [rg_path r, rg_display_name r, rg_source_repo r])"
  by (simp_all add: sample_env_def)

lemma sample_encoded: "length (encode_sample (response_for sample_env sample_register sample_scope n)) \<le> 4096"
  by (simp add: response_for_def length_encode_sample length_minted sample_scope_def sample_user_def
        sample_uuid_def sample_register_def)

lemma digit_not_bar: "bar \<noteq> char_of (48 + n mod 16 :: nat)"
proof
  assume eq: "bar = char_of (48 + n mod 16 :: nat)"
  have "48 + n mod 16 < 256" using mod_less_divisor[of 16 n] by simp
  then have "byte bar = 48 + n mod 16" unfolding eq by (rule byte_char_of)
  moreover have "byte bar = 124" by (simp add: bar_def byte_def)
  ultimately show False using mod_less_divisor[of 16 n] by simp
qed

lemma sample_decoded:
  "decode_sample (encode_sample (response_for sample_env sample_register sample_scope n))
     = Some (response_for sample_env sample_register sample_scope n)"
proof -
  have pieces: "bar \<notin> set (minted sample_env n)" "bar \<notin> set (rg_path sample_register)" "bar \<notin> set sample_user"
    using digit_not_bar[of n]
    by (simp_all add: minted_def sample_env_def sample_user_def sample_uuid_def sample_register_def)
      (simp_all add: bar_def)
  have "split_on bar (join_on bar [minted sample_env n, rg_path sample_register, sample_user])
      = [minted sample_env n, rg_path sample_register, sample_user]"
    by (rule split_join) (use pieces in auto)
  then show ?thesis
    by (simp add: decode_sample_def encode_sample_def response_for_def meta_of_def sample_scope_def)
qed

lemma sample_usable:
  "key_free sample_env sample_scope ''k1'' s \<Longrightarrow> key_usable sample_env sample_register sample_scope s"
  using sample_encoded by (simp add: key_usable_def)

definition response1 :: register_response where
  "response1 = projr (fst (run_register sample_register empty_store))"

lemmas sample_landing =
  sample_env_ready(1) sample_env_ready(7) sample_env_ready(2)
  sample_checks[folded sample_env_ready(4)] sample_widths(1)

theorem register_lands_example:
  "\<exists>n s'. run_register sample_register empty_store
        = (Inr (response_for sample_env sample_register sample_scope n), s')
      \<and> registered sample_env sample_register sample_scope
          (response_for sample_env sample_register sample_scope n) empty_store s'"
  by (rule register_lands[OF sample_landing])
    (simp_all add: path_free_def ids_fresh_def empty_store_def sample_ids sample_usable key_free_def)

lemma sample_lands:
  "run_register sample_register empty_store = (Inr response1, store1)"
  "registered sample_env sample_register sample_scope response1 empty_store store1"
  "\<exists>n. response1 = response_for sample_env sample_register sample_scope n"
proof -
  have "\<exists>n s'. run_register sample_register empty_store
        = (Inr (response_for sample_env sample_register sample_scope n), s')
      \<and> registered sample_env sample_register sample_scope
          (response_for sample_env sample_register sample_scope n) empty_store s'"
    by (rule register_run_lands[OF sample_landing])
      (simp_all add: path_free_def ids_fresh_def empty_store_def sample_ids sample_usable key_free_def)
  then show "run_register sample_register empty_store = (Inr response1, store1)"
    "registered sample_env sample_register sample_scope response1 empty_store store1"
    "\<exists>n. response1 = response_for sample_env sample_register sample_scope n"
    by (auto simp: response1_def store1_def)
qed

lemma sample_decoded1: "decode_response sample_env (encode_response sample_env response1) = Some response1"
proof -
  from sample_lands(3) obtain n where "response1 = response_for sample_env sample_register sample_scope n" ..
  with sample_decoded[of n] show ?thesis by (simp only: sample_codecs)
qed

lemma store1_good: "store_good (coll sample_env) store1"
  using register_store_good[OF sample_lands(1)] by simp

lemma store1_taken: "\<not> path_free (coll sample_env) (rg_path sample_register) store1"
proof -
  from sample_lands(2) obtain pid now ws cls where
    "store1 = empty_store\<lparr>projects := projects empty_store
       @ [private_row sample_register sample_scope cls pid now], writes := ws\<rparr>"
    unfolding registered_def by blast
  then have "\<exists>r \<in> set (projects store1). path r = rg_path sample_register"
    by (rule ssubst) (simp add: private_row_def)
  then show ?thesis unfolding path_free_def same_path_def by metis
qed

lemma store1_not_empty: "store1 \<noteq> empty_store"
proof
  assume "store1 = empty_store"
  moreover have "path_free (coll sample_env) (rg_path sample_register) empty_store"
    by (simp add: path_free_def empty_store_def)
  ultimately show False using store1_taken by metis
qed

theorem register_effect_example:
  "\<exists>seg. account_segment sample_uuids sample_user = Some seg
     \<and> is_under_own_root (rg_path sample_register) seg"
  using register_effect[OF sample_lands(1)] by (auto simp: sample_scope_def)

text \<open>The key again, for another path: refused as another request.\<close>

definition other_register :: register_request where
  "other_register = sample_register\<lparr>rg_path := ''local/'' @ sample_uuid @ ''/drafts''\<rparr>"

lemma other_checks:
  "register_checks sample_uuids other_register
     = Inr (sample_scope, \<lparr>cl_owner_user_id = sample_user, cl_visibility = 1\<rparr>)"
  by code_simp

theorem register_key_conflict_example:
  "\<exists>why \<in> {Key_other_operation, Key_other_request}.
     run_register other_register store1 = (Inl (Status Invalid_argument (In_engine why)), store1)"
proof -
  have "recorded sample_env sample_scope ''RegisterProject'' ''k1''
      (fingerprint sample_env (payload sample_env sample_register)) response1 (writes store1)"
    by (rule success_recorded[OF sample_lands(1) sample_key(1,2) sample_decoded1])
  then obtain w where w: "w \<in> set (writes store1)"
    "ledger_key (coll sample_env) w = claim_key (coll sample_env) sample_scope ''k1''"
    "w_fingerprint w = payload sample_env sample_register"
    by (auto simp: recorded_def fingerprint_def)
  have bytes: "payload sample_env sample_register \<noteq> payload sample_env other_register"
    by (simp add: payload_def other_register_def sample_register_def)
  have "present (rg_idempotency other_register) = Some ''k1''"
    by (simp add: other_register_def)
  from register_key_conflict[OF w(1,2) _ store1_good sample_env_ready(1,2)
      other_checks[folded sample_env_ready(4)] this sample_widths(2,1,3)] bytes w(3)
  show ?thesis by simp
qed

text \<open>The path again, with a key of its own: taken.\<close>

definition second_register :: register_request where
  "second_register = sample_register\<lparr>rg_idempotency := None\<rparr>"

lemma second_checks:
  "register_checks sample_uuids second_register
     = Inr (sample_scope, \<lparr>cl_owner_user_id = sample_user, cl_visibility = 1\<rparr>)"
  by code_simp

theorem register_taken_example:
  "\<exists>reason. run_register second_register store1 = (Inl (Status Already_exists reason), store1)"
  by (rule register_taken[OF sample_env_ready(1,7,2) second_checks[folded sample_env_ready(4)] sample_widths(1)])
    (use store1_taken in \<open>simp_all add: sample_ids key_usable_def second_register_def present_def\<close>)

text \<open>A stranger's path: the same answer whether or not it is taken.\<close>

definition foreign_register :: register_request where
  "foreign_register = sample_register\<lparr>rg_path := ''local/0190a0b0-c0d0-7000-8000-000000000002/notes''\<rparr>"

lemma foreign_not_own: "\<not> is_under_own_root (rg_path foreign_register) sample_uuid"
  by code_simp

lemma sample_segment: "account_segment sample_uuids sample_user = Some sample_uuid"
  by code_simp

theorem register_no_oracle_example:
  "\<exists>e. code_of e \<noteq> Already_exists
     \<and> (\<forall>s. run_register foreign_register s = (Inl e, s))"
proof -
  have "\<exists>e. code_of e \<noteq> Already_exists \<and> discloses (reason_of e) = {}
    \<and> (\<forall>E d s. uuid_api E = sample_uuids \<longrightarrow>
         register_as E (Some REGISTER_CALLER) foreign_register d s = (Inl e, s))"
    by (rule register_no_oracle)
      (use foreign_not_own sample_segment in \<open>auto simp: foreign_register_def sample_scope_def\<close>)
  then show ?thesis by auto
qed

end
