(* ===== verification/Sync_Live.thy ===== *)
theory Sync_Live
  imports Sync_Spec Register_Live
begin

text \<open>A sync that nothing refuses lands: the success half of its specification.\<close>

section \<open>Statements that succeed\<close>

definition ids_distinct :: "env \<Rightarrow> nat \<Rightarrow> bool" where
  "ids_distinct E N \<longleftrightarrow> (\<forall>m < N. \<forall>n < N. m \<noteq> n \<longrightarrow> \<not> same_id (coll E) (minted E m) (minted E n))"

text \<open>What the grants rely on of the server's collation: it tells team ids apart.\<close>

definition teams_told_apart :: "collations \<Rightarrow> bool" where
  "teams_told_apart C \<longleftrightarrow>
     (\<forall>t t'. is_team_id t \<longrightarrow> is_team_id t' \<longrightarrow> same_id C t t' \<longrightarrow> t = t')"

lemma stmt_lands:
  "no_faults E \<Longrightarrow> q (clock E (stmts t)) (work t) = Inr (x, s') \<Longrightarrow>
   stmt E q t = (Inr x, \<lparr>work = s', stmts = Suc (stmts t)\<rparr>)"
  by (cases t) (simp add: stmt_run)

lemma for_each_lands:
  assumes "\<And>done x rest b t. xs = done @ x # rest \<Longrightarrow> J done b t \<Longrightarrow>
      \<exists>b' t'. f x b t = (Inr b', t') \<and> J (done @ [x]) b' t'"
    and "J [] b t"
  shows "\<exists>b' t'. for_each f xs b t = (Inr b', t') \<and> J xs b' t'"
proof -
  have "xs = done @ todo \<Longrightarrow> J done b t \<Longrightarrow> \<exists>b' t'. for_each f todo b t = (Inr b', t') \<and> J xs b' t'"
    for "done" todo b t
  proof (induction todo arbitrary: "done" b t)
    case (Cons x todo)
    obtain b1 t1 where step: "f x b t = (Inr b1, t1)" "J (done @ [x]) b1 t1"
      using assms(1)[OF Cons.prems] by blast
    with Cons.IH[of "done @ [x]" b1 t1] Cons.prems show ?case by (simp add: and_then_run)
  qed (simp add: ret_run)
  from this[of "[]" xs] assms(2) show ?thesis by simp
qed

lemma declared_fits:
  assumes "declared_ok d"
  shows "fits 255 (dc_path d)" "fits 255 (dc_display_name d)" "fits 255 (dc_source_repo d)"
  using assms chars_count_le[of "dc_path d"]
  by (simp_all add: declared_ok_def fits_def path_ok_iff MAX_LEN_def)

lemma not_private_like:
  assumes "path_collation (ci_key C)" "path_ok p"
  shows "sql_like (ci_key C) ''local/%'' p \<longleftrightarrow> is_private_class p"
  using path_collation.like_private[OF assms(1), of p] assms(2) by (simp add: list_all_iff path_ok_chars)

lemma org_project_row_accepted:
  assumes "path_collation (ci_key C)" "declared_ok d" "fits 96 pid" "fits 64 actor"
  shows "row_refusal C (org_project_row d actor pid now) = None"
  using assms declared_fits[OF assms(2)] not_private_like[OF assms(1), of "dc_path d"]
  by (simp add: row_refusal_def row_fits_def class_ok_def org_project_row_def fits_nullable_def declared_ok_def)

lemma overwrite_accepted:
  assumes "row_good C r" "org r" "declared_ok d" "fits 64 actor"
  shows "row_refusal C (overwrite d actor now r) = None"
  using assms declared_fits[OF assms(3)] row_good_class[OF assms(1)]
  by (auto simp: row_refusal_def row_fits_def class_ok_def overwrite_def fits_nullable_def org_def row_good_def
      split: if_splits)

lemma archived_accepted:
  assumes "row_good C r" "fits 64 actor"
  shows "row_refusal C (archived_row actor now r) = None"
  using assms by (auto simp: row_refusal_def row_fits_def class_ok_def archived_row_def fits_nullable_def row_good_def
      split: if_splits)

lemma team_id_fits: "is_team_id t \<Longrightarrow> fits 96 t"
proof -
  assume "is_team_id t"
  then obtain name where "t = TEAM_PREFIX @ name" "chars_count name \<le> 63"
    by (auto simp: is_team_id_def strip_prefix_Some MAX_TEAM_NAME_CHARS_def split: option.splits list.splits)
  moreover have "chars_count TEAM_PREFIX \<le> 12"
    using chars_count_le[of TEAM_PREFIX] by (simp add: TEAM_PREFIX_def)
  ultimately show ?thesis by (simp add: fits_def chars_count_append)
qed

section \<open>The row loop\<close>

definition ids_from :: "env \<Rightarrow> store \<Rightarrow> tx \<Rightarrow> bool" where
  "ids_from E s0 t \<longleftrightarrow>
     (\<forall>r \<in> set (projects (work t)).
        (\<exists>r0 \<in> set (projects s0). id_of r = id_of r0) \<or> (\<exists>k < stmts t. id_of r = minted E k))"

lemma write_one_lands:
  assumes E: "no_faults E" "path_collation (ci_key (coll E))" "ids_fresh E N s0" "ids_distinct E N"
    and good: "store_good (coll E) s0"
    and d: "declared_ok d" "dc_key d \<notin> set (map dc_key ds)" and dones: "\<forall>e \<in> set ds. declared_ok e"
    and actor: "fits 64 actor"
    and rows: "rows = map stored_of (filter (\<lambda>r. owner_user_id r = None) (projects s0))"
    and settled: "rows_settled (coll E) s0 actor ds (work t)" and ids: "ids_from E s0 t"
    and room: "stmts t < N"
  shows "\<exists>x t'. write_one E d (by_key rows (dc_key d)) actor resp t = (Inr x, t') \<and> ids_from E s0 t'
    \<and> stmts t' \<le> Suc (stmts t)"
proof -
  let ?C = "coll E"
  from settled obtain nowf news where cur: "store_good ?C (work t)"
    and ps: "projects (work t) = map (\<lambda>r. settled_row ds actor (nowf r) r) (projects s0) @ news"
    and news: "new_rows (filter (unstored s0) ds) actor news" by (rule rows_settledE)
  show ?thesis
  proof (cases "by_key rows (dc_key d)")
    case None
    then have un: "unstored s0 d" by (simp add: rows by_key_None)
    let ?pid = "minted E (stmts t)" and ?now = "clock E (stmts t)"
    let ?row = "org_project_row d actor ?pid ?now"
    have "row_refusal ?C ?row = None"
      using org_project_row_accepted[OF E(2) d(1) _ actor] E(3) room by (simp add: ids_fresh_def)
    moreover have "\<not> same_id ?C (id_of r) ?pid" if r: "r \<in> set (projects (work t))" for r
    proof -
      from ids r consider r0 where "r0 \<in> set (projects s0)" "id_of r = id_of r0"
        | k where "k < stmts t" "id_of r = minted E k" by (auto simp: ids_from_def)
      then show ?thesis using E(3,4) room by cases (auto simp: ids_fresh_def ids_distinct_def)
    qed
    moreover have "\<not> same_path ?C (path r) (dc_path d)" if r: "r \<in> set (projects (work t))" for r
    proof
      assume same: "same_path ?C (path r) (dc_path d)"
      have "row_good ?C r" using cur r by (auto dest: store_good_projects projects_good_row)
      then have pok: "path_ok (path r)" by (simp add: row_good_def)
      have dok: "path_ok (dc_path d)" using d(1) by (simp add: declared_ok_def)
      have fold: "folded r = dc_key d"
        using same path_collation.ck_path[OF E(2) pok dok] d(1)
        by (simp add: same_path_def folded_def declared_ok_def eq_ignore_ascii_case_def)
      have "is_private_class (path r) = is_private_class (dc_path d)"
      proof -
        have "map to_ascii_lowercase (segments (path r)) = map to_ascii_lowercase (segments (dc_path d))"
          using fold d(1) by (simp add: folded_def declared_ok_def segments_def flip: split_lowercase)
        then show ?thesis by (cases "segments (path r)"; cases "segments (dc_path d)")
            (auto simp: is_private_class_iff eq_ignore_ascii_case_def)
      qed
      then have "\<not> is_private_class (path r)" using d(1) by (simp add: declared_ok_def)
      then have "org r" using row_good_owner[OF E(2) \<open>row_good ?C r\<close>] by (simp add: org_def)
      from r consider r0 where "r0 \<in> set (projects s0)" "r = settled_row ds actor (nowf r0) r0"
        | "r \<in> set news" by (auto simp: ps)
      then show False
      proof cases
        case 1
        with un fold \<open>org r\<close> show False by (auto simp: unstored_def)
      next
        case 2
        then obtain e pid now where e: "e \<in> set ds" "r = org_project_row e actor pid now"
          using new_rows_declared[OF news] by fastforce
        then have "folded r = dc_key e" using dones by (simp add: folded_def declared_ok_def)
        with fold e(1) d(2) show False by (metis image_eqI list.set_map)
      qed
    qed
    ultimately have ins: "insert_project ?C (org_project_row d actor ?pid) ?now (work t)
        = Inr ((), (work t)\<lparr>projects := projects (work t) @ [?row]\<rparr>)"
      by (simp add: insert_project_Inr)
    have "write_one E d None actor resp t = (Inr (?pid, resp\<lparr>inserted := inserted resp + 1\<rparr>),
        \<lparr>work = (work t)\<lparr>projects := projects (work t) @ [?row]\<rparr>, stmts = Suc (stmts t)\<rparr>)"
      using stmt_lands[OF E(1), of "insert_project ?C (org_project_row d actor ?pid)" t, OF ins]
      by (simp add: write_one_def insert_declared_def mint_def minted_def and_then_run ret_run)
    moreover have "ids_from E s0 \<lparr>work = (work t)\<lparr>projects := projects (work t) @ [?row]\<rparr>, stmts = Suc (stmts t)\<rparr>"
      using ids by (auto simp: ids_from_def less_Suc_eq)
    ultimately show ?thesis unfolding None by (metis order_refl tx.select_convs(2))
  next
    case (Some st)
    then obtain r0 where at: "stored_at s0 d r0" and st: "st = stored_of r0" using by_key_Some rows by blast
    let ?f = "overwrite d actor" and ?P = "\<lambda>r. same_id ?C (id_of r) (id_of r0)"
    have r0: "r0 \<in> set (projects s0)" "org r0" "dc_key d = folded r0" using at by (auto simp: stored_at_def)
    have "settled_row ds actor (nowf r0) r0 = r0" using settled_row_this(1)[OF r0(3,2) d(2)] .
    then have in_t: "r0 \<in> set (projects (work t))" using r0(1) ps by (auto simp: image_iff intro!: bexI[of _ r0])
    have "row_refusal ?C (?f now r) = None" if "r \<in> set (projects (work t))" "?P r" for r now
    proof -
      have "r = r0" using projects_good_id_eq[OF store_good_projects[OF cur] that(1) in_t that(2)] .
      moreover have "row_good ?C r0" using cur in_t by (auto dest: store_good_projects projects_good_row)
      ultimately show ?thesis using overwrite_accepted[OF _ r0(2) d(1) actor] by simp
    qed
    then have upd: "update_projects ?C (\<lambda>_. ?P) ?f (clock E (stmts t)) (work t)
        = Inr ((), (work t)\<lparr>projects := map (\<lambda>r. if ?P r then ?f (clock E (stmts t)) r else r) (projects (work t))\<rparr>)"
      by (simp add: update_projects_Inr)
    have keep: "ids_from E s0 \<lparr>work = (work t)\<lparr>projects := map (\<lambda>r. if ?P r then ?f (clock E (stmts t)) r else r)
        (projects (work t))\<rparr>, stmts = Suc (stmts t)\<rparr>"
      using ids by (fastforce simp: ids_from_def less_Suc_eq)
    from stmt_lands[OF E(1), of "update_projects ?C (\<lambda>_. ?P) ?f" t, OF upd] keep ids show ?thesis
      unfolding Some st by (auto simp: write_one_def Let_def and_then_run ret_run stored_of_def)
  qed
qed

lemma write_rows_lands:
  assumes E: "no_faults E" "path_collation (ci_key (coll E))" "ids_fresh E N s0" "ids_distinct E N"
    and good: "store_good (coll E) s0" and ds: "declaration_ok ds" and actor: "fits 64 actor"
    and free: "\<forall>a \<in> set (aliases s0). \<forall>d \<in> set ds. \<not> same_path (coll E) (alias_path a) (dc_path d)"
    and rows: "rows = map stored_of (filter (\<lambda>r. owner_user_id r = None) (projects s0))"
    and t: "work t = s0" and room: "stmts t + length ds \<le> N"
  shows "\<exists>b t'. write_rows E rows actor ds t = (Inr b, t') \<and> loop_inv (coll E) s0 actor ds b (work t')"
proof -
  let ?C = "coll E"
  let ?J = "\<lambda>done b t'. loop_inv ?C s0 actor done b (work t') \<and> ids_from E s0 t'
      \<and> stmts t' \<le> stmts t + length done"
  have "\<exists>b t'. write_rows E rows actor ds t = (Inr b, t') \<and> ?J ds b t'"
    unfolding write_rows_def
  proof (rule for_each_lands)
    fix "done" d todo and b :: "sync_response \<times> (string \<Rightarrow> string option)" and ti
    assume split: "ds = done @ d # todo" and J: "?J done b ti"
    obtain resp ids where b: "b = (resp, ids)" by (cases b)
    have d: "declared_ok d" "dc_key d \<notin> set (map dc_key done)" "\<forall>e \<in> set done. declared_ok e"
      and fr: "\<forall>a \<in> set (aliases s0). \<not> same_path ?C (alias_path a) (dc_path d)"
      using ds free split by (auto simp: declaration_ok_def)
    have settled: "rows_settled ?C s0 actor done (work ti)" using J by (simp add: loop_inv_def)
    obtain pid resp' t1 where one: "write_one E d (by_key rows (dc_key d)) actor resp ti = (Inr (pid, resp'), t1)"
      and ids1: "ids_from E s0 t1" "stmts t1 \<le> Suc (stmts ti)"
      using write_one_lands[OF E good d actor rows settled, of resp] J room split by fastforce
    let ?m = "and_then (write_one E d (by_key rows (dc_key d)) actor resp)
        (\<lambda>(pid, resp'). ret (resp', ids(dc_key d \<mapsto> pid)))"
    have run: "?m ti = (Inr (resp', ids(dc_key d \<mapsto> pid)), t1)"
      using one by (simp add: and_then_run ret_run)
    have "loop_inv ?C s0 actor (done @ [d]) (resp', ids(dc_key d \<mapsto> pid)) (work t1)"
      using hoareD[OF write_one_hoare[OF E(2) good d(1,2) fr rows] run] J b by simp
    moreover have "stmts t1 \<le> stmts t + length (done @ [d])" using ids1(2) J by simp
    ultimately show "\<exists>b' t'. (case b of (resp, ids) \<Rightarrow>
        and_then (write_one E d (by_key rows (dc_key d)) actor resp)
          (\<lambda>(pid, resp'). ret (resp', ids(dc_key d \<mapsto> pid)))) ti = (Inr b', t') \<and> ?J (done @ [d]) b' t'"
      using run ids1(1) unfolding b prod.case by blast
  next
    show "?J [] (sync_default, Map.empty) t"
      using good t by (auto simp: loop_inv_def rows_settled_def counted_def ids_known_def sync_default_def
        settled_row_def new_rows_def ids_from_def)
  qed
  then show ?thesis by blast
qed

section \<open>The archive and the grants\<close>

lemma archive_lands:
  assumes E: "no_faults E" and good: "store_good (coll E) (work t)" and actor: "fits 64 actor"
  shows "\<exists>t'. archive_ids E ids actor t = (Inr (), t')"
proof (cases "ids = []")
  case False
  have "row_refusal (coll E) (archived_row actor now r) = None" if "r \<in> set (projects (work t))" for r now
    using archived_accepted[OF projects_good_row[OF store_good_projects[OF good] that] actor] .
  then have upd: "update_projects (coll E) (\<lambda>_ r. list_ex (same_id (coll E) (id_of r)) ids) (archived_row actor)
      (clock E (stmts t)) (work t) = Inr ((), (work t)\<lparr>projects := map (\<lambda>r. if list_ex (same_id (coll E) (id_of r)) ids
          then archived_row actor (clock E (stmts t)) r else r) (projects (work t))\<rparr>)"
    by (simp add: update_projects_Inr)
  from stmt_lands[OF E, of "update_projects (coll E) (\<lambda>_ r. list_ex (same_id (coll E) (id_of r)) ids)
      (archived_row actor)" t, OF upd] False show ?thesis by (auto simp: archive_ids_def)
qed (simp add: archive_ids_def ret_run)

lemma write_deletes_lands: "no_faults E \<Longrightarrow> \<exists>t'. write_deletes E ps t = (Inr (), t')"
  unfolding write_deletes_def
  using for_each_lands[of ps "\<lambda>_ _ _. True" "\<lambda>(pid, team) _. stmt E (delete_grants (coll E) pid team)" "()" t]
  by (auto simp: stmt_run delete_grants_def split: prod.splits)

lemma write_updates_lands:
  assumes "no_faults E" "\<forall>(pid, t, l) \<in> set ps. l \<in> {1, 2}"
  shows "\<exists>t'. write_updates E ps t = (Inr (), t')"
proof -
  have "\<exists>b' t'. for_each (\<lambda>(pid, team, level) _. stmt E (update_grants (coll E) pid team level)) ps () t
      = (Inr b', t') \<and> True"
  proof (rule for_each_lands[where J = "\<lambda>_ _ _. True"])
    fix "done" x rest and b :: unit and t
    assume "ps = done @ x # rest"
    then have "case x of (pid, t, l) \<Rightarrow> l \<in> {1, 2}" using assms(2) by auto
    then show "\<exists>b' t'. (case x of (pid, team, level) \<Rightarrow> \<lambda>_. stmt E (update_grants (coll E) pid team level)) b t
        = (Inr b', t') \<and> True"
      by (cases x) (auto simp: stmt_run[OF assms(1)] update_grants_def)
  qed simp
  then show ?thesis by (auto simp: write_updates_def)
qed

text \<open>The grants to insert are pairwise different to the engine, and different from the kept ones.\<close>

definition insertable :: "collations \<Rightarrow> store \<Rightarrow> (string \<Rightarrow> string option) \<Rightarrow> (string \<times> string \<times> int) list \<Rightarrow> bool" where
  "insertable C s ids ps \<longleftrightarrow>
     distinct (map (grant_key C) (grants s @ map (new_grant ids) ps))
     \<and> (\<forall>(k, t, l) \<in> set ps. l \<in> {1, 2} \<and> fits 96 t
          \<and> (\<exists>r \<in> set (projects s). ids k = Some (id_of r) \<and> fits 96 (id_of r)))"

lemma write_inserts_lands:
  assumes E: "no_faults E" and ok: "insertable (coll E) (work t) ids ps"
  shows "\<exists>t'. write_inserts E ids ps t = (Inr (), t')"
proof -
  let ?s = "work t"
  let ?J = "\<lambda>done (_::unit) t. work t = ?s\<lparr>grants := grants ?s @ map (new_grant ids) done\<rparr>"
  have "\<exists>b' t'. for_each (\<lambda>(key, team, level) _.
       case ids key of
         None \<Rightarrow> fail (Status Internal (In_grants (No_row_id key)))
       | Some pid \<Rightarrow> stmt E (insert_grant (coll E)
             \<lparr>g_project_id = pid, g_team_id = team, g_level = level\<rparr>)) ps () t = (Inr b', t') \<and> ?J ps b' t'"
  proof (rule for_each_lands)
    fix "done" x rest and b :: unit and t1 :: tx
    assume split: "ps = done @ x # rest" and J: "?J done b t1"
    obtain key team level where x: "x = (key, team, level)" by (cases x)
    obtain r where r: "r \<in> set (projects ?s)" "ids key = Some (id_of r)" "fits 96 (id_of r)"
      and lv: "level \<in> {1, 2}" "fits 96 team"
      using ok split x by (auto simp: insertable_def)
    let ?g = "\<lparr>g_project_id = id_of r, g_team_id = team, g_level = level\<rparr>"
    have g: "?g = new_grant ids x" by (simp add: x new_grant_def r(2))
    have "grant_key (coll E) ?g \<notin> set (map (grant_key (coll E)) (grants ?s @ map (new_grant ids) done))"
      using ok unfolding insertable_def split g by auto
    then have "\<forall>h \<in> set (grants (work t1)). grant_key (coll E) h \<noteq> grant_key (coll E) ?g"
      unfolding J by (auto simp: image_iff)
    then have "insert_grant (coll E) ?g now (work t1) = Inr ((), (work t1)\<lparr>grants := grants (work t1) @ [?g]\<rparr>)" for now
      using r lv unfolding J
      by (auto simp: insert_grant_def grant_refusal_def list_ex_iff same_id_def)
    then have "stmt E (insert_grant (coll E) ?g) t1
        = (Inr (), \<lparr>work = (work t1)\<lparr>grants := grants (work t1) @ [?g]\<rparr>, stmts = Suc (stmts t1)\<rparr>)"
      by (rule stmt_lands[OF E])
    then show "\<exists>b' t'. (case x of (key, team, level) \<Rightarrow> \<lambda>_.
       case ids key of
         None \<Rightarrow> fail (Status Internal (In_grants (No_row_id key)))
       | Some pid \<Rightarrow> stmt E (insert_grant (coll E)
             \<lparr>g_project_id = pid, g_team_id = team, g_level = level\<rparr>)) b t1 = (Inr b', t') \<and> ?J (done @ [x]) b' t'"
      using J by (simp add: x r(2) new_grant_def)
  qed simp
  then show ?thesis by (auto simp: write_inserts_def)
qed

section \<open>The whole sync\<close>

lemma final_grants_split:
  "final_grants s0 ds ids = map (\<lambda>g. g\<lparr>g_level := the (grants_of_store s0 ds g)\<rparr>)
       (filter (\<lambda>g. grants_of_store s0 ds g \<noteq> None) (grants s0))
     @ map (new_grant ids) (plan_inserts ds (pair_of s0 ` set (grants s0)))"
  by (simp add: final_grants_def)

lemma plan_inserts_distinct:
  assumes "declaration_ok ds"
  shows "distinct (map (\<lambda>(k, t, l). (k, t)) (plan_inserts ds kept))"
proof -
  have "distinct (map dc_key ds)" "\<And>d. d \<in> set ds \<Longrightarrow> distinct (map fst (dc_grants d))"
    using assms by (auto simp: declaration_ok_def declared_ok_def)
  then show ?thesis
  proof (induction ds)
    case (Cons d ds)
    let ?here = "map (\<lambda>(t, l). (dc_key d, t, l)) (filter (\<lambda>(t, l). (dc_key d, t) \<notin> kept) (dc_grants d))"
    have here: "map (\<lambda>(k, t, l). (k, t)) ?here
        = map (\<lambda>t. (dc_key d, t)) (map fst (filter (\<lambda>(t, l). (dc_key d, t) \<notin> kept) (dc_grants d)))"
      by (auto simp: case_prod_beta)
    have "distinct (map fst (filter (\<lambda>(t, l). (dc_key d, t) \<notin> kept) (dc_grants d)))"
      using Cons.prems(2)[of d] by (simp add: distinct_map_filter)
    then have "distinct (map (\<lambda>(k, t, l). (k, t)) ?here)"
      unfolding here by (subst distinct_map) (auto simp: inj_on_def)
    moreover have "set (map (\<lambda>(k, t, l). (k, t)) ?here)
        \<inter> set (map (\<lambda>(k, t, l). (k, t)) (plan_inserts ds kept)) = {}"
    proof (rule equals0I)
      fix p assume p: "p \<in> set (map (\<lambda>(k, t, l). (k, t)) ?here)
        \<inter> set (map (\<lambda>(k, t, l). (k, t)) (plan_inserts ds kept))"
      then have "fst p = dc_key d" by auto
      moreover have "fst p \<in> dc_key ` set ds" using p by (auto simp: plan_inserts_def)
      ultimately show False using Cons.prems(1) by simp
    qed
    moreover have "plan_inserts (d # ds) kept = ?here @ plan_inserts ds kept" by (simp add: plan_inserts_def)
    moreover have "distinct (map (\<lambda>(k, t, l). (k, t)) (plan_inserts ds kept))"
      using Cons by simp
    ultimately show ?case by (simp only: map_append distinct_append)
  qed (simp add: plan_inserts_def)
qed

lemma declared_team:
  assumes "declaration_ok ds" "d \<in> set ds" "(t, l) \<in> set (dc_grants d)"
  shows "is_team_id t" "l \<in> {1, 2}"
  using assms by (auto simp: declaration_ok_def declared_ok_def)

lemma kept_grants_keys:
  assumes good: "store_good C s0"
  shows "distinct (map (grant_key C) (map (\<lambda>g. g\<lparr>g_level := the (grants_of_store s0 ds g)\<rparr>)
       (filter (\<lambda>g. grants_of_store s0 ds g \<noteq> None) (grants s0))))"
proof -
  have "map (grant_key C) (map (\<lambda>g. g\<lparr>g_level := the (grants_of_store s0 ds g)\<rparr>)
       (filter (\<lambda>g. grants_of_store s0 ds g \<noteq> None) (grants s0)))
      = map (grant_key C) (filter (\<lambda>g. grants_of_store s0 ds g \<noteq> None) (grants s0))" by simp
  moreover have "distinct (map (grant_key C) (filter (\<lambda>g. grants_of_store s0 ds g \<noteq> None) (grants s0)))"
    using good by (simp add: store_good_def grants_good_def distinct_map_filter)
  ultimately show ?thesis by (simp only:)
qed

lemma final_insertable:
  assumes C: "path_collation (ci_key C)" "store_good C s0" "store_good C s1" "teams_told_apart C"
    and ds: "declaration_ok ds" and known: "ids_known s1 ds ids"
    and rows: "\<And>r. r \<in> set (projects s0) \<Longrightarrow> \<exists>r' \<in> set (projects s1). id_of r' = id_of r \<and> folded r' = folded r"
    and gs: "grants s1 = map (\<lambda>g. g\<lparr>g_level := the (grants_of_store s0 ds g)\<rparr>)
       (filter (\<lambda>g. grants_of_store s0 ds g \<noteq> None) (grants s0))"
  shows "insertable C s1 ids (plan_inserts ds (pair_of s0 ` set (grants s0)))"
proof -
  let ?ps = "plan_inserts ds (pair_of s0 ` set (grants s0))"
  have mem: "\<exists>d r. d \<in> set ds \<and> k = dc_key d \<and> (t, l) \<in> set (dc_grants d) \<and> stored_at s1 d r \<and> ids k = Some (id_of r)"
    if "(k, t, l) \<in> set ?ps" for k t l
    using that known by (fastforce simp: plan_inserts_mem ids_known_def)
  have rowkey: "folded r = folded r'" if "r \<in> set (projects s1)" "r' \<in> set (projects s1)"
      "same_id C (id_of r) (id_of r')" for r r'
    using projects_good_id_eq[OF store_good_projects[OF C(3)] that] by simp
  have apart: "(k, t) = (k', t')"
    if p: "(k, t, l) \<in> set ?ps" "(k', t', l') \<in> set ?ps"
      and key: "grant_key C (new_grant ids (k, t, l)) = grant_key C (new_grant ids (k', t', l'))" for k t l k' t' l'
  proof -
    obtain d r where d: "d \<in> set ds" "k = dc_key d" "(t, l) \<in> set (dc_grants d)" "stored_at s1 d r" "ids k = Some (id_of r)"
      using mem[OF p(1)] by blast
    obtain d' r' where d': "d' \<in> set ds" "k' = dc_key d'" "(t', l') \<in> set (dc_grants d')" "stored_at s1 d' r'" "ids k' = Some (id_of r')"
      using mem[OF p(2)] by blast
    from key have "same_id C (id_of r) (id_of r')" "same_id C t t'"
      using d(5) d'(5) by (simp_all add: grant_key_def new_grant_def same_id_def)
    moreover then have "k = k'" using rowkey[of r r'] d d' by (simp add: stored_at_def)
    ultimately show ?thesis
      using C(4) declared_team(1)[OF ds d(1,3)] declared_team(1)[OF ds d'(1,3)] by (simp add: teams_told_apart_def)
  qed
  have new: "distinct (map (grant_key C) (map (new_grant ids) ?ps))"
  proof -
    have "inj_on (\<lambda>p. grant_key C (new_grant ids p)) (set ?ps)"
    proof (rule inj_onI)
      fix p q assume p: "p \<in> set ?ps" "q \<in> set ?ps"
        "grant_key C (new_grant ids p) = grant_key C (new_grant ids q)"
      obtain k t l k' t' l' where pq: "p = (k, t, l)" "q = (k', t', l')" by (cases p, cases q)
      then have "(k, t) = (k', t')" using apart p by blast
      then show "p = q"
        using distinct_map_eq[OF plan_inserts_distinct[OF ds] p(1,2)] by (simp add: pq)
    qed
    moreover have "distinct ?ps" using plan_inserts_distinct[OF ds, of "pair_of s0 ` set (grants s0)"]
      by (simp add: distinct_map)
    ultimately show ?thesis by (simp add: distinct_map o_def)
  qed
  have cross: "grant_key C g \<noteq> grant_key C (new_grant ids (k, t, l))"
    if g: "g \<in> set (grants s1)" and p: "(k, t, l) \<in> set ?ps" for g k t l
  proof
    assume key: "grant_key C g = grant_key C (new_grant ids (k, t, l))"
    obtain d r where d: "d \<in> set ds" "k = dc_key d" "(t, l) \<in> set (dc_grants d)" "stored_at s1 d r" "ids k = Some (id_of r)"
      using mem[OF p] by blast
    from g obtain h where h: "h \<in> set (grants s0)" "grants_of_store s0 ds h \<noteq> None"
      "g_project_id g = g_project_id h" "g_team_id g = g_team_id h" by (auto simp: gs)
    obtain q where q: "q \<in> set (projects s0)" "id_of q = g_project_id h" "pair_of s0 h = (folded q, g_team_id h)"
      using grant_owner[OF C(2) h(1)] by metis
    obtain q' where q': "q' \<in> set (projects s1)" "id_of q' = id_of q" "folded q' = folded q" using rows[OF q(1)] by blast
    have ids: "same_id C (id_of q') (id_of r)" "same_id C (g_team_id h) t"
      using key d(5) h(3,4) q(2) q'(2) by (simp_all add: grant_key_def new_grant_def same_id_def)
    have k: "folded q = k" using rowkey[OF q'(1) _ ids(1)] d(4,2) q'(3) by (simp add: stored_at_def)
    from h(2) obtain l' where "wanted ds (folded q, g_team_id h) = Some l'"
      using q(3) by (auto simp: grants_of_store_def)
    then obtain e where "e \<in> set ds" "(g_team_id h, l') \<in> set (dc_grants e)" by (auto simp: wanted_Some[OF ds])
    then have "g_team_id h = t"
      using C(4) declared_team(1)[OF ds] d(1,3) ids(2) by (auto simp: teams_told_apart_def)
    then have "pair_of s0 h = (k, t)" using q(3) k by simp
    then have "(k, t) \<in> pair_of s0 ` set (grants s0)" using h(1) by (metis image_eqI)
    then show False using p by (simp add: plan_inserts_mem)
  qed
  have fit: "fits 96 (id_of r)" if "r \<in> set (projects s1)" for r
    using projects_good_row[OF store_good_projects[OF C(3)] that]
    by (auto simp: row_good_def row_refusal_def row_fits_def split: if_splits)
  have "distinct (map (grant_key C) (grants s1 @ map (new_grant ids) ?ps))"
    using kept_grants_keys[OF C(2), of ds] new cross unfolding gs[symmetric] by fastforce
  moreover have "l \<in> {1, 2} \<and> fits 96 t \<and> (\<exists>r \<in> set (projects s1). ids k = Some (id_of r) \<and> fits 96 (id_of r))"
    if "(k, t, l) \<in> set ?ps" for k t l
    using mem[OF that] declared_team[OF ds] team_id_fits fit by (metis stored_at_def)
  ultimately show ?thesis by (auto simp: insertable_def)
qed

lemma write_grants_lands:
  assumes E: "no_faults E" "path_collation (ci_key (coll E))" "teams_told_apart (coll E)"
    and good: "store_good (coll E) s0" "store_good (coll E) (work t)" and ds: "declaration_ok ds"
    and known: "ids_known (work t) ds ids" and gs: "grants (work t) = grants s0"
    and rows: "\<And>r. r \<in> set (projects s0) \<Longrightarrow> \<exists>r' \<in> set (projects (work t)). id_of r' = id_of r \<and> folded r' = folded r"
  shows "\<exists>t'. write_grants E (grants_plan ds (stored_grants_of (coll E) s0)) ids t = (Inr (), t')"
proof -
  let ?C = "coll E" and ?plan = "grants_plan ds (stored_grants_of (coll E) s0)"
  let ?G1 = "filter (\<lambda>g. grants_of_store s0 ds g \<noteq> None) (grants s0)"
  let ?G2 = "map (\<lambda>g. g\<lparr>g_level := the (grants_of_store s0 ds g)\<rparr>) ?G1"
  obtain t1 where t1: "write_deletes E (gp_deletes ?plan) t = (Inr (), t1)"
    using write_deletes_lands[OF E(1)] by blast
  have w1: "work t1 = (work t)\<lparr>grants := ?G1\<rparr>" "store_good ?C (work t1)"
    using hoareD[OF write_deletes_hoare[of "work t"] t1] good
    by (auto simp: gs plan_good(1)[OF good(1)] named_deletes[OF good(1)] cong: filter_cong)
  have levels: "\<forall>(pid, t, l) \<in> set (gp_updates ?plan). l \<in> {1, 2}"
  proof -
    have "l \<in> {1, 2}" if "grants_of_store s0 ds g = Some l" for g l
      using that declared_team(2)[OF ds] by (cases "pair_of s0 g") (auto simp: grants_of_store_def wanted_Some[OF ds])
    then show ?thesis unfolding plan_good(2)[OF good(1)] by fastforce
  qed
  obtain t2 where t2: "write_updates E (gp_updates ?plan) t1 = (Inr (), t2)"
    using write_updates_lands[OF E(1) levels] by blast
  have "map (fold (relevel ?C) (gp_updates ?plan)) ?G1 = ?G2"
    unfolding plan_good(2)[OF good(1)] using relevel_updates[OF good(1)] by auto
  then have w2: "work t2 = (work t)\<lparr>grants := ?G2\<rparr>" "store_good ?C (work t2)"
    using hoareD[OF write_updates_hoare[of "work t1"] t2] w1 by (auto simp del: not_None_eq)
  have "insertable ?C (work t2) ids (plan_inserts ds (pair_of s0 ` set (grants s0)))"
    by (rule final_insertable[OF E(2) good(1) w2(2) E(3) ds]) (use w2(1) known rows in auto)
  then obtain t3 where "write_inserts E ids (gp_inserts ?plan) t2 = (Inr (), t3)"
    using write_inserts_lands[OF E(1)] unfolding plan_good(3)[OF good(1)] by blast
  with t1 t2 show ?thesis by (simp add: write_grants_def and_then_run)
qed

lemma sync_apply_lands:
  assumes E: "no_faults E" "path_collation (ci_key (coll E))" "ids_fresh E (5 + length ds) s" "ids_distinct E (5 + length ds)"
      "teams_told_apart (coll E)"
    and good: "store_good (coll E) s" and ds: "declaration_ok ds" and actor: "fits 64 actor"
    and free: "free_of_aliases (coll E) ds s" and guards: "guards_held ds aa ar s" and n: "n = 1"
  shows "\<exists>resp t'. sync_apply E ds actor aa ar \<lparr>work = s, stmts = n\<rparr> = (Inr resp, t')"
proof -
  let ?C = "coll E"
  let ?rows = "map stored_of (filter (\<lambda>r. owner_user_id r = None) (projects s))"
  let ?plan = "grants_plan ds (stored_grants_of ?C s)"
  let ?t = "\<lparr>work = s, stmts = Suc (Suc (Suc (Suc n)))\<rparr>"
  note reads = sync_reads_run[OF E(1) good]
  have ag: "archive_guard (length (archive_list s ds)) (active_count ?rows) aa = Inr ()"
    using guards unfolding active_count_stored by (auto simp: guards_held_def archive_guard_def)
  have rg: "revoke_guard (length (gp_deletes ?plan)) (length (stored_grants_of ?C s)) ar = Inr ()"
    using guards plan_good(1)[OF good] by (auto simp: guards_held_def revoke_guard_def stored_grants_of_good[OF good])
  have "\<forall>a \<in> set (aliases s). \<forall>d \<in> set ds. \<not> same_path ?C (alias_path a) (dc_path d)"
    using free by (simp add: free_of_aliases_def)
  then obtain resp ids t1 where wr: "write_rows E ?rows actor ds ?t = (Inr (resp, ids), t1)"
    and inv: "loop_inv ?C s actor ds (resp, ids) (work t1)"
    using write_rows_lands[OF E(1,2,3,4) good ds actor _ refl, of ?t] n by auto
  have settled: "rows_settled ?C s actor ds (work t1)" "ids_known (work t1) ds ids"
    using inv by (simp_all add: loop_inv_def)
  then have "store_good ?C (work t1)" by (simp add: rows_settled_def)
  then obtain t2 where ar: "archive_ids E (archive_list s ds) actor t1 = (Inr (), t2)"
    using archive_lands[OF E(1) _ actor] by blast
  have closed: "rows_closed ?C s actor ds (work t2)" "ids_known (work t2) ds ids"
    using hoareD[OF archive_hoare[OF good ds] ar] settled by auto
  then obtain nowf news where g2: "store_good ?C (work t2)" "grants (work t2) = grants s"
    and ps: "projects (work t2) = map (\<lambda>r. closed_row ds actor (nowf r) r) (projects s) @ news"
    by (auto simp: rows_closed_def)
  have "\<exists>r' \<in> set (projects (work t2)). id_of r' = id_of r \<and> folded r' = folded r" if "r \<in> set (projects s)" for r
    using that by (intro bexI[of _ "closed_row ds actor (nowf r) r"]) (simp_all add: ps)
  then obtain t3 where wg: "write_grants E ?plan ids t2 = (Inr (), t3)"
    using write_grants_lands[OF E(1,2,5) good g2(1) ds closed(2) g2(2)] by blast
  show ?thesis unfolding sync_apply_def
    by (simp add: tx_simps reads free to_archive_stored ag rg wr ar wg Let_def)
qed

lemma sync_run_lands:
  assumes E: "no_faults E" "path_collation (ci_key (coll E))" "ids_fresh E (5 + length ds) s" "ids_distinct E (5 + length ds)"
      "teams_told_apart (coll E)" "acquire (the_pool E) d = Inr ()"
    and good: "store_good (coll E) s"
    and ok: "admitted caller (sy_scope req) = Inr actor" "validate_sync req = Inr ds"
    and free: "free_of_aliases (coll E) ds s"
    and guards: "guards_held ds (sy_allow_mass_archive req) (sy_allow_mass_revoke req) s"
  shows "\<exists>resp s'. sync_as E caller req d s = (Inr resp, s') \<and> converged ds s'"
proof -
  have decl: "declaration_ok ds" using validate_sync_ok[OF ok(2)] .
  have actor: "fits 64 actor" using ok(1) by (simp add: admitted_Inr fits_def)
  obtain resp t' where run: "sync_apply E ds actor (sy_allow_mass_archive req) (sy_allow_mass_revoke req)
      \<lparr>work = s, stmts = 1\<rparr> = (Inr resp, t')"
    using sync_apply_lands[OF E(1-5) good decl actor free guards refl] by blast
  then have "settle (sync_apply E ds actor (sy_allow_mass_archive req) (sy_allow_mass_revoke req))
      \<lparr>work = s, stmts = 1\<rparr> = (Inr (Commit resp), t')" by (simp only: settle_Commit)
  then have "sync_as E caller req d s = (Inr resp, work t')"
    by (simp add: sync_as_def ok run_tx_def E no_faultsD[OF E(1)] del: One_nat_def)
  moreover have "converged ds (work t')"
    using synced_converged[of "coll E" actor ds s "work t'"] sync_apply_InrD[OF run E(2) _ decl] good decl by simp
  ultimately show ?thesis by blast
qed

text \<open>C32. A sync that nothing refuses lands: an admitted call with a valid declaration that takes no
  former path and trips no guard answers, and leaves the store converged, when a connection is free,
  the engine does not fail and the minted ids are new.\<close>

theorem sync_lands:
  assumes E: "no_faults E" "path_collation (ci_key (coll E))" "ids_fresh E (5 + length ds) s" "ids_distinct E (5 + length ds)"
      "teams_told_apart (coll E)" "acquire (the_pool E) d = Inr ()"
    and good: "store_good (coll E) s"
    and ok: "admitted caller (sy_scope req) = Inr actor" "validate_sync req = Inr ds"
    and free: "free_of_aliases (coll E) ds s"
    and guards: "guards_held ds (sy_allow_mass_archive req) (sy_allow_mass_revoke req) s"
  shows "\<exists>resp s'. sync_as E caller req d s = (Inr resp, s') \<and> converged ds s'"
  using assms by (rule sync_run_lands)

end
