(* ===== verification/Sample_Store.thy ===== *)
theory Sample_Store
  imports Idem Sample
begin

text \<open>
  A small registry for the examples: the organisation's root project, a project under it with
  two grants and a former path, and a private project.
\<close>

definition org_row :: "string \<Rightarrow> string \<Rightarrow> project_row" where
  "org_row pid p =
     \<lparr>id_of = ''yadgar:project:'' @ pid, version = 1, path = p, display_name = p, row_status = 1,
      source_repo = Some (''repo/'' @ p), owner_user_id = None, row_visibility = 3,
      created_by = ''seeder'', updated_by = ''seeder'', created_at = 10, updated_at = 10,
      last_seen_at = None\<rparr>"

definition own_path :: string where
  "own_path = ''local/'' @ sample_uuid @ ''/notes''"

definition own_row :: project_row where
  "own_row =
     \<lparr>id_of = ''yadgar:project:p'', version = 1, path = own_path,
      display_name = ''Notes'', row_status = 1, source_repo = None, owner_user_id = Some sample_user,
      row_visibility = 1, created_by = sample_user, updated_by = sample_user, created_at = 11,
      updated_at = 11, last_seen_at = Some 40\<rparr>"

definition sample_store :: store where
  "sample_store =
     \<lparr>projects = [org_row ''a'' ''acme'', org_row ''b'' ''acme/core'', own_row],
      aliases = [\<lparr>alias_path = ''acme/engine'', alias_project = ''yadgar:project:b''\<rparr>],
      writes = [], sync_lock = [1],
      grants = [\<lparr>g_project_id = ''yadgar:project:b'', g_team_id = ''yadgar:team:t1'', g_level = 1\<rparr>,
                \<lparr>g_project_id = ''yadgar:project:b'', g_team_id = ''yadgar:team:t2'', g_level = 2\<rparr>]\<rparr>"

lemma validate_rows:
  "validate [] ''acme'' = Inr ()" "validate [] ''acme/core'' = Inr ()"
  "validate [] own_path = Inr ()" "validate [] ''acme/engine'' = Inr ()"
  by code_simp+

lemma sample_paths_ok [simp]:
  "path_ok ''acme''" "path_ok ''acme/core''" "path_ok own_path" "path_ok ''acme/engine''"
  using validate_rows by (simp_all only: validate_ok_iff)

abbreviation ascii_coll :: collations where
  "ascii_coll \<equiv> \<lparr>ci_key = general_ci, srv_key = general_ci\<rparr>"

lemma sample_refusals:
  "list_all (\<lambda>r. case row_refusal ascii_coll r of None \<Rightarrow> True | Some _ \<Rightarrow> False) (projects sample_store)"
  by code_simp

lemma sample_not_reserved: "list_all (\<lambda>r. \<not> eq_ignore_ascii_case (path r) RESERVED_ROOT) (projects sample_store)"
  by code_simp

lemma sample_own: "is_under_own_root (path own_row) sample_uuid"
  by code_simp

lemma sample_keys:
  "distinct (map (\<lambda>r. general_ci (id_of r)) (projects sample_store))"
  "distinct (map (\<lambda>r. general_ci (path r)) (projects sample_store))"
  "distinct (map (grant_key ascii_coll) (grants sample_store))"
  "list_all (\<lambda>a. list_all (\<lambda>r. \<not> same_path ascii_coll (alias_path a) (path r)) (projects sample_store)) (aliases sample_store)"
  by code_simp+

lemma sample_store_good [simp]: "store_good ascii_coll sample_store"
proof -
  have own: "owner_root (path own_row) sample_user"
    unfolding owner_root_def USER_ID_PREFIX_def sample_user_def using sample_own by blast
  have "\<forall>r \<in> set (projects sample_store). row_refusal ascii_coll r = None"
    using sample_refusals by (auto simp: list_all_iff split: option.splits)
  then have "\<forall>r \<in> set (projects sample_store). row_good ascii_coll r"
    using sample_not_reserved own
    by (auto simp: row_good_def sample_store_def org_row_def own_row_def)
  then have "projects_good ascii_coll (projects sample_store)"
    using sample_keys(1,2) by (simp add: projects_good_def)
  moreover have "grants_good ascii_coll (projects sample_store) (grants sample_store)"
    using sample_keys(3) by (simp add: grants_good_def) (simp add: sample_store_def org_row_def)
  moreover have "one_namespace ascii_coll (projects sample_store) (aliases sample_store)"
    using sample_keys(4) by (simp add: one_namespace_def list_all_iff)
  ultimately show ?thesis by (simp add: store_good_def) (simp add: sample_store_def)
qed

end
