(* ===== verification/Sync_Examples.thy ===== *)
theory Sync_Examples
  imports Sync_Live Sample_Store
begin

text \<open>
  \<open>SyncProjects\<close> run on the sample registry. The declaration keeps the root, gives the core
  project (in another spelling) another name and one changed grant, and adds a project with the
  other team's grant.
\<close>

definition declare_row :: "string \<Rightarrow> string \<Rightarrow> declared_grant list \<Rightarrow> declared_project" where
  "declare_row p name gs =
     \<lparr>dp_path = p, dp_display_name = name, dp_source_repo = ''repo/'' @ p, dp_grants = gs\<rparr>"

definition sample_sync :: sync_request where
  "sample_sync =
     \<lparr>sy_scope = Some sample_scope, sy_roots = [declare_row ''acme'' ''acme'' []],
      sy_projects = [declare_row ''ACME/core'' ''Core'' [\<lparr>dg_team_id = ''yadgar:team:t1'', dg_level = 2\<rparr>],
                     declare_row ''acme/web'' ''Web'' [\<lparr>dg_team_id = ''yadgar:team:t2'', dg_level = 1\<rparr>]],
      sy_allow_mass_archive = False, sy_allow_mass_revoke = False\<rparr>"

definition sample_declared :: "declared list" where
  "sample_declared =
     [\<lparr>dc_key = ''acme'', dc_path = ''acme'', dc_display_name = ''acme'', dc_source_repo = ''repo/acme'',
       dc_grants = []\<rparr>,
      \<lparr>dc_key = ''acme/core'', dc_path = ''ACME/core'', dc_display_name = ''Core'',
       dc_source_repo = ''repo/ACME/core'', dc_grants = [(''yadgar:team:t1'', 2)]\<rparr>,
      \<lparr>dc_key = ''acme/web'', dc_path = ''acme/web'', dc_display_name = ''Web'',
       dc_source_repo = ''repo/acme/web'', dc_grants = [(''yadgar:team:t2'', 1)]\<rparr>]"

abbreviation run_sync :: "sync_request \<Rightarrow> store \<Rightarrow> (status + sync_response) \<times> store" where
  "run_sync req s \<equiv> sync_as sample_env (Some SYNC_CALLER) req sample_deadline s"

lemma sample_validated: "validate_sync sample_sync = Inr sample_declared"
  by code_simp

lemma sample_admitted: "admitted (Some SYNC_CALLER) (sy_scope sample_sync) = Inr sample_user"
  by code_simp

section \<open>What the lemmas ask of the environment\<close>

lemma team_id_lowercase: "is_team_id t \<Longrightarrow> to_ascii_lowercase t = t"
proof -
  assume "is_team_id t"
  then obtain c chars where t: "t = TEAM_PREFIX @ c # chars" and c: "is_ascii_lowercase c"
    and cs: "list_all (\<lambda>c. is_ascii_lowercase c \<or> is_ascii_digit c \<or> c = CHR ''-'') chars"
    by (auto simp: is_team_id_def strip_prefix_Some split: option.splits list.splits)
  have low: "is_ascii_lowercase d \<or> is_ascii_digit d \<or> d = CHR ''-'' \<Longrightarrow> ascii_lower d = d" for d
    by (auto simp: ascii_lower_def is_ascii_lowercase_def is_ascii_digit_def byte_def)
  have "map ascii_lower chars = chars" using cs low by (intro map_idI) (auto simp: list_all_iff)
  moreover have "map ascii_lower TEAM_PREFIX = TEAM_PREFIX" by code_simp
  ultimately show ?thesis using low[of c] c by (simp add: t to_ascii_lowercase_def)
qed

lemma sample_teams: "teams_told_apart (coll sample_env)"
  using team_id_lowercase by (auto simp: teams_told_apart_def same_id_def general_ci_fold)

lemma minted_inj:
  assumes "m < 8" "n < 8" "general_ci (minted sample_env m) = general_ci (minted sample_env n)"
  shows "m = n"
proof -
  have "ascii_lower (char_of (48 + m)) = ascii_lower (char_of (48 + n))"
    using assms by (simp add: general_ci_fold minted_def sample_env_def)
  then have "byte (ascii_lower (char_of (48 + m))) = byte (ascii_lower (char_of (48 + n)))" by simp
  then show ?thesis using assms(1,2) by (simp add: byte_ascii_lower del: byte_inject)
qed

lemma sample_ids_distinct: "ids_distinct sample_env 8"
  using minted_inj by (auto simp: ids_distinct_def same_id_def)

lemma sample_ids_fresh: "ids_fresh sample_env 8 sample_store"
proof -
  have len: "length (minted sample_env n) = 51" for n by (simp add: minted_def sample_env_def)
  have "fits 96 (minted sample_env n)" for n
    using chars_count_le[of "minted sample_env n"] by (simp add: fits_def len)
  moreover have "\<not> same_id (coll sample_env) (id_of r) (minted sample_env n)" if "r \<in> set (projects sample_store)" for r n
  proof
    assume "same_id (coll sample_env) (id_of r) (minted sample_env n)"
    then have "length (id_of r) = 51"
      using eq_ignore_length[of "id_of r" "minted sample_env n"] len
      by (simp add: same_id_def general_ci_fold eq_ignore_ascii_case_def)
    with that show False by (auto simp: sample_store_def org_row_def own_row_def)
  qed
  ultimately show ?thesis by (simp add: ids_fresh_def)
qed

lemma sample_free: "free_of_aliases (coll sample_env) sample_declared sample_store"
proof -
  have "list_all (\<lambda>a. list_all (\<lambda>d. \<not> same_path ascii_coll (alias_path a) (dc_path d)) sample_declared) (aliases sample_store)"
    by code_simp
  then show ?thesis by (simp add: free_of_aliases_def list_all_iff)
qed

lemma declared_keys_code [code]: "declared_keys ds = set (map dc_key ds)"
  by (simp add: declared_keys_def)

lemma sample_guards: "guards_held sample_declared False False sample_store"
proof -
  have "length (archive_list sample_store sample_declared) * 2 \<le> length (org_active sample_store)
    \<and> length (filter (\<lambda>g. case grants_of_store sample_store sample_declared g of None \<Rightarrow> True | Some _ \<Rightarrow> False) (grants sample_store)) * 2
        \<le> length (grants sample_store)"
    by code_simp
  moreover have "(case x of None \<Rightarrow> True | Some _ \<Rightarrow> False) \<longleftrightarrow> x = None" for x :: "int option"
    by (cases x) auto
  ultimately show ?thesis by (simp add: guards_held_def)
qed

section \<open>The examples\<close>

lemma five: "5 + length sample_declared = 8"
  by (simp add: sample_declared_def)

lemma sample_flags: "sy_allow_mass_archive sample_sync = False" "sy_allow_mass_revoke sample_sync = False"
  by (simp_all add: sample_sync_def)

lemma sample_guards_of_request:
  "guards_held sample_declared (sy_allow_mass_archive sample_sync) (sy_allow_mass_revoke sample_sync) sample_store"
  using sample_guards by (simp add: sample_flags)

lemmas sample_sync_ready =
  sample_env_ready(1,7) sample_ids_fresh[folded five] sample_ids_distinct[folded five] sample_teams
  sample_env_ready(2) sample_store_good[folded sample_env_ready(3)] sample_admitted sample_validated sample_free
  sample_guards_of_request

theorem sync_lands_example:
  "\<exists>resp s'. run_sync sample_sync sample_store = (Inr resp, s') \<and> converged sample_declared s'"
  by (rule sync_lands[OF sample_sync_ready])

definition synced_store :: store where
  "synced_store = snd (run_sync sample_sync sample_store)"

definition synced_response :: sync_response where
  "synced_response = projr (fst (run_sync sample_sync sample_store))"

lemma sample_synced: "run_sync sample_sync sample_store = (Inr synced_response, synced_store)"
proof -
  have "\<exists>resp s'. run_sync sample_sync sample_store = (Inr resp, s') \<and> converged sample_declared s'"
    by (rule sync_run_lands[OF sample_sync_ready])
  then show ?thesis by (auto simp: synced_response_def synced_store_def)
qed

lemmas sample_sync_good = sample_env_ready(7) sample_store_good[folded sample_env_ready(3)]

theorem sync_converges_example: "\<exists>ds. validate_sync sample_sync = Inr ds \<and> converged ds synced_store"
  using sync_converges[OF sample_synced sample_sync_good] by blast

theorem sync_idempotent_example:
  "run_sync sample_sync synced_store = (Inr (quiet_response sample_declared synced_store), synced_store)"
  using sync_idempotent[OF sample_synced sample_sync_good sample_env_ready(1) refl sample_env_ready(2)
      sample_admitted refl]
  by (simp add: sample_validated)

theorem sync_archives_example:
  "length (deactivated sample_store synced_store) * 2 \<le> length (org_active sample_store)"
  by (rule sync_archives_at_most_half[OF sample_synced sample_sync_good]) (simp add: sample_flags)

theorem sync_revokes_example:
  "length (revoked sample_store synced_store) * 2 \<le> length (grants sample_store)"
  by (rule sync_revokes_at_most_half[OF sample_synced sample_sync_good]) (simp add: sample_flags)

theorem sync_counts_example:
  "inserted synced_response + updated synced_response + reactivated synced_response
     + unchanged synced_response = 3"
  using sync_counts[OF sample_synced sample_sync_good] by (auto simp: sample_validated sample_declared_def)

end
