(* ===== verification/Read_Examples.thy ===== *)
theory Read_Examples
  imports Read_After_Write Register_Examples Sync_Examples
begin

text \<open>The reads run on the sample registry, and after the sample writes.\<close>

definition candidate :: "string \<Rightarrow> resolve_request" where
  "candidate p = \<lparr>rs_scope = None, rs_candidate_path = p\<rparr>"

definition get_at :: "string \<Rightarrow> get_request" where
  "get_at p = \<lparr>gt_scope = None, gt_path = p\<rparr>"

definition list_under :: "string \<Rightarrow> int \<Rightarrow> list_request" where
  "list_under p n =
     \<lparr>ls_scope = None, ls_under_path = p, ls_status = Some 1, ls_page_size = n, ls_page_token = []\<rparr>"

lemma sample_good [simp]: "store_good (coll sample_env) sample_store"
  by simp

section \<open>Resolving\<close>

text \<open>A new directory under the core project's former path resolves to the core project.\<close>

lemma engine_checks: "resolve_checks (candidate ''acme/Engine/gears'') = Inr ()"
  by code_simp

lemma engine_walk:
  "case walk ascii_coll sample_store (resolve_chain ''acme/Engine/gears'') of
     Some (a, r, former) \<Rightarrow> a = ''acme/Engine'' \<and> path r = ''acme/core'' \<and> row_status r = 1
       \<and> source_repo r = Some ''repo/acme/core'' \<and> former
   | None \<Rightarrow> False"
  by code_simp

lemma engine_candidate: "rs_candidate_path (candidate ''acme/Engine/gears'') = ''acme/Engine/gears''"
  by (simp add: candidate_def)

theorem resolve_example:
  "resolve sample_env (candidate ''acme/Engine/gears'') sample_deadline sample_store =
     (Inr \<lparr>rs_resolved_path = ''acme/core'', rs_exact = False, rs_via_alias = False, rs_status = 1,
           rs_source_repo = ''repo/acme/core''\<rparr>, sample_store)"
  unfolding resolve_is_the_walk[OF sample_env_ready(1,2) engine_checks sample_env_ready(7) sample_good]
  using engine_walk
  by (auto simp: engine_candidate walk_answer_def unwrap_or_default_def simp del: walk.simps split: option.splits)

lemma core_path_ok: "path_ok ''acme/core''"
  by simp

theorem resolve_order_example:
  "map_option (resolved ''acme/core'') (best_match (rev (ancestor_union ascii_coll (resolve_chain ''acme/core'') sample_store)))
   = map_option (resolved ''acme/core'') (best_match (ancestor_union ascii_coll (resolve_chain ''acme/core'') sample_store))"
  by (rule resolve_order_free) (use general.path_collation_axioms in simp_all)

text \<open>A row an earlier build accepted on the reserved root, in another spelling.\<close>

definition squatted :: store where
  "squatted = empty_store\<lparr>projects := [org_row ''s'' ''Local'', org_row ''a'' ''acme'']\<rparr>"

lemma squatted_refused:
  "fst (resolve sample_env (candidate ''LOCAL/x/y'') sample_deadline squatted)
     = Inl (Status Not_found (In_read (No_ancestor ''LOCAL/x/y'')))"
proof -
  have checks: "resolve_checks (candidate ''LOCAL/x/y'') = Inr ()" by code_simp
  have none: "best_match (ancestor_union ascii_coll (resolve_chain ''LOCAL/x/y'') squatted) = None"
    unfolding best_match_def max_by_key_None by code_simp
  show ?thesis
    using resolve_run[OF sample_env_ready(1,2) checks, of squatted] none by (simp add: candidate_def)
qed

lemma squatted_paths:
  "validate [] ''Local'' = Inr ()" "resolve_checks (candidate ''acme/x'') = Inr ()"
  by code_simp+

lemma squatted_acme:
  "case best_match (ancestor_union ascii_coll (resolve_chain ''acme/x'') squatted) of
     Some f \<Rightarrow> fd_resolved f = ''acme'' | None \<Rightarrow> False"
  by code_simp

theorem resolve_reserved_example:
  "\<exists>resp. resolve sample_env (candidate ''acme/x'') sample_deadline squatted = (Inr resp, squatted)
     \<and> \<not> eq_ignore_ascii_case (rs_resolved_path resp) RESERVED_ROOT"
proof -
  obtain f where "best_match (ancestor_union ascii_coll (resolve_chain ''acme/x'') squatted) = Some f"
    using squatted_acme by (auto split: option.splits)
  then have run: "resolve sample_env (candidate ''acme/x'') sample_deadline squatted
      = (Inr (resolved ''acme/x'' f), squatted)"
    using resolve_run[OF sample_env_ready(1,2) squatted_paths(2), of squatted] by (simp add: candidate_def)
  have "path_ok ''Local''" using squatted_paths(1) by (simp only: validate_ok_iff)
  then have "\<forall>r \<in> set (projects squatted). path_ok (path r)"
    by (simp add: squatted_def org_row_def)
  from resolve_never_reserved[OF run sample_env_ready(7) this] run show ?thesis
    by (simp add: squatted_def empty_store_def)
qed

section \<open>Getting and listing\<close>

lemma engine_named:
  "case names ascii_coll sample_store ''ACME/engine'' of
     Some (r, former) \<Rightarrow> path r = ''acme/core'' \<and> former | None \<Rightarrow> False"
  by code_simp

lemma engine_path: "validate [] ''ACME/engine'' = Inr ()"
  by code_simp

theorem get_example:
  "\<exists>r. get sample_env (get_at ''ACME/engine'') sample_deadline sample_store
       = (Inr \<lparr>gt_project = Some (project_view ascii_coll sample_store r)\<rparr>, sample_store)
     \<and> path r = ''acme/core''"
proof -
  have "path_ok (gt_path (get_at ''ACME/engine''))"
    using engine_path by (simp only: get_at_def get_request.simps validate_ok_iff)
  from get_is_the_named_project[OF sample_env_ready(1,2) this sample_good] engine_named
  show ?thesis by (auto simp: get_at_def split: option.splits)
qed

lemma under_acme: "list_checks (list_under ''Acme'' 1) = Inr (1, Some Active)"
  by code_simp

lemma under_acme_selected:
  "map path (selection ascii_coll (list_under ''Acme'' 1) (Some Active) sample_store) = [''acme'', ''acme/core'']"
  by code_simp

theorem pages_example:
  "map_option (map p_path) (page_walk sample_env sample_deadline 4 (list_under ''Acme'' 1) sample_store)
     = Some [''acme'', ''acme/core'']"
proof -
  have four: "Suc (length (projects sample_store)) = 4" by (simp add: sample_store_def)
  show ?thesis
    using pages_complete[OF sample_env_ready(1,2) sample_good under_acme] under_acme_selected
    by (simp only: four sample_env_ready(3)) (simp add: comp_def)
qed

theorem listed_example:
  "listed ascii_coll (list_under ''Acme'' 1) (Some Active) (org_row ''b'' ''acme/core'') \<longleftrightarrow>
     prefix (segments ''acme'') (segments ''acme/core'')"
proof -
  have "org_row ''b'' ''acme/core'' \<in> set (projects sample_store)" by (simp add: sample_store_def)
  moreover have "ls_page_token (list_under ''Acme'' 1) = []" by (simp add: list_under_def)
  ultimately have "listed ascii_coll (list_under ''Acme'' 1) (Some Active) (org_row ''b'' ''acme/core'') \<longleftrightarrow>
     prefix (segments (to_ascii_lowercase ''Acme'')) (segments (to_ascii_lowercase ''acme/core''))"
    using listed_is_the_subtree[OF sample_env_ready(7) sample_good _ under_acme]
    by (simp add: list_under_def org_row_def)
  moreover have "to_ascii_lowercase ''Acme'' = ''acme''" "to_ascii_lowercase ''acme/core'' = ''acme/core''"
    by code_simp+
  ultimately show ?thesis by simp
qed

section \<open>After the sample writes\<close>

theorem register_then_get_example:
  "\<exists>p. get sample_env (get_at (rg_path sample_register)) sample_deadline store1 = (Inr \<lparr>gt_project = Some p\<rparr>, store1)
     \<and> p_path p = rg_path sample_register \<and> p_display_name p = ''Notes''"
proof -
  have "gt_path (get_at (rg_path sample_register)) = rg_path sample_register" by (simp add: get_at_def)
  from register_then_get[OF sample_lands(1) empty_store_good store1_not_empty sample_env_ready(1,2) refl this]
  show ?thesis by (auto simp: sample_register_def)
qed

definition core_declared :: declared where
  "core_declared = sample_declared ! 1"

lemma core_declared_simps:
  "core_declared \<in> set sample_declared" "dc_path core_declared = ''ACME/core''"
  "dc_source_repo core_declared = ''repo/ACME/core''" "dc_grants core_declared = [(''yadgar:team:t1'', 2)]"
  by (simp_all add: core_declared_def sample_declared_def)

theorem sync_then_read_example:
  "\<exists>p q. resolve sample_env (candidate ''ACME/core'') sample_deadline synced_store
       = (Inr \<lparr>rs_resolved_path = p, rs_exact = True, rs_via_alias = False, rs_status = 1,
               rs_source_repo = ''repo/ACME/core''\<rparr>, synced_store)
     \<and> get sample_env (get_at ''ACME/core'') sample_deadline synced_store = (Inr \<lparr>gt_project = Some q\<rparr>, synced_store)
     \<and> (\<lambda>g. (dg_team_id g, dg_level g)) ` set (p_grants q) = {(''yadgar:team:t1'', 2)}"
proof -
  have "rs_candidate_path (candidate ''ACME/core'') = dc_path core_declared"
    "gt_path (get_at ''ACME/core'') = dc_path core_declared"
    by (simp_all add: candidate_def get_at_def core_declared_simps)
  from sync_then_read[OF sample_synced sample_sync_good sample_env_ready(1,2) refl sample_validated
      core_declared_simps(1) this]
  show ?thesis by (simp only: core_declared_simps) auto
qed

end
