(* ===== verification/Touch.thy ===== *)
theory Touch
  imports Idem
begin

text \<open>
  \<open>src/write/touch.rs\<close>: \<open>TouchProjects\<close>, the debounced flush of \<open>last_seen_at\<close>. The response is
  empty; what the model answers besides is the fields of the line the code logs when a flush
  names fewer projects than paths.
\<close>

section \<open>The flush as a set of paths\<close>

definition MAX_TOUCH :: nat where
  "MAX_TOUCH = 500"

definition MIN_TIMESTAMP_SECONDS :: int where
  "MIN_TIMESTAMP_SECONDS = 1"

definition MAX_TIMESTAMP_SECONDS :: int where
  "MAX_TIMESTAMP_SECONDS = 2147483647"

definition deduplicated :: "string list \<Rightarrow> string list" where
  "deduplicated ps = dedup_by eq_ignore_ascii_case (sort_key to_ascii_lowercase ps)"

section \<open>The checks above the transaction\<close>

fun validate_all :: "string \<Rightarrow> string list \<Rightarrow> status + unit" where
  "validate_all what [] = Inr ()"
| "validate_all what (p # ps) = also_check (validate what p) (\<lambda>_. validate_all what ps)"

definition touch_checks :: "touch_request \<Rightarrow> status + (int \<times> string list)" where
  "touch_checks req =
     also_check (scope_of (to_scope req)) (\<lambda>_.
     (case to_seen_at req of
        None \<Rightarrow> refused Invalid_argument In_touch Seen_at_required
      | Some at \<Rightarrow>
          (if seconds at < MIN_TIMESTAMP_SECONDS \<or> seconds at > MAX_TIMESTAMP_SECONDS
           then refused Invalid_argument In_touch (Seen_at_range (seconds at))
           else if to_paths req = [] then refused Invalid_argument In_touch Paths_empty
           else if length (to_paths req) > MAX_TOUCH
           then refused Invalid_argument In_touch (Paths_too_many (length (to_paths req)))
           else also_check (validate_all ''paths'' (to_paths req)) (\<lambda>_.
             Inr (seconds at, deduplicated (to_paths req))))))"

section \<open>The transaction\<close>

text \<open>\<open>FROM_UNIXTIME\<close>: NULL outside what a TIMESTAMP holds.\<close>

definition from_unixtime :: "int \<Rightarrow> int option" where
  "from_unixtime secs =
     (if MIN_TIMESTAMP_SECONDS \<le> secs \<and> secs \<le> MAX_TIMESTAMP_SECONDS then Some secs else None)"

text \<open>\<open>path IN (..) OR id IN (SELECT project_id FROM project_alias WHERE alias_path IN (..))\<close>.\<close>

definition flush_matches :: "collations \<Rightarrow> string list \<Rightarrow> store \<Rightarrow> project_row \<Rightarrow> bool" where
  "flush_matches C ps s r \<longleftrightarrow>
     list_ex (same_path C (path r)) ps
     \<or> list_ex (\<lambda>a. list_ex (same_path C (alias_path a)) ps \<and> same_id C (alias_project a) (id_of r))
         (aliases s)"

text \<open>\<open>last_seen_at IS NULL OR last_seen_at < FROM_UNIXTIME(?)\<close>; a comparison with NULL is not true.\<close>

definition older :: "project_row \<Rightarrow> int \<Rightarrow> bool" where
  "older r secs =
     (case last_seen_at r of
        None \<Rightarrow> True
      | Some u \<Rightarrow> (case from_unixtime secs of None \<Rightarrow> False | Some t \<Rightarrow> u < t))"

record touched =
  tch_offered :: nat
  tch_matched :: nat
  tch_warned :: bool

definition touch_body :: "env \<Rightarrow> int \<Rightarrow> string list \<Rightarrow> touched finish txm" where
  "touch_body E secs ps =
     and_then (stmt E (update_projects (coll E)
        (\<lambda>s r. flush_matches (coll E) ps s r \<and> older r secs)
        (\<lambda>now r. r\<lparr>last_seen_at := from_unixtime secs\<rparr>))) (\<lambda>_.
     and_then (stmt E (select (\<lambda>s. length (filter (flush_matches (coll E) ps s) (projects s)))))
       (\<lambda>matched. ret (Commit
          \<lparr>tch_offered = length ps, tch_matched = matched, tch_warned = matched < length ps\<rparr>)))"

definition touch ::
  "env \<Rightarrow> touch_request \<Rightarrow> deadline \<Rightarrow> store \<Rightarrow> (status + touched) \<times> store" where
  "touch E req d s =
     (case touch_checks req of
        Inl e \<Rightarrow> (Inl e, s)
      | Inr (secs, ps) \<Rightarrow> run_tx E d (touch_body E secs ps) s)"

section \<open>Facts about the checks\<close>

lemma validate_all_Inr: "validate_all what ps = Inr u \<longleftrightarrow> (\<forall>p \<in> set ps. path_ok p)"
  by (induction ps) (auto simp: also_check_eq_Inr validate_ok_iff)

lemma touch_checks_Inr:
  "touch_checks req = Inr (secs, ps) \<longleftrightarrow>
     (\<exists>sc. to_scope req = Some sc) \<and> (\<exists>at. to_seen_at req = Some at \<and> secs = seconds at)
     \<and> from_unixtime secs = Some secs \<and> to_paths req \<noteq> [] \<and> length (to_paths req) \<le> MAX_TOUCH
     \<and> (\<forall>p \<in> set (to_paths req). path_ok p) \<and> ps = deduplicated (to_paths req)"
  by (auto simp: touch_checks_def also_check_eq_Inr scope_of_def validate_all_Inr from_unixtime_def
      split: option.splits if_splits)

lemma set_deduplicated: "set (deduplicated ps) \<subseteq> set ps"
  using set_dedup_by[of eq_ignore_ascii_case "sort_key to_ascii_lowercase ps"]
  by (simp add: deduplicated_def)

lemma deduplicated_keys: "to_ascii_lowercase ` set (deduplicated ps) = to_ascii_lowercase ` set ps"
  unfolding deduplicated_def
  by (subst dedup_by_keys[where key = to_ascii_lowercase]) (simp_all add: eq_ignore_ascii_case_def)

lemma deduplicated_distinct: "distinct (map to_ascii_lowercase (deduplicated ps))"
  unfolding deduplicated_def
  by (rule dedup_by_distinct) (simp_all add: eq_ignore_ascii_case_def)

text \<open>A flush is deduplicated under the store's own idea of sameness: one survivor, a spelling
  the caller offered, for each class of paths the engine's collation holds equal, and so exactly
  as many survivors as the engine counts different paths.\<close>

theorem deduplicated_counts_classes:
  assumes ck: "path_collation ck" and ok: "\<forall>p \<in> set ps. path_ok p"
  shows "set (deduplicated ps) \<subseteq> set ps \<and> ck ` set (deduplicated ps) = ck ` set ps
    \<and> length (deduplicated ps) = card (ck ` set ps)"
proof -
  let ?d = "deduplicated ps"
  have okd: "p \<in> set ?d \<Longrightarrow> path_ok p" for p using ok set_deduplicated by auto
  have eq: "path_ok p \<Longrightarrow> path_ok q \<Longrightarrow> ck p = ck q \<longleftrightarrow> to_ascii_lowercase p = to_ascii_lowercase q" for p q
    using path_collation.ck_path[OF ck] by (simp add: eq_ignore_ascii_case_def)
  have "ck ` set ps \<subseteq> ck ` set ?d"
  proof
    fix k assume "k \<in> ck ` set ps"
    then obtain p where p: "p \<in> set ps" "k = ck p" by auto
    with deduplicated_keys[of ps] obtain q where "q \<in> set ?d" "to_ascii_lowercase q = to_ascii_lowercase p"
      by (metis (no_types, lifting) imageE image_eqI)
    with p eq[of q p] ok okd show "k \<in> ck ` set ?d" by (metis image_eqI)
  qed
  then have img: "ck ` set ?d = ck ` set ps"
    using image_mono[OF set_deduplicated[of ps]] by (intro subset_antisym)
  have "distinct (map ck ?d)"
    using deduplicated_distinct[of ps] eq okd by (auto simp: distinct_map inj_on_def)
  then have "length ?d = card (ck ` set ?d)"
    by (metis distinct_card length_map list.set_map)
  with img show ?thesis using set_deduplicated by simp
qed

section \<open>What a flush does to a row\<close>

definition advance :: "int \<Rightarrow> project_row \<Rightarrow> project_row" where
  "advance secs r = (if older r secs then r\<lparr>last_seen_at := from_unixtime secs\<rparr> else r)"

definition flushed :: "collations \<Rightarrow> int \<times> string list \<Rightarrow> store \<Rightarrow> store" where
  "flushed C fl s = (case fl of (secs, ps) \<Rightarrow>
     s\<lparr>projects := map (\<lambda>r. if flush_matches C ps s r then advance secs r else r) (projects s)\<rparr>)"

lemma advance_keeps [simp]:
  "id_of (advance secs r) = id_of r" "version (advance secs r) = version r"
  "path (advance secs r) = path r" "owner_user_id (advance secs r) = owner_user_id r"
  "updated_at (advance secs r) = updated_at r"
  by (simp_all add: advance_def)

definition later_of :: "int \<Rightarrow> int option \<Rightarrow> int option" where
  "later_of secs seen =
     (case from_unixtime secs of
        None \<Rightarrow> seen
      | Some t \<Rightarrow> (case seen of None \<Rightarrow> Some t | Some u \<Rightarrow> Some (max u t)))"

lemma advance_later: "advance secs r = r\<lparr>last_seen_at := later_of secs (last_seen_at r)\<rparr>"
  by (cases r; cases "last_seen_at r"; cases "from_unixtime secs")
    (simp_all add: advance_def older_def later_of_def max_def)

lemma advance_commute: "advance a (advance b r) = advance b (advance a r)"
  by (simp add: advance_later later_of_def max.commute max.left_commute split: option.splits)

lemma advance_idem: "advance a (advance a r) = advance a r"
  by (simp add: advance_later later_of_def split: option.splits)

lemma flush_matches_same:
  "path r' = path r \<Longrightarrow> id_of r' = id_of r \<Longrightarrow> aliases s' = aliases s \<Longrightarrow>
   flush_matches C ps s' r' = flush_matches C ps s r"
  by (simp add: flush_matches_def)

lemma flush_matches_projects [simp]:
  "flush_matches C ps (s\<lparr>projects := rows\<rparr>) = flush_matches C ps s"
  by (simp add: flush_matches_def fun_eq_iff)

lemma flush_matches_advance [simp]:
  "flush_matches C ps s (advance x r) = flush_matches C ps s r"
  by (simp add: flush_matches_def)

lemma flushed_keeps [simp]:
  "aliases (flushed C fl s) = aliases s" "writes (flushed C fl s) = writes s"
  "grants (flushed C fl s) = grants s" "sync_lock (flushed C fl s) = sync_lock s"
  by (simp_all add: flushed_def split: prod.splits)

lemma row_refusal_last_seen [simp]: "row_refusal C (r\<lparr>last_seen_at := t\<rparr>) = row_refusal C r"
  by (simp add: row_refusal_def row_fits_def class_ok_def)

lemma row_good_last_seen [simp]: "row_good C (r\<lparr>last_seen_at := t\<rparr>) = row_good C r"
  by (simp add: row_good_def split: option.splits)

lemma touch_update_run:
  assumes "store_good C s"
  shows "update_projects C (\<lambda>s r. flush_matches C ps s r \<and> older r secs)
     (\<lambda>now r. r\<lparr>last_seen_at := from_unixtime secs\<rparr>) now s = Inr ((), flushed C (secs, ps) s)"
proof -
  have "r \<in> set (projects s) \<Longrightarrow> row_refusal C r = None" for r
    using assms by (auto simp: store_good_def projects_good_def row_good_def)
  moreover have "(if P \<and> older r secs then r\<lparr>last_seen_at := from_unixtime secs\<rparr> else r)
      = (if P then advance secs r else r)" for P r by (simp add: advance_def)
  ultimately show ?thesis by (simp add: update_projects_Inr flushed_def)
qed

lemma touch_update_good:
  "update_projects C (\<lambda>s r. flush_matches C ps s r \<and> older r secs)
     (\<lambda>now r. r\<lparr>last_seen_at := from_unixtime secs\<rparr>) now s = Inr (u, s') \<Longrightarrow>
   store_good C s \<Longrightarrow> store_good C s'"
  by (rule update_projects_good, assumption+) auto

lemma flushed_good: "store_good C s \<Longrightarrow> store_good C (flushed C fl s)"
  using touch_update_good[OF touch_update_run] by (cases fl) blast

section \<open>Flushes commute\<close>

text \<open>
  What a debounced, unordered, at-least-once flush needs of the operation that applies it: two
  flushes may arrive in either order, and one may arrive twice.
\<close>

locale commuting_flush =
  fixes apply_flush :: "'f \<Rightarrow> 's \<Rightarrow> 's"
  assumes commute: "apply_flush a (apply_flush b s) = apply_flush b (apply_flush a s)"
    and idem: "apply_flush a (apply_flush a s) = apply_flush a s"
begin

definition deliver :: "'f list \<Rightarrow> 's \<Rightarrow> 's" where
  "deliver fs = fold apply_flush fs"

lemma deliver_pull: "apply_flush a (deliver fs s) = deliver fs (apply_flush a s)"
  by (induction fs arbitrary: s) (simp_all add: deliver_def commute)

lemma deliver_absorb: "a \<in> set fs \<Longrightarrow> deliver fs (apply_flush a s) = deliver fs s"
proof (induction fs arbitrary: s)
  case (Cons b fs)
  show ?case
  proof (cases "a \<in> set fs")
    case True
    then show ?thesis using Cons.IH[of "apply_flush b s"] by (simp add: deliver_def commute[of b a])
  next
    case False
    with Cons.prems show ?thesis by (simp add: deliver_def idem)
  qed
qed simp

text \<open>Only which flushes arrived matters: not their order, and not how often each one did.\<close>

lemma deliver_subset: "set fs \<subseteq> set gs \<Longrightarrow> deliver gs (deliver fs s) = deliver gs s"
proof (induction fs arbitrary: s)
  case (Cons a fs)
  then show ?case using deliver_absorb[of a gs] by (simp add: deliver_def)
qed (simp add: deliver_def)

lemma deliver_swap: "deliver fs (deliver gs s) = deliver gs (deliver fs s)"
  by (induction fs arbitrary: s) (simp_all add: deliver_def flip: deliver_pull[unfolded deliver_def])

lemma deliver_set: "set fs = set gs \<Longrightarrow> deliver fs s = deliver gs s"
  using deliver_subset[of fs gs s] deliver_subset[of gs fs s] deliver_swap[of fs gs s] by simp

end

lemma flushed_commute: "flushed C a (flushed C b s) = flushed C b (flushed C a s)"
  by (cases a; cases b) (auto simp: flushed_def advance_commute)

lemma flushed_idem: "flushed C a (flushed C a s) = flushed C a s"
  by (cases a) (auto simp: flushed_def advance_idem)

interpretation last_seen: commuting_flush "flushed C" for C
  by unfold_locales (fact flushed_commute, fact flushed_idem)

end
