(* ===== verification/Service.thy ===== *)
theory Service
  imports Read Register Touch Sync
begin

text \<open>
  \<open>src/service.rs\<close>: the eight handlers - who is calling, what is recorded of the call, the
  operation, what is recorded of its answer - with \<open>src/write.rs\<close> (the two rpcs held back) and
  \<open>src/write/sync/recorded.rs\<close> (what a sync records of its scope).

  What the certificate names (\<open>caller_common_name\<close>), the deadline and the headers are read by
  third-party code and are inputs here; so is \<open>encoded_len\<close>. \<open>Call::run\<close> records the handler's
  outcome: what the closure makes of an answer, or the status of a refusal.
\<close>

section \<open>The rpcs held back\<close>

definition rename :: "rename_request \<Rightarrow> status + rename_response" where
  "rename req = Inl (Status Unimplemented Rename_held_back)"

definition archive :: "archive_request \<Rightarrow> status + archive_response" where
  "archive req = Inl (Status Unimplemented No_per_row_archive)"

section \<open>What a sync records of its scope\<close>

definition default_tel_scope :: tel_scope where
  "default_tel_scope = \<lparr>tl_request_id = [], tl_instance_id = [], tl_user_id = [], tl_project_id = []\<rparr>"

definition recorded_scope :: "string option \<Rightarrow> scope option \<Rightarrow> string \<Rightarrow> tel_scope" where
  "recorded_scope caller sc header =
     (let claimed = tel_scope_of sc header in
      case admitted caller sc of
        Inr _ \<Rightarrow> claimed
      | Inl _ \<Rightarrow> default_tel_scope\<lparr>tl_request_id := tl_request_id claimed\<rparr>)"

section \<open>The text of a response\<close>

definition space :: char where
  "space = CHR '' ''"

definition meta_words :: "meta option \<Rightarrow> string" where
  "meta_words m = (case m of None \<Rightarrow> [] | Some m \<Rightarrow> m_id m @ [space] @ m_project_id m)"

definition project_words :: "project \<Rightarrow> string" where
  "project_words p =
     (let pid = (case p_meta p of None \<Rightarrow> [] | Some m \<Rightarrow> m_id m) in pid @ [space] @ p_path p)"

definition rendered_register :: "register_response \<Rightarrow> string" where
  "rendered_register r = meta_words (rg_meta r)"

definition rendered_rename :: "rename_response \<Rightarrow> string" where
  "rendered_rename r = meta_words (rn_meta r)"

definition rendered_archive :: "archive_response \<Rightarrow> string" where
  "rendered_archive r = meta_words (ar_meta r)"

definition rendered_get :: "get_response \<Rightarrow> string" where
  "rendered_get r = (case gt_project r of None \<Rightarrow> [] | Some p \<Rightarrow> project_words p)"

text \<open>\<open>join(" ")\<close>: nothing at all for an empty list.\<close>

definition rendered_list :: "list_response \<Rightarrow> string" where
  "rendered_list r =
     (if ls_projects r = [] then [] else join_on space (map project_words (ls_projects r)))"

definition rendered_resolve :: "resolve_response \<Rightarrow> string" where
  "rendered_resolve r =
     rs_resolved_path r @ '' exact='' @ display_bool (rs_exact r) @ '' via_alias=''
     @ display_bool (rs_via_alias r) @ '' status='' @ display_int (rs_status r) @ [space]
     @ rs_source_repo r"

definition rendered_sync :: "sync_response \<Rightarrow> string" where
  "rendered_sync r =
     ''inserted='' @ decimal (unat (inserted r)) @ '' updated='' @ decimal (unat (updated r))
     @ '' archived='' @ decimal (unat (archived r))
     @ '' reactivated='' @ decimal (unat (reactivated r))
     @ '' unchanged='' @ decimal (unat (unchanged r))"

definition rendered_touch :: string where
  "rendered_touch = ''TouchProjectsResponse''"

section \<open>The record of a call\<close>

datatype kind = Kind_read | Kind_write

record outcome =
  oc_payload :: string
  oc_encoded_bytes :: nat
  oc_rows :: "32 word"

record call_record =
  cr_rpc :: string
  cr_kind :: kind
  cr_scope :: tel_scope
  cr_result :: "code + outcome"

definition envelope :: "string \<Rightarrow> nat \<Rightarrow> 32 word \<Rightarrow> outcome" where
  "envelope rendered encoded_len rows =
     \<lparr>oc_payload = rendered, oc_encoded_bytes = encoded_len, oc_rows = rows\<rparr>"

definition call_run ::
  "string \<Rightarrow> kind \<Rightarrow> tel_scope \<Rightarrow> (status + 'r) \<times> store \<Rightarrow> ('r \<Rightarrow> outcome)
   \<Rightarrow> (status + 'r) \<times> store \<times> call_record" where
  "call_run rpc kind scope answer observe =
     (fst answer, snd answer,
      \<lparr>cr_rpc = rpc, cr_kind = kind, cr_scope = scope,
       cr_result = (case fst answer of Inl e \<Rightarrow> Inl (code_of e) | Inr r \<Rightarrow> Inr (observe r))\<rparr>)"

section \<open>The handlers\<close>

text \<open>A request as the listener hands it over.\<close>

record 'q incoming =
  in_caller :: "string option"
  in_request_id :: "string option"
  in_deadline :: deadline
  in_message :: 'q

definition handle_register ::
  "env \<Rightarrow> (register_response \<Rightarrow> nat) \<Rightarrow> register_request incoming \<Rightarrow> store
   \<Rightarrow> (status + register_response) \<times> store \<times> call_record" where
  "handle_register E len inc s =
     (let req = in_message inc in
      call_run ''RegisterProject'' Kind_write
        (tel_scope_of (rg_scope req) (request_id_of (in_request_id inc)))
        (register_as E (in_caller inc) req (in_deadline inc) s)
        (\<lambda>r. envelope (rendered_register r) (len r) 1))"

definition handle_resolve ::
  "env \<Rightarrow> (resolve_response \<Rightarrow> nat) \<Rightarrow> resolve_request incoming \<Rightarrow> store
   \<Rightarrow> (status + resolve_response) \<times> store \<times> call_record" where
  "handle_resolve E len inc s =
     (let req = in_message inc in
      call_run ''ResolveProject'' Kind_read
        (tel_scope_of (rs_scope req) (request_id_of (in_request_id inc)))
        (resolve E req (in_deadline inc) s)
        (\<lambda>r. envelope (rendered_resolve r) (len r) 1))"

definition handle_get ::
  "env \<Rightarrow> (get_response \<Rightarrow> nat) \<Rightarrow> get_request incoming \<Rightarrow> store
   \<Rightarrow> (status + get_response) \<times> store \<times> call_record" where
  "handle_get E len inc s =
     (let req = in_message inc in
      call_run ''GetProject'' Kind_read
        (tel_scope_of (gt_scope req) (request_id_of (in_request_id inc)))
        (get E req (in_deadline inc) s)
        (\<lambda>r. envelope (rendered_get r) (len r) 1))"

definition handle_list ::
  "env \<Rightarrow> (list_response \<Rightarrow> nat) \<Rightarrow> list_request incoming \<Rightarrow> store
   \<Rightarrow> (status + list_response) \<times> store \<times> call_record" where
  "handle_list E len inc s =
     (let req = in_message inc in
      call_run ''ListProjects'' Kind_read
        (tel_scope_of (ls_scope req) (request_id_of (in_request_id inc)))
        (list_projects E req (in_deadline inc) s)
        (\<lambda>r. envelope (rendered_list r) (len r) (of_nat (length (ls_projects r)))))"

definition handle_touch ::
  "env \<Rightarrow> nat \<Rightarrow> touch_request incoming \<Rightarrow> store \<Rightarrow> (status + touched) \<times> store \<times> call_record" where
  "handle_touch E len inc s =
     (let req = in_message inc; rows = of_nat (length (to_paths req)) in
      call_run ''TouchProjects'' Kind_write
        (tel_scope_of (to_scope req) (request_id_of (in_request_id inc)))
        (touch E req (in_deadline inc) s)
        (\<lambda>r. envelope rendered_touch len rows))"

definition handle_sync ::
  "env \<Rightarrow> (sync_response \<Rightarrow> nat) \<Rightarrow> sync_request incoming \<Rightarrow> store
   \<Rightarrow> (status + sync_response) \<times> store \<times> call_record" where
  "handle_sync E len inc s =
     (let req = in_message inc in
      call_run ''SyncProjects'' Kind_write
        (recorded_scope (in_caller inc) (sy_scope req) (request_id_of (in_request_id inc)))
        (sync_as E (in_caller inc) req (in_deadline inc) s)
        (\<lambda>r. envelope (rendered_sync r) (len r)
           (inserted r + updated r + archived r + reactivated r + unchanged r)))"

definition handle_rename ::
  "(rename_response \<Rightarrow> nat) \<Rightarrow> rename_request incoming \<Rightarrow> store
   \<Rightarrow> (status + rename_response) \<times> store \<times> call_record" where
  "handle_rename len inc s =
     (let req = in_message inc in
      call_run ''RenameProject'' Kind_write
        (tel_scope_of (rn_scope req) (request_id_of (in_request_id inc)))
        (rename req, s) (\<lambda>r. envelope (rendered_rename r) (len r) 1))"

definition handle_archive ::
  "(archive_response \<Rightarrow> nat) \<Rightarrow> archive_request incoming \<Rightarrow> store
   \<Rightarrow> (status + archive_response) \<times> store \<times> call_record" where
  "handle_archive len inc s =
     (let req = in_message inc in
      call_run ''ArchiveProject'' Kind_write
        (tel_scope_of (ar_scope req) (request_id_of (in_request_id inc)))
        (archive req, s) (\<lambda>r. envelope (rendered_archive r) (len r) 1))"

end
