(* ===== verification/Service_Spec.thy ===== *)
theory Service_Spec
  imports Service Register_Live
begin

text \<open>
  What the record of a call holds (\<open>src/service.rs\<close>, \<open>src/write/sync/recorded.rs\<close>): nothing of
  the three user ids of a \<open>Meta\<close>, but the account segment of a registered path; and of a refused
  sync nothing the caller claimed to be.
\<close>

section \<open>The text of a response\<close>

definition without_users :: "meta \<Rightarrow> meta" where
  "without_users m = m\<lparr>m_owner_user_id := [], m_created_by := [], m_updated_by := []\<rparr>"

definition project_without_users :: "project \<Rightarrow> project" where
  "project_without_users p = p\<lparr>p_meta := map_option without_users (p_meta p)\<rparr>"

lemma meta_words_users [simp]: "meta_words (map_option without_users m) = meta_words m"
  by (cases m) (simp_all add: meta_words_def without_users_def)

lemma project_words_users [simp]: "project_words (project_without_users p) = project_words p"
  by (cases "p_meta p") (simp_all add: project_words_def project_without_users_def without_users_def)

text \<open>The text handed to telemetry does not depend on the owner, creator or updater of any
  \<open>Meta\<close> in a response: of two responses that differ in nothing but those, the records are the
  same.\<close>

lemma payload_without_users:
  "rendered_register (r\<lparr>rg_meta := map_option without_users (rg_meta r)\<rparr>) = rendered_register r
   \<and> rendered_get (g\<lparr>gt_project := map_option project_without_users (gt_project g)\<rparr>) = rendered_get g
   \<and> rendered_list (l\<lparr>ls_projects := map project_without_users (ls_projects l)\<rparr>) = rendered_list l"
proof (intro conjI)
  show "rendered_get (g\<lparr>gt_project := map_option project_without_users (gt_project g)\<rparr>) = rendered_get g"
    by (cases "gt_project g") (simp_all add: rendered_get_def)
  have "project_words \<circ> project_without_users = project_words" by (simp add: fun_eq_iff)
  then show "rendered_list (l\<lparr>ls_projects := map project_without_users (ls_projects l)\<rparr>) = rendered_list l"
    by (simp add: rendered_list_def)
qed (simp add: rendered_register_def)

lemma own_root_prefix:
  assumes "is_under_own_root p seg"
  shows "\<exists>rest. p = ''local/'' @ seg @ rest"
proof -
  from assms obtain more where "segments p = RESERVED_ROOT # seg # more"
    by (auto simp: is_under_own_root_iff)
  then have "p = join_on slash (RESERVED_ROOT # seg # more)" by (metis join_segments)
  then show ?thesis by (cases more) (auto simp: RESERVED_ROOT_def)
qed

text \<open>C34. The account is in it all the same, through the path: the text recorded for a registration
  that wrote is the new id, a space, and a path that begins with \<open>local/\<close> and the account segment -
  what is left of the caller's user id once \<open>yadgar:user:\<close> is taken off.\<close>

theorem register_payload_carries_account:
  assumes "handle_register E len inc s = (Inr resp, s', rec)" and "s' \<noteq> s"
  shows "\<exists>sc seg pid rest out. rg_scope (in_message inc) = Some sc
    \<and> sc_user_id sc = ''yadgar:user:'' @ seg \<and> cr_result rec = Inr out
    \<and> oc_payload out = pid @ '' '' @ ''local/'' @ seg @ rest"
proof -
  let ?req = "in_message inc"
  have run: "register_as E (in_caller inc) ?req (in_deadline inc) s = (Inr resp, s')"
    and rec: "cr_result rec = Inr (envelope (rendered_register resp) (len resp) 1)"
    using assms(1) by (auto simp: handle_register_def call_run_def Let_def prod_eq_iff)
  from run show ?thesis
  proof (cases rule: register_success)
    case (1 sc cls)
    then obtain seg where seg: "sc_user_id sc = ''yadgar:user:'' @ seg" "is_under_own_root (rg_path ?req) seg"
      using account_segment_Some by (auto simp: register_checks_Inr Class_of_Inr USER_ID_PREFIX_def)
    from 1 assms(2) obtain pid where "resp = \<lparr>rg_meta = Some (meta_of pid 1 (rg_path ?req) (sc_user_id sc))\<rparr>"
      by (auto simp: registered_def)
    then have "rendered_register resp = pid @ '' '' @ rg_path ?req"
      by (simp add: rendered_register_def meta_words_def meta_of_def space_def)
    moreover obtain rest where "rg_path ?req = ''local/'' @ seg @ rest" using own_root_prefix[OF seg(2)] ..
    moreover have "rg_scope ?req = Some sc" using 1 by (auto simp: register_checks_Inr)
    ultimately show ?thesis using seg(1) rec by (auto simp: envelope_def)
  qed
qed

section \<open>What a sync records\<close>

lemma sync_refused_early:
  "admitted caller (sy_scope req) = Inl e \<Longrightarrow> sync_as E caller req d s = (Inl e, s)"
  by (simp add: sync_as_def)

text \<open>C33. A sync records whom it was admitted as: a refused sync carries its request id and nothing
  else of the scope it claimed, its answer is the refusal and it touches nothing; an admitted one
  carries the scope it was decided on, whose user is the actor it writes as.\<close>

theorem sync_records_only_admitted:
  "case admitted (in_caller inc) (sy_scope (in_message inc)) of
     Inl e \<Rightarrow> handle_sync E len inc s =
       (Inl e, s, \<lparr>cr_rpc = ''SyncProjects'', cr_kind = Kind_write,
          cr_scope = \<lparr>tl_request_id = tl_request_id (tel_scope_of (sy_scope (in_message inc))
                                                     (request_id_of (in_request_id inc))),
                      tl_instance_id = [], tl_user_id = [], tl_project_id = []\<rparr>,
          cr_result = Inl (code_of e)\<rparr>)
   | Inr actor \<Rightarrow> cr_scope (snd (snd (handle_sync E len inc s))) =
         tel_scope_of (sy_scope (in_message inc)) (request_id_of (in_request_id inc))
       \<and> tl_user_id (cr_scope (snd (snd (handle_sync E len inc s)))) = actor
       \<and> in_caller inc = Some SYNC_CALLER"
proof (cases "admitted (in_caller inc) (sy_scope (in_message inc))")
  case (Inl e)
  then show ?thesis
    by (simp add: sync_refused_early handle_sync_def call_run_def recorded_scope_def default_tel_scope_def Let_def)
next
  case (Inr actor)
  then obtain x where x: "sy_scope (in_message inc) = Some x" "principal (sc_user_id x) = Inr actor"
    and caller: "in_caller inc = Some SYNC_CALLER"
    by (auto simp: admitted_def also_check_eq_Inr admit_sync_def split: option.splits if_splits)
  from x(2) have "actor = sc_user_id x" by (auto simp: principal_def Let_def split: if_splits)
  with x(1) caller Inr show ?thesis
    by (simp add: handle_sync_def call_run_def recorded_scope_def tel_scope_of_def Let_def)
qed

end
