(* ===== verification/Touch_Spec.thy ===== *)
theory Touch_Spec
  imports Touch Sample
begin

text \<open>
  What \<open>TouchProjects\<close> promises: it only ever advances \<open>last_seen_at\<close>, the order and the number of
  deliveries of a flush do not matter, and its warning is silent when every path it names is
  the path of a project.
\<close>

section \<open>Effect\<close>

lemma touch_body_InrD:
  assumes "touch_body E secs ps \<lparr>work = s, stmts = n\<rparr> = (Inr fin, t')" and "store_good (coll E) s"
  shows "work t' = flushed (coll E) (secs, ps) s
    \<and> (\<exists>m. fin = Commit \<lparr>tch_offered = length ps, tch_matched = m, tch_warned = m < length ps\<rparr>
         \<and> m = length (filter (flush_matches (coll E) ps s) (projects s)))"
proof -
  let ?u = "update_projects (coll E) (\<lambda>s r. flush_matches (coll E) ps s r \<and> older r secs)
        (\<lambda>now r. r\<lparr>last_seen_at := from_unixtime secs\<rparr>)"
  let ?q = "\<lambda>s. length (filter (flush_matches (coll E) ps s) (projects s))"
  from assms(1) obtain u t1 m t2 where u: "stmt E ?u \<lparr>work = s, stmts = n\<rparr> = (Inr u, t1)"
    and m: "stmt E (select ?q) t1 = (Inr m, t2)"
    and fin: "fin = Commit \<lparr>tch_offered = length ps, tch_matched = m, tch_warned = m < length ps\<rparr>"
    and t': "t' = t2"
    unfolding touch_body_def by (auto dest!: and_then_InrD simp: ret_run)
  have t1: "work t1 = flushed (coll E) (secs, ps) s"
    using stmt_InrD[OF u] touch_update_run[OF assms(2)] by simp
  have "work t2 = work t1 \<and> m = ?q (work t1)"
    using stmt_InrD[OF m] by (auto dest!: select_good)
  moreover have "?q (flushed (coll E) (secs, ps) s) = ?q s"
    by (simp add: flushed_def filter_map o_def if_distrib[of "flush_matches (coll E) ps s"] cong: if_cong)
  ultimately show ?thesis using fin t1 t' by simp
qed

lemma touch_effect:
  assumes "touch E req d s = (r, s')" and good: "store_good (coll E) s"
  shows "s' = s \<or> (\<exists>fl. touch_checks req = Inr fl \<and> s' = flushed (coll E) fl s)"
proof (cases "touch_checks req")
  case (Inr fl)
  obtain secs ps where fl: "fl = (secs, ps)" by (cases fl)
  from assms Inr fl have "run_tx E d (touch_body E secs ps) s = (r, s')" by (simp add: touch_def)
  then show ?thesis using touch_body_InrD good Inr fl by (cases rule: run_tx_cases) blast+
qed (use assms in \<open>simp add: touch_def\<close>)

lemma touch_store_good:
  "touch E req d s = (r, s') \<Longrightarrow> store_good (coll E) s \<Longrightarrow> store_good (coll E) s'"
  using touch_effect flushed_good by metis

lemma touch_run:
  assumes E: "no_faults E" "acquire (the_pool E) d = Inr ()" and good: "store_good (coll E) s"
    and ok: "touch_checks req = Inr (secs, ps)"
  shows "touch E req d s =
    (let m = length (filter (flush_matches (coll E) ps s) (projects s)) in
     (Inr \<lparr>tch_offered = length ps, tch_matched = m, tch_warned = m < length ps\<rparr>,
      flushed (coll E) (secs, ps) s))"
proof -
  let ?t = "\<lparr>work = s, stmts = 1\<rparr>"
  obtain x t' where run: "touch_body E secs ps ?t = (Inr x, t')"
    by (auto simp: touch_body_def tx_simps E touch_update_run[OF good])
  from touch_body_InrD[OF run good] run show ?thesis
    by (auto simp: touch_def ok run_tx_def E no_faultsD[OF E(1)] Let_def simp del: One_nat_def)
qed

lemma touch_refused_unchanged:
  "touch E req d s = (Inl e, s') \<Longrightarrow> \<not> commit_lands E \<Longrightarrow> s' = s"
  by (auto simp: touch_def split: sum.splits dest: run_tx_refused)

section \<open>Only forward\<close>

lemma touch_forward:
  assumes "touch E req d s = (r, s')" and "store_good (coll E) s"
  shows "list_all2 (\<lambda>r r'. r' = r\<lparr>last_seen_at := last_seen_at r'\<rparr>
             \<and> (\<forall>u. last_seen_at r = Some u \<longrightarrow> (\<exists>u'. last_seen_at r' = Some u' \<and> u \<le> u')))
           (projects s) (projects s')
    \<and> aliases s' = aliases s \<and> writes s' = writes s \<and> grants s' = grants s \<and> sync_lock s' = sync_lock s"
proof -
  have keep: "r = r\<lparr>last_seen_at := last_seen_at r\<rparr>" for r :: project_row by simp
  have adv: "advance secs r = r\<lparr>last_seen_at := last_seen_at (advance secs r)\<rparr>
      \<and> (\<forall>u. last_seen_at r = Some u \<longrightarrow> (\<exists>u'. last_seen_at (advance secs r) = Some u' \<and> u \<le> u'))" for secs r
    by (simp add: advance_later later_of_def split: option.splits)
  from touch_effect[OF assms] show ?thesis
  proof
    assume "s' = s"
    then show ?thesis by (simp add: list_all2_same)
  next
    assume "\<exists>fl. touch_checks req = Inr fl \<and> s' = flushed (coll E) fl s"
    then obtain fl where "s' = flushed (coll E) fl s" by blast
    then show ?thesis using adv
      by (cases fl) (auto simp: flushed_def list_all2_map2 list_all2_same)
  qed
qed

text \<open>A flush, however it ends, only ever moves \<open>last_seen_at\<close>, and only forward: no row is
  added or removed, a time once recorded never becomes NULL and never goes back, and no version,
  no \<open>updated_at\<close>, no other table changes.\<close>

theorem touch_only_forward:
  assumes "touch E req d s = (r, s')" and "store_good (coll E) s"
  shows "list_all2 (\<lambda>r r'. r' = r\<lparr>last_seen_at := last_seen_at r'\<rparr>
             \<and> (\<forall>u. last_seen_at r = Some u \<longrightarrow> (\<exists>u'. last_seen_at r' = Some u' \<and> u \<le> u')))
           (projects s) (projects s')
    \<and> aliases s' = aliases s \<and> writes s' = writes s \<and> grants s' = grants s \<and> sync_lock s' = sync_lock s"
  by (rule touch_forward[OF assms])

section \<open>Order and repetition\<close>

definition deliver_touches :: "env \<Rightarrow> deadline \<Rightarrow> touch_request list \<Rightarrow> store \<Rightarrow> store" where
  "deliver_touches E d reqs s = fold (\<lambda>req s. snd (touch E req d s)) reqs s"

definition accepted :: "touch_request list \<Rightarrow> (int \<times> string list) list" where
  "accepted reqs = map (projr \<circ> touch_checks) (filter (\<lambda>req. \<exists>fl. touch_checks req = Inr fl) reqs)"

lemma deliver_touches_flushes:
  assumes E: "no_faults E" "acquire (the_pool E) d = Inr ()"
  shows "store_good (coll E) s \<Longrightarrow>
    deliver_touches E d reqs s = last_seen.deliver (coll E) (accepted reqs) s"
proof (induction reqs arbitrary: s)
  case (Cons req reqs)
  show ?case
  proof (cases "touch_checks req")
    case (Inl e)
    with Cons show ?thesis by (simp add: deliver_touches_def accepted_def touch_def)
  next
    case (Inr fl)
    then have "snd (touch E req d s) = flushed (coll E) fl s"
      using touch_run[OF E Cons.prems] by (cases fl) (simp add: Let_def)
    with Cons Inr flushed_good[OF Cons.prems] show ?thesis
      by (simp add: deliver_touches_def accepted_def last_seen.deliver_def)
  qed
qed (simp add: deliver_touches_def accepted_def last_seen.deliver_def)

text \<open>C12. Flushes are periodic, independent and retried: for any two delivery sequences made of the
  same requests, in whatever order and with whatever repetitions, the registry ends the same.\<close>

theorem touch_order_irrelevant:
  assumes "no_faults E" "acquire (the_pool E) d = Inr ()" "store_good (coll E) s"
    and "set reqs = set reqs'"
  shows "deliver_touches E d reqs s = deliver_touches E d reqs' s"
proof -
  have "set (accepted reqs) = set (accepted reqs')" using assms(4) by (simp add: accepted_def)
  then show ?thesis using deliver_touches_flushes[OF assms(1,2,3)] last_seen.deliver_set by metis
qed

section \<open>The warning\<close>

text \<open>The warning is silent when it should be: a flush whose every path is the path of a
  registered project, in any spelling and any number of spellings, succeeds and logs nothing.\<close>

theorem touch_quiet:
  assumes E: "no_faults E" "acquire (the_pool E) d = Inr ()" "path_collation (ci_key (coll E))"
    and good: "store_good (coll E) s" and ok: "touch_checks req = Inr fl"
    and all: "\<forall>p \<in> set (to_paths req). \<exists>r \<in> set (projects s). same_path (coll E) (path r) p"
  shows "\<exists>out s'. touch E req d s = (Inr out, s') \<and> \<not> tch_warned out"
proof -
  obtain secs where fl: "fl = (secs, deduplicated (to_paths req))"
    and valid: "\<forall>p \<in> set (to_paths req). path_ok p"
    using ok by (cases fl) (auto simp: touch_checks_Inr)
  let ?ps = "deduplicated (to_paths req)" and ?ck = "ci_key (coll E)"
  let ?hit = "filter (flush_matches (coll E) ?ps s) (projects s)"
  have "?ck ` set ?ps \<subseteq> (\<lambda>r. ?ck (path r)) ` set ?hit"
  proof
    fix k assume "k \<in> ?ck ` set ?ps"
    then obtain p where p: "p \<in> set ?ps" "k = ?ck p" by auto
    with all set_deduplicated[of "to_paths req"] obtain r where
      r: "r \<in> set (projects s)" "same_path (coll E) (path r) p" by blast
    then have "r \<in> set ?hit" using p by (auto simp: flush_matches_def list_ex_iff)
    with r p show "k \<in> (\<lambda>r. ?ck (path r)) ` set ?hit"
      by (intro image_eqI[of _ _ r]) (simp_all add: same_path_def)
  qed
  then have "card (?ck ` set ?ps) \<le> card ((\<lambda>r. ?ck (path r)) ` set ?hit)" by (simp add: card_mono)
  also have "\<dots> \<le> length ?hit" by (metis card_length length_map list.set_map)
  finally have "card (?ck ` set ?ps) \<le> length ?hit" .
  moreover have "distinct (map ?ck ?ps)"
  proof -
    have "p \<in> set ?ps \<Longrightarrow> path_ok p" for p using valid set_deduplicated by blast
    then have "inj_on ?ck (set ?ps)" "distinct ?ps"
      using deduplicated_distinct[of "to_paths req"] path_collation.ck_path[OF E(3)]
      by (auto simp: distinct_map inj_on_def eq_ignore_ascii_case_def)
    then show ?thesis by (simp add: distinct_map)
  qed
  then have "card (?ck ` set ?ps) = length ?ps" by (metis distinct_card length_map list.set_map)
  ultimately have "\<not> length ?hit < length ?ps" by simp
  then show ?thesis using touch_run[OF E(1,2) good, of req secs ?ps] ok fl by (simp add: Let_def)
qed

end
