(* ===== verification/Registry.thy ===== *)
theory Registry
  imports Service Register_Live Sync_Spec Touch_Spec Read_Page
begin

text \<open>
  The service as a whole: any sequence of calls, in any order, from anybody, each with its own
  clock, faults, pool and deadline. What one call owes the store is the locale \<open>registry_rpc\<close>;
  each of the eight rpcs provides it, the dispatcher provides it from them, and what follows for
  a whole history is proved once from the contract.
\<close>

section \<open>What a call may do to the store\<close>

text \<open>A row keeps its identity, its class and its history for ever; a private row keeps everything
  but the time it was last seen.\<close>

definition row_evolves :: "project_row \<Rightarrow> project_row \<Rightarrow> bool" where
  "row_evolves r r' \<longleftrightarrow>
     id_of r' = id_of r \<and> path r' = path r \<and> owner_user_id r' = owner_user_id r
     \<and> row_visibility r' = row_visibility r \<and> created_by r' = created_by r
     \<and> created_at r' = created_at r \<and> version r \<le> version r'
     \<and> (owner_user_id r \<noteq> None \<longrightarrow> r' = r\<lparr>last_seen_at := last_seen_at r'\<rparr>)
     \<and> (\<forall>u. last_seen_at r = Some u \<longrightarrow> (\<exists>u'. last_seen_at r' = Some u' \<and> u \<le> u'))"

definition evolves :: "store \<Rightarrow> store \<Rightarrow> bool" where
  "evolves s s' \<longleftrightarrow>
     (\<exists>old news. projects s' = old @ news \<and> list_all2 row_evolves (projects s) old)
     \<and> aliases s' = aliases s \<and> prefix (writes s) (writes s')"

lemma row_evolves_refl [simp]: "row_evolves r r"
  by (simp add: row_evolves_def)

lemma row_evolves_trans: "row_evolves a b \<Longrightarrow> row_evolves b c \<Longrightarrow> row_evolves a c"
proof -
  assume ab: "row_evolves a b" and bc: "row_evolves b c"
  have "c = a\<lparr>last_seen_at := last_seen_at c\<rparr>" if "owner_user_id a \<noteq> None"
  proof -
    have b: "b = a\<lparr>last_seen_at := last_seen_at b\<rparr>" and c: "c = b\<lparr>last_seen_at := last_seen_at c\<rparr>"
      using ab bc that by (auto simp: row_evolves_def)
    have "c = (a\<lparr>last_seen_at := last_seen_at b\<rparr>)\<lparr>last_seen_at := last_seen_at c\<rparr>"
      using b c by metis
    then show ?thesis by simp
  qed
  moreover have "\<exists>u'. last_seen_at c = Some u' \<and> u \<le> u'" if "last_seen_at a = Some u" for u
    using ab bc that unfolding row_evolves_def by (meson order_trans)
  ultimately show ?thesis using ab bc by (simp add: row_evolves_def)
qed

lemma evolvesI:
  "projects s' = old @ news \<Longrightarrow> list_all2 row_evolves (projects s) old \<Longrightarrow> aliases s' = aliases s \<Longrightarrow>
   prefix (writes s) (writes s') \<Longrightarrow> evolves s s'"
  unfolding evolves_def by blast

lemma evolves_refl [simp]: "evolves s s"
  by (rule evolvesI[where old = "projects s" and news = "[]"]) (simp_all add: list_all2_same)

lemma evolves_row:
  assumes "evolves s s'" and "r \<in> set (projects s)"
  shows "\<exists>r' \<in> set (projects s'). row_evolves r r'"
proof -
  from assms(1) obtain old news where p: "projects s' = old @ news" and rel: "list_all2 row_evolves (projects s) old"
    by (auto simp: evolves_def)
  from assms(2) obtain i where i: "i < length (projects s)" "r = projects s ! i" by (auto simp: in_set_conv_nth)
  then have "row_evolves r (old ! i)" "i < length old"
    using rel by (auto simp: list_all2_conv_all_nth)
  then show ?thesis using p by (intro bexI[of _ "old ! i"]) simp_all
qed

lemma evolves_trans:
  assumes "evolves a b" and "evolves b c"
  shows "evolves a c"
proof -
  from assms obtain o1 n1 o2 n2 where b: "projects b = o1 @ n1" "list_all2 row_evolves (projects a) o1"
    and c: "projects c = o2 @ n2" "list_all2 row_evolves (projects b) o2"
    by (auto simp: evolves_def)
  from c(2) b(1) obtain p1 p2 where p: "o2 = p1 @ p2" "list_all2 row_evolves o1 p1"
    by (auto simp: list_all2_append1)
  have "list_all2 row_evolves (projects a) p1"
    using list_all2_trans[of row_evolves row_evolves row_evolves] row_evolves_trans b(2) p(2) by blast
  moreover have "projects c = p1 @ p2 @ n2" using c p by simp
  ultimately show ?thesis using assms
    by (intro evolvesI[of c p1 "p2 @ n2"]) (auto simp: evolves_def intro: prefix_order.trans)
qed

section \<open>The contract of an rpc\<close>

locale registry_rpc =
  fixes run :: "env \<Rightarrow> 'q \<Rightarrow> deadline \<Rightarrow> store \<Rightarrow> (status + 'r) \<times> store"
  assumes keeps_good:
    "path_collation (ci_key (coll E)) \<Longrightarrow> store_good (coll E) s \<Longrightarrow>
     run E q d s = (r, s') \<Longrightarrow> store_good (coll E) s'"
    and keeps_rows:
    "path_collation (ci_key (coll E)) \<Longrightarrow> store_good (coll E) s \<Longrightarrow>
     run E q d s = (r, s') \<Longrightarrow> evolves s s'"
    and all_or_nothing:
    "\<not> commit_lands E \<Longrightarrow> run E q d s = (Inl e, s') \<Longrightarrow> s' = s"
begin

text \<open>A history: the store after a list of calls, each with its environment and deadline.\<close>

definition run_all :: "(env \<times> 'q \<times> deadline) list \<Rightarrow> store \<Rightarrow> store" where
  "run_all cs s = fold (\<lambda>(E, q, d) s. snd (run E q d s)) cs s"

lemma run_all_simps [simp]:
  "run_all [] s = s" "run_all ((E, q, d) # cs) s = run_all cs (snd (run E q d s))"
  "run_all (as @ cs) s = run_all cs (run_all as s)"
  by (simp_all add: run_all_def)

lemma history_good:
  "path_collation (ci_key C) \<Longrightarrow> store_good C s \<Longrightarrow> \<forall>(E, q, d) \<in> set cs. coll E = C \<Longrightarrow>
   store_good C (run_all cs s) \<and> evolves s (run_all cs s)"
proof (induction cs arbitrary: s)
  case (Cons c cs)
  obtain E q d where c: "c = (E, q, d)" by (cases c)
  obtain r s1 where r: "run E q d s = (r, s1)" by (cases "run E q d s")
  have C: "coll E = C" using Cons.prems(3) c by simp
  with Cons.prems r have s1: "store_good C s1" "evolves s s1"
    using keeps_good[of E s q d r s1] keeps_rows[of E s q d r s1] by auto
  then have "store_good C (run_all cs s1) \<and> evolves s1 (run_all cs s1)"
    using Cons by simp
  then show ?case using s1 r c evolves_trans by auto
qed simp

text \<open>A history of refusals changes nothing.\<close>

lemma refusals_change_nothing:
  "\<forall>(E, q, d) \<in> set cs. \<not> commit_lands E \<and> (\<forall>s. \<exists>e s'. run E q d s = (Inl e, s')) \<Longrightarrow> run_all cs s = s"
proof (induction cs arbitrary: s)
  case (Cons c cs)
  obtain E q d where c: "c = (E, q, d)" by (cases c)
  then have "\<forall>s. \<exists>e s'. run E q d s = (Inl e, s')" using Cons.prems by simp
  then obtain e s' where r: "run E q d s = (Inl e, s')" by blast
  then have "s' = s" using all_or_nothing Cons.prems c by auto
  with r c Cons show ?case by simp
qed simp

end

section \<open>The rpcs provide it\<close>

interpretation registering: registry_rpc "\<lambda>E (caller, req) d s. register_as E caller req d s"
proof (unfold_locales, goal_cases)
  case (1 E s q d r s')
  then show ?case by (cases q) (auto intro: register_store_good)
next
  case (2 E s q d r s')
  obtain caller req where q: "q = (caller, req)" by (cases q)
  from 2 q have "s' = s \<or> (\<exists>sc resp. registered E req sc resp s s')"
    using register_effects by auto
  then show ?case
    by (auto simp: registered_def list_all2_same intro!: evolvesI[where old = "projects s"])
next
  case (3 E q d s e s')
  then show ?case by (cases q) (auto dest: register_refused_unchanged)
qed

interpretation syncing: registry_rpc "\<lambda>E (caller, req) d s. sync_as E caller req d s"
proof (unfold_locales, goal_cases)
  case (1 E s q d r s')
  then show ?case by (cases q) (auto intro: sync_store_good)
next
  case (2 E s q d r s')
  obtain caller req where q: "q = (caller, req)" by (cases q)
  have kept: "kept_row a b \<Longrightarrow> row_evolves a b" for a b
    by (auto simp: kept_row_def row_evolves_def org_def)
  from 2 q sync_rows_kept[of E caller req d s r s'] obtain old news where
    "projects s' = old @ news" "list_all2 kept_row (projects s) old" "aliases s' = aliases s" "writes s' = writes s"
    by auto
  then show ?case using list_all2_mono[OF _ kept] by (intro evolvesI[of s' old news]) auto
next
  case (3 E q d s e s')
  then show ?case by (cases q) (auto dest: sync_refused_unchanged)
qed

interpretation touching: registry_rpc touch
proof (unfold_locales, goal_cases)
  case (1 E s q d r s')
  then show ?case by (auto intro: touch_store_good)
next
  case (2 E s q d r s')
  have step: "row_evolves a (a\<lparr>last_seen_at := t\<rparr>)"
    if "\<forall>u. last_seen_at a = Some u \<longrightarrow> (\<exists>u'. t = Some u' \<and> u \<le> u')" for a t
    using that by (simp add: row_evolves_def)
  have seen: "row_evolves a b" if "b = a\<lparr>last_seen_at := last_seen_at b\<rparr>
      \<and> (\<forall>u. last_seen_at a = Some u \<longrightarrow> (\<exists>u'. last_seen_at b = Some u' \<and> u \<le> u'))" for a b
    by (subst conjunct1[OF that], rule step) (rule conjunct2[OF that])
  note t = touch_forward[OF 2(3,2)]
  have "list_all2 row_evolves (projects s) (projects s')"
    by (rule list_all2_mono[OF conjunct1[OF t]]) (rule seen)
  moreover have "aliases s' = aliases s" "writes s' = writes s" using t by blast+
  ultimately show ?case by (intro evolvesI[of s' "projects s'" "[]"]) simp_all
next
  case (3 E q d s e s')
  then show ?case by (auto dest: touch_refused_unchanged)
qed

text \<open>A read, and an rpc that is held back, leave the store as it was.\<close>

lemma resolve_store: "resolve E q d s = (r, s') \<Longrightarrow> s' = s"
  by (auto simp: resolve_def dest!: arg_cong[where f = snd] simp: reads_run_conn read_rules split: sum.splits)

lemma get_store: "get E q d s = (r, s') \<Longrightarrow> s' = s"
  by (auto simp: get_def dest!: arg_cong[where f = snd] simp: reads_run_conn read_rules split: sum.splits)

lemma list_store: "list_projects E q d s = (r, s') \<Longrightarrow> s' = s"
  by (auto simp: list_projects_def dest!: arg_cong[where f = snd] simp: reads_run_conn read_rules
      split: sum.splits prod.splits)

interpretation resolving: registry_rpc resolve
  by unfold_locales (auto dest!: resolve_store)

interpretation getting: registry_rpc get
  by unfold_locales (auto dest!: get_store)

interpretation listing: registry_rpc list_projects
  by unfold_locales (auto dest!: list_store)

section \<open>The dispatcher\<close>

datatype rpc_call =
    Register "string option" register_request
  | Resolve resolve_request
  | Get get_request
  | List list_request
  | Touch touch_request
  | Sync "string option" sync_request
  | Rename rename_request
  | Archive archive_request

datatype rpc_reply =
    Registered register_response
  | Resolved resolve_response
  | Got get_response
  | Listed list_response
  | Touched touched
  | Synced sync_response
  | Renamed rename_response
  | Archived_reply archive_response

definition replying :: "('r \<Rightarrow> rpc_reply) \<Rightarrow> (status + 'r) \<times> store \<Rightarrow> (status + rpc_reply) \<times> store" where
  "replying f answer = (case fst answer of Inl e \<Rightarrow> Inl e | Inr r \<Rightarrow> Inr (f r), snd answer)"

definition serve :: "env \<Rightarrow> rpc_call \<Rightarrow> deadline \<Rightarrow> store \<Rightarrow> (status + rpc_reply) \<times> store" where
  "serve E q d s =
     (case q of
        Register caller req \<Rightarrow> replying Registered (register_as E caller req d s)
      | Resolve req \<Rightarrow> replying Resolved (resolve E req d s)
      | Get req \<Rightarrow> replying Got (get E req d s)
      | List req \<Rightarrow> replying Listed (list_projects E req d s)
      | Touch req \<Rightarrow> replying Touched (touch E req d s)
      | Sync caller req \<Rightarrow> replying Synced (sync_as E caller req d s)
      | Rename req \<Rightarrow> replying Renamed (rename req, s)
      | Archive req \<Rightarrow> replying Archived_reply (archive req, s))"

lemma replying_eq:
  "replying f answer = (r, s') \<longleftrightarrow>
     (\<exists>x. answer = (x, s') \<and> r = (case x of Inl e \<Rightarrow> Inl e | Inr y \<Rightarrow> Inr (f y)))"
  by (cases answer) (auto simp: replying_def)

lemma replying_Inl: "replying f answer = (Inl e, s') \<longleftrightarrow> answer = (Inl e, s')"
  by (cases answer; cases "fst answer") (auto simp: replying_def)

text \<open>The handlers of \<open>service.rs\<close> answer what the dispatcher answers: recording a call does not
  change it.\<close>

definition answered :: "('r \<Rightarrow> rpc_reply) \<Rightarrow> (status + 'r) \<times> store \<times> call_record \<Rightarrow> (status + rpc_reply) \<times> store" where
  "answered f h = replying f (fst h, fst (snd h))"

lemma handlers_answer:
  "answered Registered (handle_register E len inc s)
     = serve E (Register (in_caller inc) (in_message inc)) (in_deadline inc) s"
  "answered Resolved (handle_resolve E len2 inc2 s) = serve E (Resolve (in_message inc2)) (in_deadline inc2) s"
  "answered Got (handle_get E len3 inc3 s) = serve E (Get (in_message inc3)) (in_deadline inc3) s"
  "answered Listed (handle_list E len4 inc4 s) = serve E (List (in_message inc4)) (in_deadline inc4) s"
  "answered Touched (handle_touch E len5 inc5 s) = serve E (Touch (in_message inc5)) (in_deadline inc5) s"
  "answered Synced (handle_sync E len6 inc6 s)
     = serve E (Sync (in_caller inc6) (in_message inc6)) (in_deadline inc6) s"
  "answered Renamed (handle_rename len7 inc7 s) = serve E (Rename (in_message inc7)) d s"
  "answered Archived_reply (handle_archive len8 inc8 s) = serve E (Archive (in_message inc8)) d s"
  by (simp_all add: answered_def serve_def call_run_def Let_def handle_register_def handle_resolve_def
      handle_get_def handle_list_def handle_touch_def handle_sync_def handle_rename_def handle_archive_def)

lemmas rpc_contracts =
  registering.keeps_good[where q = "(caller, req)" for caller req, simplified]
  syncing.keeps_good[where q = "(caller, req)" for caller req, simplified]
  touching.keeps_good resolving.keeps_good getting.keeps_good listing.keeps_good

lemmas rpc_rows =
  registering.keeps_rows[where q = "(caller, req)" for caller req, simplified]
  syncing.keeps_rows[where q = "(caller, req)" for caller req, simplified]
  touching.keeps_rows resolving.keeps_rows getting.keeps_rows listing.keeps_rows

lemmas rpc_atomic =
  registering.all_or_nothing[where q = "(caller, req)" for caller req, simplified]
  syncing.all_or_nothing[where q = "(caller, req)" for caller req, simplified]
  touching.all_or_nothing resolving.all_or_nothing getting.all_or_nothing listing.all_or_nothing

interpretation serving: registry_rpc serve
proof (unfold_locales, goal_cases)
  case (1 E s q d r s')
  then show ?case
    by (cases q) (auto simp: serve_def replying_eq rename_def archive_def intro: rpc_contracts)
next
  case (2 E s q d r s')
  then show ?case
    by (cases q) (auto simp: serve_def replying_eq rename_def archive_def intro: rpc_rows)
next
  case (3 E q d s e s')
  then show ?case
    by (cases q) (auto simp: serve_def replying_Inl dest: rpc_atomic)
qed

section \<open>Histories\<close>

inductive served :: "collations \<Rightarrow> store \<Rightarrow> store \<Rightarrow> bool" for C where
  start: "served C s s"
| call: "served C s s1 \<Longrightarrow> coll E = C \<Longrightarrow> serve E q d s1 = (r, s2) \<Longrightarrow> served C s s2"

lemma served_run_all:
  "served C s s' \<Longrightarrow> \<exists>cs. (\<forall>(E, q, d) \<in> set cs. coll E = C) \<and> s' = serving.run_all cs s"
proof (induction rule: served.induct)
  case (start s)
  then show ?case by (intro exI[of _ "[]"]) simp
next
  case (call s s1 E q d r s2)
  then obtain cs where "\<forall>(E, q, d) \<in> set cs. coll E = C" "s1 = serving.run_all cs s" by blast
  with call show ?case by (intro exI[of _ "cs @ [(E, q, d)]"]) auto
qed

lemma served_good:
  assumes "served C s s'" and "path_collation (ci_key C)" and "store_good C s"
  shows "store_good C s'" and "evolves s s'"
  using served_run_all[OF assms(1)] serving.history_good[OF assms(2,3)] by auto

end
