(* ===== verification/History.thy ===== *)
theory History
  imports Registry
begin

text \<open>
  What holds of the registry after any history of calls: the rules that no constraint of the engine
  can state, the permanence of what was registered, and exactly-once registration.
\<close>

text \<open>C4. Whatever calls a fresh database has served, its registry is well formed: no two projects
  share a path in any spelling; every path is legal and none is the reserved root; the class is the
  path - a private path has an owner and no repository and lies under that owner's own root, an
  organisation path has a repository and no owner; the stored visibility is the class's; every
  status is ACTIVE or ARCHIVED and a private project is never archived.\<close>

theorem registry_well_formed:
  assumes "served C empty_store s" and "path_collation (ci_key C)"
  shows "distinct (map (\<lambda>r. to_ascii_lowercase (path r)) (projects s))
    \<and> (\<forall>r \<in> set (projects s). path_ok (path r) \<and> \<not> eq_ignore_ascii_case (path r) RESERVED_ROOT
        \<and> (if is_private_class (path r)
           then source_repo r = None \<and> row_visibility r = visibility_i8 Private \<and> row_status r = status_i8 Active
             \<and> (\<exists>owner. owner_user_id r = Some owner \<and> owner_root (path r) owner)
           else owner_user_id r = None \<and> row_visibility r = visibility_i8 Org
             \<and> row_status r \<in> {status_i8 Active, status_i8 Archived}
             \<and> (\<exists>repo. source_repo r = Some repo \<and> repo \<noteq> [])))"
proof -
  have good: "store_good C s" by (rule served_good(1)[OF assms]) simp
  then have rows: "projects_good C (projects s)" by (rule store_good_projects)
  have paths: "path_ok (path r)" if "r \<in> set (projects s)" for r
    using projects_good_row[OF rows that] by (simp add: row_good_def)
  have "distinct (map (\<lambda>r. ci_key C (path r)) (projects s))" using rows by (simp add: projects_good_def)
  moreover have "inj_on (\<lambda>r. to_ascii_lowercase (path r)) (set (projects s))"
    if keys: "inj_on (\<lambda>r. ci_key C (path r)) (set (projects s))"
  proof (rule inj_onI)
    fix a b
    assume a: "a \<in> set (projects s)" and b: "b \<in> set (projects s)"
      and "to_ascii_lowercase (path a) = to_ascii_lowercase (path b)"
    then have "ci_key C (path a) = ci_key C (path b)"
      using path_collation.ck_path[OF assms(2) paths[OF a] paths[OF b]] by (simp add: eq_ignore_ascii_case_def)
    then show "a = b" by (rule inj_onD[OF keys _ a b])
  qed
  ultimately have "distinct (map (\<lambda>r. to_ascii_lowercase (path r)) (projects s))"
    unfolding distinct_map by blast
  moreover have "path_ok (path r) \<and> \<not> eq_ignore_ascii_case (path r) RESERVED_ROOT
        \<and> (if is_private_class (path r)
           then source_repo r = None \<and> row_visibility r = visibility_i8 Private \<and> row_status r = status_i8 Active
             \<and> (\<exists>owner. owner_user_id r = Some owner \<and> owner_root (path r) owner)
           else owner_user_id r = None \<and> row_visibility r = visibility_i8 Org
             \<and> row_status r \<in> {status_i8 Active, status_i8 Archived}
             \<and> (\<exists>repo. source_repo r = Some repo \<and> repo \<noteq> []))"
    if r: "r \<in> set (projects s)" for r
  proof -
    have g: "row_good C r" by (rule projects_good_row[OF rows r])
    show ?thesis
      using g row_good_owner[OF assms(2) g] row_good_class[OF g]
      by (auto simp: row_good_def class_ok_def split: option.splits)
  qed
  ultimately show ?thesis by blast
qed

text \<open>C5. Registration is for ever: through any history, from any well-formed registry, every project
  keeps its place, id, path, owner, visibility, creator and creation time, its version never goes
  back and neither does the time it was last seen; a private project changes in nothing else; former
  paths stay; and the ledger only grows at its end.\<close>

theorem history_keeps_projects:
  assumes "served C s s'" and "path_collation (ci_key C)" and "store_good C s"
  shows "(\<exists>old news. projects s' = old @ news \<and> list_all2 row_evolves (projects s) old)
    \<and> aliases s' = aliases s \<and> prefix (writes s) (writes s')"
  using served_good(2)[OF assms] by (simp add: evolves_def)

text \<open>C3. Registration is exactly once under its idempotency key: after a registration with a key that
  succeeded, however many calls of anybody are served in between, sending it again - with any scope
  of the same user and project, when a connection is free and the engine does not fail - answers the
  first answer and writes nothing.\<close>

theorem register_exactly_once:
  assumes first: "register_as E caller req d s = (Inr resp, s1)"
    and good: "path_collation (ci_key (coll E))" "store_good (coll E) s"
    and between: "served (coll E) s1 s2"
    and scope: "rg_scope req = Some sc" "same_caller sc sc2"
    and key: "present (rg_idempotency req) = Some key"
    and codec: "decode_response E (encode_response E resp) = Some resp"
    and E': "no_faults E'" "acquire (the_pool E') d' = Inr ()" "same_apis E E'"
    and fits: "fits 255 (sc_project_id sc)" "fits 64 (sc_user_id sc)" "fits 255 key"
  shows "serve E' (Register (Some REGISTER_CALLER) (again req sc2)) d' s2 = (Inr (Registered resp), s2)"
proof -
  have s1: "store_good (coll E) s1" by (rule register_store_good[OF first good(2)])
  have s2: "store_good (coll E) s2" and "evolves s1 s2" using served_good[OF between good(1) s1] .
  then have "set (writes s1) \<subseteq> set (writes s2)" by (auto simp: evolves_def dest: set_mono_prefix)
  from register_replays[OF first scope key codec this s2 E' fits]
  show ?thesis by (simp add: serve_def replying_def)
qed

text \<open>C21. A refused call changes nothing, whichever rpc it is and wherever it is refused - in a check,
  in the pool, by the engine half way through a transaction: the store is as it was, unless the
  engine carried out a \<open>COMMIT\<close> it then failed to acknowledge.\<close>

theorem refusal_changes_nothing:
  assumes "serve E q d s = (Inl e, s')" and "\<not> commit_lands E"
  shows "s' = s"
  by (rule serving.all_or_nothing[OF assms(2,1)])

end
