(* ===== verification/Touch_Warning.thy ===== *)
theory Touch_Warning
  imports Touch_Spec Read_Page
begin

text \<open>
  When a flush warns. The code warns that offered paths resolve to no registered project when it
  matched fewer rows than it was offered paths; this is what that comparison decides.
\<close>

text \<open>The project a path names, live or former.\<close>

definition named_project :: "collations \<Rightarrow> store \<Rightarrow> string \<Rightarrow> project_row option" where
  "named_project C s p = map_option fst (names C s p)"

lemma named_same_path: "same_path C p q \<Longrightarrow> named_project C s p = named_project C s q"
proof -
  assume "same_path C p q"
  then have same: "(\<lambda>r. same_path C (path r) p) = (\<lambda>r. same_path C (path r) q)"
    "(\<lambda>a. same_path C (alias_path a) p) = (\<lambda>a. same_path C (alias_path a) q)"
    by (simp_all add: same_path_def)
  show ?thesis unfolding named_project_def names_def same ..
qed

lemma named_project_iff:
  assumes "store_good C s" and "r \<in> set (projects s)"
  shows "named_project C s p = Some r \<longleftrightarrow>
    same_path C (path r) p
    \<or> (\<exists>a \<in> set (aliases s). same_path C (alias_path a) p \<and> same_id C (alias_project a) (id_of r))"
proof
  assume "named_project C s p = Some r"
  then show "same_path C (path r) p
    \<or> (\<exists>a \<in> set (aliases s). same_path C (alias_path a) p \<and> same_id C (alias_project a) (id_of r))"
    by (auto simp: named_project_def names_def same_id_def split: option.splits dest!: find_in)
next
  assume "same_path C (path r) p
    \<or> (\<exists>a \<in> set (aliases s). same_path C (alias_path a) p \<and> same_id C (alias_project a) (id_of r))"
  then show "named_project C s p = Some r"
    using live_names[OF assms] alias_names[OF assms(1) _ _ assms(2)]
    by (auto simp: named_project_def same_id_def)
qed

lemma matched_rows:
  assumes "store_good C s"
  shows "set (filter (flush_matches C ps s) (projects s)) = {r. \<exists>p \<in> set ps. named_project C s p = Some r}"
proof -
  have "r \<in> set (projects s)" if "named_project C s p = Some r" for p r
    using that names_Some_in by (fastforce simp: named_project_def)
  moreover have "flush_matches C ps s r \<longleftrightarrow> (\<exists>p \<in> set ps. named_project C s p = Some r)"
    if "r \<in> set (projects s)" for r
    unfolding flush_matches_def list_ex_iff named_project_iff[OF assms that] by blast
  ultimately show ?thesis by auto
qed

text \<open>How many values a partial function takes on a finite set.\<close>

lemma card_values:
  assumes "finite A"
  shows "card {y. \<exists>x \<in> A. f x = Some y} \<le> card A"
    and "card {y. \<exists>x \<in> A. f x = Some y} < card A \<longleftrightarrow> (\<exists>x \<in> A. f x = None) \<or> \<not> inj_on f A"
proof -
  let ?V = "{y. \<exists>x \<in> A. f x = Some y}"
  have V: "Some ` ?V = f ` A - {None}"
  proof (intro equalityI subsetI)
    fix y assume "y \<in> Some ` ?V"
    then obtain x z where "x \<in> A" "f x = Some z" "y = Some z" by blast
    then show "y \<in> f ` A - {None}" by (intro DiffI image_eqI[of y f x]) simp_all
  next
    fix y assume "y \<in> f ` A - {None}"
    then obtain x where x: "x \<in> A" "y = f x" "y \<noteq> None" by blast
    then obtain z where z: "y = Some z" by blast
    have "z \<in> ?V" using x z by (intro CollectI bexI[of _ x]) simp_all
    then show "y \<in> Some ` ?V" using z by simp
  qed
  have "card (Some ` ?V) = card ?V" by (rule card_image) simp
  then have card: "card ?V = card (f ` A - {None})" unfolding V ..
  show le: "card ?V \<le> card A"
    unfolding card using card_image_le[OF assms, of f] card_mono[of "f ` A" "f ` A - {None}"] assms by simp
  show "card ?V < card A \<longleftrightarrow> (\<exists>x \<in> A. f x = None) \<or> \<not> inj_on f A"
  proof (cases "\<exists>x \<in> A. f x = None")
    case True
    then have "None \<in> f ` A" by (force simp: image_iff)
    then have "card (f ` A - {None}) < card (f ` A)" using assms by (intro card_Diff1_less) simp_all
    then show ?thesis using True card card_image_le[OF assms, of f] by simp
  next
    case False
    then have "f ` A - {None} = f ` A" by (force simp: image_iff)
    then have "card ?V = card (f ` A)" using card by simp
    then show ?thesis
      using False card_image_le[OF assms, of f] card_image[of f A] eq_card_imp_inj_on[OF assms, of f]
      by (metis le_neq_implies_less less_irrefl)
  qed
qed

lemma offered_classes:
  assumes "path_collation (ci_key C)" and "\<forall>p \<in> set ps. path_ok p"
  shows "p \<in> set ps \<Longrightarrow> \<exists>q \<in> set (deduplicated ps). same_path C q p"
    and "q \<in> set (deduplicated ps) \<Longrightarrow> q' \<in> set (deduplicated ps) \<Longrightarrow> same_path C q q' \<Longrightarrow> q = q'"
    and "distinct (deduplicated ps)"
proof -
  have ok: "q \<in> set (deduplicated ps) \<Longrightarrow> path_ok q" for q using assms(2) set_deduplicated by blast
  have same: "path_ok a \<Longrightarrow> path_ok b \<Longrightarrow> same_path C a b \<longleftrightarrow> to_ascii_lowercase a = to_ascii_lowercase b" for a b
    using path_collation.ck_path[OF assms(1)] by (simp add: same_path_def eq_ignore_ascii_case_def)
  show "p \<in> set ps \<Longrightarrow> \<exists>q \<in> set (deduplicated ps). same_path C q p"
  proof -
    assume p: "p \<in> set ps"
    then have "to_ascii_lowercase p \<in> to_ascii_lowercase ` set (deduplicated ps)"
      by (simp add: deduplicated_keys)
    then obtain q where "q \<in> set (deduplicated ps)" "to_ascii_lowercase p = to_ascii_lowercase q" by blast
    then show ?thesis using same[of q p] ok p assms(2) by auto
  qed
  show "q \<in> set (deduplicated ps) \<Longrightarrow> q' \<in> set (deduplicated ps) \<Longrightarrow> same_path C q q' \<Longrightarrow> q = q'"
    using deduplicated_distinct[of ps] ok same[of q q'] by (auto simp: distinct_map inj_on_def)
  show "distinct (deduplicated ps)" using deduplicated_distinct[of ps] by (simp add: distinct_map)
qed

text \<open>A path offered twice is offered once, so two spellings never make a flush warn.\<close>

lemma offered_as_named:
  assumes ck: "path_collation (ci_key C)" and ok: "\<forall>p \<in> set ps. path_ok p"
  shows "(\<exists>q \<in> set (deduplicated ps). named_project C s q = None) \<or> \<not> inj_on (named_project C s) (set (deduplicated ps)) \<longleftrightarrow>
      (\<exists>p \<in> set ps. named_project C s p = None) \<or> (\<exists>p \<in> set ps. \<exists>q \<in> set ps. \<not> same_path C p q \<and> named_project C s p = named_project C s q)"
    (is "?L \<longleftrightarrow> ?R")
proof
  note classes = offered_classes[OF ck ok]
  note spelt = named_same_path[of C _ _ s]
  assume ?L
  then show ?R
  proof
    assume "\<exists>q \<in> set (deduplicated ps). named_project C s q = None"
    then show ?R using set_deduplicated[of ps] by blast
  next
    assume "\<not> inj_on (named_project C s) (set (deduplicated ps))"
    then obtain q q' where "q \<in> set (deduplicated ps)" "q' \<in> set (deduplicated ps)" "named_project C s q = named_project C s q'" "q \<noteq> q'"
      by (auto simp: inj_on_def)
    then show ?R using classes(2) set_deduplicated[of ps] by blast
  qed
next
  note classes = offered_classes[OF ck ok]
  note spelt = named_same_path[of C _ _ s]
  assume ?R
  then show ?L
  proof
    assume "\<exists>p \<in> set ps. named_project C s p = None"
    then obtain p where "p \<in> set ps" "named_project C s p = None" by blast
    with classes(1)[of p] spelt show ?L by metis
  next
    assume "\<exists>p \<in> set ps. \<exists>q \<in> set ps. \<not> same_path C p q \<and> named_project C s p = named_project C s q"
    then obtain p q where pq: "p \<in> set ps" "q \<in> set ps" "\<not> same_path C p q" "named_project C s p = named_project C s q" by blast
    from classes(1)[OF pq(1)] obtain p' where p': "p' \<in> set (deduplicated ps)" "same_path C p' p" by blast
    from classes(1)[OF pq(2)] obtain q' where q': "q' \<in> set (deduplicated ps)" "same_path C q' q" by blast
    have "named_project C s p' = named_project C s q'" using pq(4) spelt[OF p'(2)] spelt[OF q'(2)] by simp
    moreover have "p' \<noteq> q'" using pq(3) p'(2) q'(2) by (auto simp: same_path_def)
    ultimately show ?L using p'(1) q'(1) by (auto simp: inj_on_def)
  qed
qed

text \<open>C39. When a flush warns: exactly when one of its paths names no project, live or former, or when
  two of them, not spellings of one path, name the same one. The first is what the warning says; the
  second is a project beside a former path of it, or two former paths of it, where every path does
  resolve to a registered project.\<close>

theorem touch_warns_exactly:
  assumes E: "no_faults E" "acquire (the_pool E) d = Inr ()" "path_collation (ci_key (coll E))"
    and good: "store_good (coll E) s" and ok: "touch_checks req = Inr fl"
  shows "\<exists>out s'. touch E req d s = (Inr out, s')
    \<and> (tch_warned out \<longleftrightarrow>
        (\<exists>p \<in> set (to_paths req). named_project (coll E) s p = None)
        \<or> (\<exists>p \<in> set (to_paths req). \<exists>q \<in> set (to_paths req).
              \<not> same_path (coll E) p q \<and> named_project (coll E) s p = named_project (coll E) s q))"
proof -
  let ?C = "coll E" and ?ps = "to_paths req" and ?D = "deduplicated (to_paths req)"
  let ?N = "named_project ?C s"
  obtain secs where fl: "fl = (secs, ?D)" and valid: "\<forall>p \<in> set ?ps. path_ok p"
    using ok by (cases fl) (auto simp: touch_checks_Inr)
  note classes = offered_classes[OF E(3) valid]
  let ?hit = "filter (flush_matches ?C ?D s) (projects s)"
  have "distinct (projects s)"
    using store_good_projects[OF good] by (simp add: projects_good_def distinct_map)
  then have "distinct ?hit" by simp
  from distinct_card[OF this] have "length ?hit = card (set ?hit)" ..
  then have hit: "length ?hit = card {r. \<exists>p \<in> set ?D. ?N p = Some r}" unfolding matched_rows[OF good] .
  have "length ?hit < length ?D \<longleftrightarrow> (\<exists>q \<in> set ?D. ?N q = None) \<or> \<not> inj_on ?N (set ?D)"
    unfolding hit using card_values(2)[of "set ?D" ?N] distinct_card[OF classes(3)] by simp
  also have "\<dots> \<longleftrightarrow> (\<exists>p \<in> set ?ps. ?N p = None)
      \<or> (\<exists>p \<in> set ?ps. \<exists>q \<in> set ?ps. \<not> same_path ?C p q \<and> ?N p = ?N q)" (is "_ \<longleftrightarrow> ?R")
    by (rule offered_as_named[OF E(3) valid])
  finally have warns: "length ?hit < length ?D \<longleftrightarrow> ?R" .
  have "touch E req d s = (Inr \<lparr>tch_offered = length ?D, tch_matched = length ?hit,
      tch_warned = length ?hit < length ?D\<rparr>, flushed ?C (secs, ?D) s)"
    using touch_run[OF E(1,2) good] ok fl by (simp add: Let_def)
  moreover have "tch_warned \<lparr>tch_offered = length ?D, tch_matched = length ?hit,
      tch_warned = length ?hit < length ?D\<rparr> \<longleftrightarrow> ?R"
    unfolding touched.simps by (rule warns)
  ultimately show ?thesis by blast
qed

end
