(* ===== verification/Touch_Examples.thy ===== *)
theory Touch_Examples
  imports Touch_Warning Sample_Store
begin

text \<open>\<open>TouchProjects\<close> run on the sample registry.\<close>

definition flush_at :: "int \<Rightarrow> string list \<Rightarrow> touch_request" where
  "flush_at secs ps =
     \<lparr>to_scope = Some sample_scope, to_paths = ps, to_seen_at = Some \<lparr>seconds = secs, nanos = 0\<rparr>\<rparr>"

abbreviation run_touch :: "touch_request \<Rightarrow> store \<Rightarrow> (status + touched) \<times> store" where
  "run_touch req s \<equiv> touch sample_env req sample_deadline s"

lemma coll_sample_good [simp]: "store_good (coll sample_env) sample_store"
  by simp

theorem deduplicated_example:
  "length (deduplicated [''acme/core'', ''ACME/core'', ''acme'']) = card (general_ci ` {''acme/core'', ''ACME/core'', ''acme''})"
proof -
  have "validate [] ''ACME/core'' = Inr ()" by code_simp
  then have "path_ok ''ACME/core''" by (simp only: validate_ok_iff)
  then show ?thesis
    using deduplicated_counts_classes[OF general.path_collation_axioms,
        of "[''acme/core'', ''ACME/core'', ''acme'']"] by simp
qed

theorem touch_only_forward_example:
  "list_all2 (\<lambda>r r'. r' = r\<lparr>last_seen_at := last_seen_at r'\<rparr>
       \<and> (\<forall>u. last_seen_at r = Some u \<longrightarrow> (\<exists>u'. last_seen_at r' = Some u' \<and> u \<le> u')))
     (projects sample_store) (projects (snd (run_touch (flush_at 20 [own_path]) sample_store)))"
  using touch_only_forward[OF surjective_pairing coll_sample_good] by blast

theorem touch_order_example:
  "deliver_touches sample_env sample_deadline
     [flush_at 20 [''acme''], flush_at 50 [own_path, ''acme''], flush_at 20 [''acme'']] sample_store
   = deliver_touches sample_env sample_deadline
     [flush_at 50 [own_path, ''acme''], flush_at 20 [''acme'']] sample_store"
  by (rule touch_order_irrelevant) auto

lemma quiet_checks:
  "touch_checks (flush_at 50 [''acme'', own_path, ''acme'']) = Inr (50, [''acme'', own_path])"
  by code_simp

theorem touch_quiet_example:
  "\<exists>out s'. run_touch (flush_at 50 [''acme'', own_path, ''acme'']) sample_store = (Inr out, s') \<and> \<not> tch_warned out"
proof (rule touch_quiet[OF sample_env_ready(1,2,7) coll_sample_good quiet_checks])
  show "\<forall>p \<in> set (to_paths (flush_at 50 [''acme'', own_path, ''acme''])).
      \<exists>r \<in> set (projects sample_store). same_path (coll sample_env) (path r) p"
    by (simp add: flush_at_def sample_store_def same_path_def org_row_def own_row_def)
qed

text \<open>A project and its own former path in one flush: both resolve, and the warning is logged.\<close>

lemma alias_checks:
  "touch_checks (flush_at 50 [''acme/core'', ''acme/engine'']) = Inr (50, [''acme/core'', ''acme/engine''])"
  by code_simp

lemma alias_hits:
  "length (filter (flush_matches ascii_coll [''acme/core'', ''acme/engine''] sample_store) (projects sample_store)) = 1"
  by code_simp

text \<open>The warning is not only about paths that resolve to nothing: a flush that names a project
  and its own former path counts one matched project against two offered paths, and warns that
  some path resolves to no registered project although each of the two, alone, matches a row.\<close>

theorem touch_warns_on_former_path:
  "\<exists>s'. run_touch (flush_at 50 [''acme/core'', ''acme/engine'']) sample_store
      = (Inr \<lparr>tch_offered = 2, tch_matched = 1, tch_warned = True\<rparr>, s')
    \<and> list_all (\<lambda>p. list_ex (flush_matches ascii_coll [p] sample_store) (projects sample_store))
        [''acme/core'', ''acme/engine'']"
proof -
  have "list_all (\<lambda>p. list_ex (flush_matches ascii_coll [p] sample_store) (projects sample_store))
        [''acme/core'', ''acme/engine'']"
    by code_simp
  then show ?thesis
    using touch_run[OF sample_env_ready(1,2) coll_sample_good alias_checks] alias_hits
    by (simp add: Let_def)
qed

lemma core_names:
  "named_project ascii_coll sample_store ''acme/core'' = named_project ascii_coll sample_store ''acme/engine''"
  "\<not> same_path ascii_coll ''acme/core'' ''acme/engine''"
  by code_simp+

theorem touch_warns_example:
  "\<exists>out s'. run_touch (flush_at 50 [''acme/core'', ''acme/engine'']) sample_store = (Inr out, s') \<and> tch_warned out"
proof -
  have "to_paths (flush_at 50 [''acme/core'', ''acme/engine'']) = [''acme/core'', ''acme/engine'']"
    by (simp add: flush_at_def)
  then show ?thesis
    using touch_warns_exactly[OF sample_env_ready(1,2,7) coll_sample_good alias_checks] core_names by auto
qed

end
