(* ===== verification/History_Examples.thy ===== *)
theory History_Examples
  imports History Register_Examples Touch_Examples
begin

text \<open>A short history of the sample environment: a registration, a flush, the registration again.\<close>

definition note_flush :: touch_request where
  "note_flush = flush_at 70 [rg_path sample_register]"

definition store2 :: store where
  "store2 = snd (serve sample_env (Touch note_flush) sample_deadline store1)"

lemma history_first: "served ascii_coll empty_store store1"
proof (rule served.call[OF served.start sample_env_ready(3)])
  show "serve sample_env (Register (Some REGISTER_CALLER) sample_register) sample_deadline empty_store
      = (Inr (Registered response1), store1)"
    using sample_lands(1) by (simp add: serve_def replying_def)
qed

lemma history_between: "served ascii_coll store1 store2"
  unfolding store2_def
  by (rule served.call[OF served.start sample_env_ready(3) surjective_pairing])

theorem well_formed_example:
  "distinct (map (\<lambda>r. to_ascii_lowercase (path r)) (projects store1))"
  using registry_well_formed[OF history_first] general.path_collation_axioms by simp

theorem history_keeps_example:
  "\<exists>old news. projects store2 = old @ news \<and> list_all2 row_evolves (projects store1) old"
  using history_keeps_projects[OF history_between] general.path_collation_axioms store1_good by simp

theorem exactly_once_example:
  "serve sample_env (Register (Some REGISTER_CALLER) sample_register) sample_deadline store2
     = (Inr (Registered response1), store2)"
proof -
  have same: "again sample_register sample_scope = sample_register"
    by (simp add: again_def sample_register_def)
  have "served (coll sample_env) store1 store2" using history_between by simp
  from register_exactly_once[OF sample_lands(1) sample_env_ready(7) _ this sample_key(2) _ sample_key(1)
      sample_decoded1 sample_env_ready(1,2), of sample_scope]
  show ?thesis unfolding same
    by (simp add: same_caller_def same_apis_def)
qed

theorem refusal_example:
  "snd (serve sample_env (Register (Some ''somebody'') sample_register) sample_deadline store1) = store1"
proof -
  have "\<exists>e. serve sample_env (Register (Some ''somebody'') sample_register) sample_deadline store1 = (Inl e, store1)"
    by (simp add: serve_def replying_def register_as_def admit_register_def REGISTER_CALLER_def)
  then obtain e where "serve sample_env (Register (Some ''somebody'') sample_register) sample_deadline store1 = (Inl e, store1)" ..
  moreover have "\<not> commit_lands sample_env" by (simp add: sample_env_def)
  ultimately show ?thesis using refusal_changes_nothing by (metis snd_conv)
qed

end
