(* ===== verification/Service_Examples.thy ===== *)
theory Service_Examples
  imports Service_Spec History_Examples
begin

text \<open>The sample registration, through its handler.\<close>

definition sample_incoming :: "register_request incoming" where
  "sample_incoming = \<lparr>in_caller = Some REGISTER_CALLER, in_request_id = Some ''r-1'',
     in_deadline = sample_deadline, in_message = sample_register\<rparr>"

lemma sample_handled:
  "handle_register sample_env (\<lambda>_. 99) sample_incoming empty_store
     = (Inr response1, store1, snd (snd (handle_register sample_env (\<lambda>_. 99) sample_incoming empty_store)))"
  using sample_lands(1) by (simp add: handle_register_def call_run_def sample_incoming_def Let_def)

theorem payload_account_example:
  "\<exists>pid rest out. cr_result (snd (snd (handle_register sample_env (\<lambda>_. 99) sample_incoming empty_store))) = Inr out
     \<and> oc_payload out = pid @ '' '' @ ''local/'' @ drop 12 sample_user @ rest"
proof -
  from register_payload_carries_account[OF sample_handled store1_not_empty]
  obtain seg pid rest out where "sample_user = ''yadgar:user:'' @ seg"
    and "cr_result (snd (snd (handle_register sample_env (\<lambda>_. 99) sample_incoming empty_store))) = Inr out"
    and "oc_payload out = pid @ '' '' @ ''local/'' @ seg @ rest"
    by (auto simp: sample_incoming_def sample_register_def sample_scope_def)
  moreover have "seg = drop 12 sample_user" unfolding \<open>sample_user = _\<close> by simp
  ultimately show ?thesis by blast
qed

end
