(* ===== verification/Ddl.thy ===== *)
theory Ddl
  imports Store
begin

text \<open>
  The part of the engine's SQL that \<open>src/schema.rs\<close> is written in: tables with typed columns,
  collations, keys and CHECKs, the statements of the migrations, and an \<open>INSERT\<close>. A database maps
  table names to tables; a statement answers an engine error or the new database.

  A column of text either pins \<open>utf8mb4_general_ci\<close> or stays on the server's default; what the two
  compare equal are the parameters \<open>ci_key\<close> and \<open>srv_key\<close> of \<^theory_text>\<open>collations\<close>. A CHECK is three-valued
  and refuses a row only when it is FALSE.
\<close>

section \<open>Tables\<close>

datatype sql_type =
    VARCHAR nat
  | VARBINARY nat
  | BINARY nat
  | BIGINT_UNSIGNED
  | TINYINT
  | TINYINT_UNSIGNED
  | TIMESTAMP

datatype column_collation = General_ci | Server_default | No_collation

datatype sql_value = Null | Number int | Text string

datatype column_default = No_default | Default_null | Default_number int | Default_now

record column =
  c_name :: string
  c_type :: sql_type
  c_collation :: column_collation
  c_nullable :: bool
  c_default :: column_default

datatype check =
    Is_not_null string
  | Equal check check
  | Unequal check check
  | Like string string
  | Column_in string "int list"

datatype table_key =
    Primary_key "string list"
  | Unique_key string "string list"
  | Plain_key string "string list"
  | Foreign_key string "string list" string "string list"

record table =
  t_columns :: "column list"
  t_keys :: "table_key list"
  t_checks :: "(string \<times> check) list"
  t_rows :: "sql_value list list"

type_synonym db = "string \<Rightarrow> table option"

datatype engine_error =
    Table_exists string
  | No_such_table string
  | No_such_column string
  | Null_in string
  | Out_of_range string
  | Check_failed string
  | Duplicate_entry string
  | No_referenced_row string
  | No_default_for string

section \<open>Rows\<close>

definition cell :: "table \<Rightarrow> sql_value list \<Rightarrow> string \<Rightarrow> sql_value" where
  "cell t row name = (case map_of (zip (map c_name (t_columns t)) row) name of None \<Rightarrow> Null | Some v \<Rightarrow> v)"

definition collation_of :: "table \<Rightarrow> string \<Rightarrow> column_collation" where
  "collation_of t name =
     (case find (\<lambda>c. c_name c = name) (t_columns t) of None \<Rightarrow> No_collation | Some c \<Rightarrow> c_collation c)"

definition weigh :: "collations \<Rightarrow> column_collation \<Rightarrow> string \<Rightarrow> string" where
  "weigh C coll =
     (case coll of General_ci \<Rightarrow> ci_key C | Server_default \<Rightarrow> srv_key C | No_collation \<Rightarrow> (\<lambda>s. s))"

fun value_fits :: "sql_type \<Rightarrow> sql_value \<Rightarrow> bool" where
  "value_fits (VARCHAR n) (Text s) = (chars_count s \<le> n)"
| "value_fits (VARBINARY n) (Text s) = (length s \<le> n)"
| "value_fits (BINARY n) (Text s) = (length s \<le> n)"
| "value_fits BIGINT_UNSIGNED (Number i) = (0 \<le> i \<and> i < 2 ^ 64)"
| "value_fits TINYINT (Number i) = (- 128 \<le> i \<and> i \<le> 127)"
| "value_fits TINYINT_UNSIGNED (Number i) = (0 \<le> i \<and> i \<le> 255)"
| "value_fits TIMESTAMP (Number i) = True"
| "value_fits ty Null = True"
| "value_fits ty v = False"

definition column_refusal :: "column \<Rightarrow> sql_value \<Rightarrow> engine_error option" where
  "column_refusal c v =
     (if v = Null \<and> \<not> c_nullable c then Some (Null_in (c_name c))
      else if \<not> value_fits (c_type c) v then Some (Out_of_range (c_name c)) else None)"

fun row_width_refusal :: "column list \<Rightarrow> sql_value list \<Rightarrow> engine_error option" where
  "row_width_refusal (c # cs) (v # vs) =
     (case column_refusal c v of Some e \<Rightarrow> Some e | None \<Rightarrow> row_width_refusal cs vs)"
| "row_width_refusal cs vs = None"

section \<open>CHECKs\<close>

definition sql_not :: "bool option \<Rightarrow> bool option" where
  "sql_not b = map_option Not b"

definition sql_same :: "bool option \<Rightarrow> bool option \<Rightarrow> bool option" where
  "sql_same a b = (case (a, b) of (Some x, Some y) \<Rightarrow> Some (x = y) | _ \<Rightarrow> None)"

fun eval_check :: "collations \<Rightarrow> table \<Rightarrow> sql_value list \<Rightarrow> check \<Rightarrow> bool option" where
  "eval_check C t row (Is_not_null name) = Some (cell t row name \<noteq> Null)"
| "eval_check C t row (Equal a b) = sql_same (eval_check C t row a) (eval_check C t row b)"
| "eval_check C t row (Unequal a b) = sql_not (sql_same (eval_check C t row a) (eval_check C t row b))"
| "eval_check C t row (Like name pattern) =
     (case cell t row name of
        Text s \<Rightarrow> Some (sql_like (weigh C (collation_of t name)) pattern s)
      | _ \<Rightarrow> None)"
| "eval_check C t row (Column_in name ns) =
     (case cell t row name of Number i \<Rightarrow> Some (i \<in> set ns) | _ \<Rightarrow> None)"

definition check_refusal :: "collations \<Rightarrow> table \<Rightarrow> sql_value list \<Rightarrow> engine_error option" where
  "check_refusal C t row =
     map_option (\<lambda>(name, e). Check_failed name)
       (find (\<lambda>(name, e). eval_check C t row e = Some False) (t_checks t))"

section \<open>Keys\<close>

definition key_cell :: "collations \<Rightarrow> table \<Rightarrow> sql_value list \<Rightarrow> string \<Rightarrow> sql_value" where
  "key_cell C t row name =
     (case cell t row name of Text s \<Rightarrow> Text (weigh C (collation_of t name) s) | v \<Rightarrow> v)"

text \<open>Two rows meet in a key when every column of it is equal and none is NULL.\<close>

definition meet_in :: "collations \<Rightarrow> table \<Rightarrow> string list \<Rightarrow> sql_value list \<Rightarrow> sql_value list \<Rightarrow> bool" where
  "meet_in C t names a b =
     list_all (\<lambda>n. cell t a n \<noteq> Null \<and> key_cell C t a n = key_cell C t b n) names"

fun unique_columns :: "table_key \<Rightarrow> (string \<times> string list) list" where
  "unique_columns (Primary_key names) = [(''PRIMARY'', names)]"
| "unique_columns (Unique_key key names) = [(key, names)]"
| "unique_columns _ = []"

definition uniques :: "table \<Rightarrow> (string \<times> string list) list" where
  "uniques t = concat (map unique_columns (t_keys t))"

definition duplicate_of :: "collations \<Rightarrow> table \<Rightarrow> sql_value list \<Rightarrow> engine_error option" where
  "duplicate_of C t row =
     map_option (\<lambda>(key, names). Duplicate_entry key)
       (find (\<lambda>(key, names). list_ex (\<lambda>r. meet_in C t names r row) (t_rows t)) (uniques t))"

fun some_pair :: "('a \<Rightarrow> 'a \<Rightarrow> bool) \<Rightarrow> 'a list \<Rightarrow> bool" where
  "some_pair P [] = False"
| "some_pair P (x # xs) = (list_ex (P x) xs \<or> some_pair P xs)"

definition duplicates_in :: "collations \<Rightarrow> table \<Rightarrow> engine_error option" where
  "duplicates_in C t =
     map_option (\<lambda>(key, names). Duplicate_entry key)
       (find (\<lambda>(key, names). some_pair (meet_in C t names) (t_rows t)) (uniques t))"

fun reference_refusal :: "collations \<Rightarrow> db \<Rightarrow> table \<Rightarrow> sql_value list \<Rightarrow> table_key \<Rightarrow> engine_error option" where
  "reference_refusal C d t row (Foreign_key key names parent parent_names) =
     (case d parent of
        None \<Rightarrow> Some (No_referenced_row key)
      | Some p \<Rightarrow>
          (if list_ex (\<lambda>n. cell t row n = Null) names
              \<or> list_ex (\<lambda>r. map (key_cell C t row) names = map (key_cell C p r) parent_names) (t_rows p)
           then None else Some (No_referenced_row key)))"
| "reference_refusal C d t row _ = None"

section \<open>\<open>INSERT\<close>\<close>

definition default_value :: "int \<Rightarrow> column \<Rightarrow> engine_error + sql_value" where
  "default_value now c =
     (case c_default c of
        Default_number n \<Rightarrow> Inr (Number n)
      | Default_now \<Rightarrow> Inr (Number now)
      | Default_null \<Rightarrow> Inr Null
      | No_default \<Rightarrow> (if c_nullable c then Inr Null else Inl (No_default_for (c_name c))))"

fun full_row :: "int \<Rightarrow> column list \<Rightarrow> (string \<times> sql_value) list \<Rightarrow> engine_error + sql_value list" where
  "full_row now [] given = Inr []"
| "full_row now (c # cs) given =
     (case (case map_of given (c_name c) of Some v \<Rightarrow> Inr v | None \<Rightarrow> default_value now c) of
        Inl e \<Rightarrow> Inl e
      | Inr v \<Rightarrow> (case full_row now cs given of Inl e \<Rightarrow> Inl e | Inr vs \<Rightarrow> Inr (v # vs)))"

definition insert_refusal :: "collations \<Rightarrow> db \<Rightarrow> table \<Rightarrow> sql_value list \<Rightarrow> engine_error option" where
  "insert_refusal C d t row =
     (case row_width_refusal (t_columns t) row of
        Some e \<Rightarrow> Some e
      | None \<Rightarrow>
          (case check_refusal C t row of
             Some e \<Rightarrow> Some e
           | None \<Rightarrow>
               (case first_refusal (reference_refusal C d t row) (t_keys t) of
                  Some e \<Rightarrow> Some e
                | None \<Rightarrow> duplicate_of C t row)))"

definition insert_into ::
  "collations \<Rightarrow> int \<Rightarrow> string \<Rightarrow> (string \<times> sql_value) list \<Rightarrow> db \<Rightarrow> engine_error + db" where
  "insert_into C now name given d =
     (case d name of
        None \<Rightarrow> Inl (No_such_table name)
      | Some t \<Rightarrow>
          (case full_row now (t_columns t) given of
             Inl e \<Rightarrow> Inl e
           | Inr row \<Rightarrow>
               (case insert_refusal C d t row of
                  Some e \<Rightarrow> Inl e
                | None \<Rightarrow> Inr (d(name \<mapsto> t\<lparr>t_rows := t_rows t @ [row]\<rparr>)))))"

section \<open>The statements of the migrations\<close>

datatype sql_stmt =
    Create_table bool string "column list" "table_key list" "(string \<times> check) list"
  | Modify_column string column
  | Add_columns string "(column \<times> string) list"
  | Add_check string string check
  | Insert_ignore string "(string \<times> sql_value) list"

text \<open>\<open>ALTER TABLE .. MODIFY\<close>: the column is redeclared in its place. The table is rebuilt, so every
  value has to fit the new column and no two rows may meet in a key.\<close>

definition redeclare :: "column \<Rightarrow> table \<Rightarrow> table" where
  "redeclare c t = t\<lparr>t_columns := map (\<lambda>x. if c_name x = c_name c then c else x) (t_columns t)\<rparr>"

definition modify_column :: "collations \<Rightarrow> column \<Rightarrow> table \<Rightarrow> engine_error + table" where
  "modify_column C c t =
     (if \<not> list_ex (\<lambda>x. c_name x = c_name c) (t_columns t) then Inl (No_such_column (c_name c))
      else
        (let t' = redeclare c t in
         case first_refusal (\<lambda>row. column_refusal c (cell t' row (c_name c))) (t_rows t') of
           Some e \<Rightarrow> Inl e
         | None \<Rightarrow> (case duplicates_in C t' of Some e \<Rightarrow> Inl e | None \<Rightarrow> Inr t')))"

text \<open>\<open>ADD COLUMN IF NOT EXISTS .. AFTER ..\<close>: nothing for a column that is there; the rows of the
  table take the default, or the implicit default of the type when there is none.\<close>

fun after_column :: "string \<Rightarrow> 'a \<Rightarrow> (string \<times> 'a) list \<Rightarrow> 'a list" where
  "after_column name new [] = []"
| "after_column name new ((n, x) # rest) =
     (if n = name then x # new # map snd rest else x # after_column name new rest)"

definition filling :: "column \<Rightarrow> sql_value" where
  "filling c =
     (case c_default c of
        Default_number n \<Rightarrow> Number n
      | _ \<Rightarrow>
          (if c_nullable c then Null
           else (case c_type c of
                   VARCHAR n \<Rightarrow> Text []
                 | VARBINARY n \<Rightarrow> Text []
                 | BINARY n \<Rightarrow> Text []
                 | _ \<Rightarrow> Number 0)))"

definition add_column :: "column \<Rightarrow> string \<Rightarrow> table \<Rightarrow> engine_error + table" where
  "add_column c after t =
     (let names = map c_name (t_columns t) in
      if c_name c \<in> set names then Inr t
      else if after \<notin> set names then Inl (No_such_column after)
      else Inr (t\<lparr>t_columns := after_column after c (zip names (t_columns t)),
                  t_rows := map (\<lambda>row. after_column after (filling c) (zip names row)) (t_rows t)\<rparr>))"

fun add_columns :: "(column \<times> string) list \<Rightarrow> table \<Rightarrow> engine_error + table" where
  "add_columns [] t = Inr t"
| "add_columns ((c, after) # rest) t =
     (case add_column c after t of Inl e \<Rightarrow> Inl e | Inr t' \<Rightarrow> add_columns rest t')"

text \<open>\<open>ADD CONSTRAINT IF NOT EXISTS .. CHECK\<close>: every row has to satisfy it.\<close>

definition add_check :: "collations \<Rightarrow> string \<Rightarrow> check \<Rightarrow> table \<Rightarrow> engine_error + table" where
  "add_check C name e t =
     (if name \<in> fst ` set (t_checks t) then Inr t
      else if list_ex (\<lambda>row. eval_check C t row e = Some False) (t_rows t) then Inl (Check_failed name)
      else Inr (t\<lparr>t_checks := t_checks t @ [(name, e)]\<rparr>))"

definition alter :: "string \<Rightarrow> (table \<Rightarrow> engine_error + table) \<Rightarrow> db \<Rightarrow> engine_error + db" where
  "alter name f d =
     (case d name of
        None \<Rightarrow> Inl (No_such_table name)
      | Some t \<Rightarrow> (case f t of Inl e \<Rightarrow> Inl e | Inr t' \<Rightarrow> Inr (d(name \<mapsto> t'))))"

text \<open>\<open>INSERT IGNORE\<close> turns the refusal of a duplicate or of a CHECK into nothing inserted; the one
  statement of its kind names a constant that fits its column.\<close>

fun exec_stmt :: "collations \<Rightarrow> sql_stmt \<Rightarrow> db \<Rightarrow> engine_error + db" where
  "exec_stmt C (Create_table if_not_exists name cols keys checks) d =
     (if d name \<noteq> None then (if if_not_exists then Inr d else Inl (Table_exists name))
      else Inr (d(name \<mapsto> \<lparr>t_columns = cols, t_keys = keys, t_checks = checks, t_rows = []\<rparr>)))"
| "exec_stmt C (Modify_column name c) d = alter name (modify_column C c) d"
| "exec_stmt C (Add_columns name cs) d = alter name (add_columns cs) d"
| "exec_stmt C (Add_check name constraint e) d = alter name (add_check C constraint e) d"
| "exec_stmt C (Insert_ignore name given) d =
     (case d name of
        None \<Rightarrow> Inl (No_such_table name)
      | Some _ \<Rightarrow> (case insert_into C 0 name given d of Inl _ \<Rightarrow> Inr d | Inr d' \<Rightarrow> Inr d'))"

text \<open>A script stops at its first error and leaves what it had done: DDL is not transactional.\<close>

fun run_sql :: "collations \<Rightarrow> sql_stmt list \<Rightarrow> db \<Rightarrow> engine_error option \<times> db" where
  "run_sql C [] d = (None, d)"
| "run_sql C (q # qs) d =
     (case exec_stmt C q d of Inl e \<Rightarrow> (Some e, d) | Inr d' \<Rightarrow> run_sql C qs d')"

section \<open>Scripts\<close>

lemma run_sql_append:
  "run_sql C (ps @ qs) d =
     (case run_sql C ps d of (Some e, d') \<Rightarrow> (Some e, d') | (None, d') \<Rightarrow> run_sql C qs d')"
  by (induction ps arbitrary: d) (auto split: sum.splits)

lemma alter_Inr:
  "alter name f d = Inr d' \<longleftrightarrow> (\<exists>t t'. d name = Some t \<and> f t = Inr t' \<and> d' = d(name \<mapsto> t'))"
  by (auto simp: alter_def split: option.splits sum.splits)

text \<open>A statement is settled in a database that it leaves as it is; it settles itself when running
  it makes it so.\<close>

definition settled_in :: "collations \<Rightarrow> db \<Rightarrow> sql_stmt \<Rightarrow> bool" where
  "settled_in C d q \<longleftrightarrow> exec_stmt C q d = Inr d"

lemma run_settled: "list_all (settled_in C d) qs \<Longrightarrow> run_sql C qs d = (None, d)"
  by (induction qs) (auto simp: settled_in_def)

text \<open>When every statement of a script settles itself and no later one unsettles an earlier one,
  the script can be cut anywhere and run again from its start. \<open>I\<close> is what it presupposes of the
  database.\<close>

definition rerunnable :: "(db \<Rightarrow> bool) \<Rightarrow> collations \<Rightarrow> sql_stmt list \<Rightarrow> bool" where
  "rerunnable I C qs \<longleftrightarrow>
     (\<forall>p q r d d'. qs = p @ q # r \<longrightarrow> I d \<longrightarrow> exec_stmt C q d = Inr d' \<longrightarrow>
        I d' \<and> settled_in C d' q \<and> (\<forall>q' \<in> set p. settled_in C d q' \<longrightarrow> settled_in C d' q'))"

lemma rerunnableD:
  assumes "rerunnable I C (p @ q # r)" and "I d" and "exec_stmt C q d = Inr d'"
  shows "I d'" and "settled_in C d' q" and "q' \<in> set p \<Longrightarrow> settled_in C d q' \<Longrightarrow> settled_in C d' q'"
  using assms unfolding rerunnable_def by blast+

definition self_settling :: "(db \<Rightarrow> bool) \<Rightarrow> collations \<Rightarrow> sql_stmt \<Rightarrow> bool" where
  "self_settling I C q \<longleftrightarrow> (\<forall>d d'. I d \<longrightarrow> exec_stmt C q d = Inr d' \<longrightarrow> I d' \<and> settled_in C d' q)"

definition leaves_settled :: "(db \<Rightarrow> bool) \<Rightarrow> collations \<Rightarrow> sql_stmt \<Rightarrow> sql_stmt \<Rightarrow> bool" where
  "leaves_settled I C q q' \<longleftrightarrow>
     (\<forall>d d'. I d \<longrightarrow> exec_stmt C q d = Inr d' \<longrightarrow> settled_in C d q' \<longrightarrow> settled_in C d' q')"

lemma rerunnable_Nil: "rerunnable I C []"
  by (simp add: rerunnable_def)

lemma rerunnable_Cons:
  assumes "self_settling I C q0" and "\<And>q. q \<in> set qs \<Longrightarrow> leaves_settled I C q q0" and "rerunnable I C qs"
  shows "rerunnable I C (q0 # qs)"
  unfolding rerunnable_def
proof (intro allI impI)
  fix p q r d d'
  assume split: "q0 # qs = p @ q # r" and d: "I d" "exec_stmt C q d = Inr d'"
  show "I d' \<and> settled_in C d' q \<and> (\<forall>q' \<in> set p. settled_in C d q' \<longrightarrow> settled_in C d' q')"
  proof (cases p)
    case Nil
    with split d assms(1) show ?thesis by (auto simp: self_settling_def)
  next
    case (Cons x p')
    with split have qs: "x = q0" "qs = p' @ q # r" by auto
    then have "settled_in C d q0 \<longrightarrow> settled_in C d' q0"
      using assms(2)[of q] d by (auto simp: leaves_settled_def)
    moreover have "I d' \<and> settled_in C d' q \<and> (\<forall>q' \<in> set p'. settled_in C d q' \<longrightarrow> settled_in C d' q')"
      using assms(3) qs(2) d unfolding rerunnable_def by blast
    ultimately show ?thesis using Cons qs(1) by simp
  qed
qed

lemma settled_prefix:
  assumes "rerunnable I C (ps @ qs)" and "I d" and "run_sql C ps d = (None, d')"
  shows "I d' \<and> list_all (settled_in C d') ps"
  using assms
proof (induction ps arbitrary: d' qs rule: rev_induct)
  case (snoc q ps)
  then obtain d1 where d1: "run_sql C ps d = (None, d1)" "exec_stmt C q d1 = Inr d'"
    by (auto simp: run_sql_append split: prod.splits option.splits sum.splits)
  from snoc.prems(1) have r: "rerunnable I C (ps @ q # qs)" by simp
  from snoc.IH[OF r snoc.prems(2) d1(1)] have "I d1" "\<forall>q' \<in> set ps. settled_in C d1 q'"
    by (simp_all add: list_all_iff)
  then show ?case using rerunnableD[OF r _ d1(2)] by (simp add: list_all_iff)
qed simp

lemma rerun_is_run:
  assumes "rerunnable I C qs" and "I d"
  shows "run_sql C qs (snd (run_sql C (take k qs) d)) = run_sql C qs d"
proof (induction k)
  case (Suc k)
  show ?case
  proof (cases "k < length qs")
    case True
    then have take: "take (Suc k) qs = take k qs @ [qs ! k]" by (rule take_Suc_conv_app_nth)
    obtain e d1 where r: "run_sql C (take k qs) d = (e, d1)" by fastforce
    show ?thesis
    proof (cases "e = None \<and> (\<exists>d2. exec_stmt C (qs ! k) d1 = Inr d2)")
      case False
      then have "snd (run_sql C (take (Suc k) qs) d) = d1"
        using r by (auto simp: take run_sql_append split: option.splits sum.splits)
      then show ?thesis using Suc r by simp
    next
      case go: True
      then obtain d2 where d2: "exec_stmt C (qs ! k) d1 = Inr d2" by blast
      have all: "run_sql C (take (Suc k) qs) d = (None, d2)"
        using r go d2 by (simp add: take run_sql_append)
      note split = run_sql_append[of C "take (Suc k) qs" "drop (Suc k) qs", unfolded append_take_drop_id]
      have "list_all (settled_in C d2) (take (Suc k) qs)"
        using settled_prefix[of I C "take (Suc k) qs" "drop (Suc k) qs" d d2] assms all by simp
      then have "run_sql C (take (Suc k) qs) d2 = (None, d2)" by (rule run_settled)
      then have "run_sql C qs d2 = run_sql C qs d" unfolding split by (simp only: all prod.case option.case)
      then show ?thesis using all by simp
    qed
  qed (use Suc in simp)
qed simp

section \<open>Statements that settle themselves\<close>

lemma settled_alter:
  "exec_stmt C q = alter name f \<Longrightarrow> settled_in C d q \<longleftrightarrow> (\<exists>t. d name = Some t \<and> f t = Inr t)"
proof -
  assume "exec_stmt C q = alter name f"
  moreover have "t' = t" if "d name = Some t" "d = d(name \<mapsto> t')" for t t'
    using that by (metis fun_upd_same option.inject)
  ultimately show ?thesis by (auto simp: settled_in_def alter_Inr fun_upd_idem)
qed

lemma alter_settles:
  assumes "\<And>t t'. f t = Inr t' \<Longrightarrow> f t' = Inr t'" and "alter name f d = Inr d'"
  shows "alter name f d' = Inr d'"
  using assms by (auto simp: alter_Inr)

lemma redeclare_again: "redeclare c (redeclare c t) = redeclare c t"
proof -
  have "(\<lambda>x. if c_name x = c_name c then c else x) \<circ> (\<lambda>x. if c_name x = c_name c then c else x)
      = (\<lambda>x. if c_name x = c_name c then c else x)"
    by (simp add: fun_eq_iff)
  then show ?thesis by (simp add: redeclare_def)
qed

lemma modify_settles:
  assumes "modify_column C c t = Inr t'"
  shows "modify_column C c t' = Inr t'"
proof -
  from assms have t': "t' = redeclare c t" and "list_ex (\<lambda>x. c_name x = c_name c) (t_columns t)"
    and "first_refusal (\<lambda>row. column_refusal c (cell t' row (c_name c))) (t_rows t') = None"
    and "duplicates_in C t' = None"
    by (auto simp: modify_column_def Let_def split: if_splits option.splits)
  moreover have "list_ex (\<lambda>x. c_name x = c_name c) (t_columns t')"
    using calculation(1,2) by (auto simp: redeclare_def list_ex_iff)
  moreover have "redeclare c t' = t'" using t' redeclare_again by simp
  ultimately show ?thesis by (simp add: modify_column_def Let_def)
qed

lemma add_column_names:
  assumes "add_column c after t = Inr t'"
  shows "c_name c \<in> c_name ` set (t_columns t')" and "c_name ` set (t_columns t) \<subseteq> c_name ` set (t_columns t')"
proof -
  have set: "set (after_column n x (zip ns xs)) = (if n \<in> set ns then insert x (set xs) else set xs)"
    if "length ns = length xs" for n and x :: column and ns xs
    using that by (induction ns xs rule: list_induct2) auto
  show "c_name c \<in> c_name ` set (t_columns t')" "c_name ` set (t_columns t) \<subseteq> c_name ` set (t_columns t')"
    using assms by (auto simp: add_column_def Let_def set split: if_splits)
qed

lemma add_columns_names:
  "add_columns cs t = Inr t' \<Longrightarrow>
     (c_name \<circ> fst) ` set cs \<subseteq> c_name ` set (t_columns t')
     \<and> c_name ` set (t_columns t) \<subseteq> c_name ` set (t_columns t')"
proof (induction cs arbitrary: t)
  case (Cons c cs)
  obtain x a where c: "c = (x, a)" by (cases c)
  with Cons.prems obtain t1 where t1: "add_column x a t = Inr t1" "add_columns cs t1 = Inr t'"
    by (auto split: sum.splits)
  have "c_name ` set (t_columns t1) \<subseteq> c_name ` set (t_columns t')" and "(c_name \<circ> fst) ` set cs \<subseteq> c_name ` set (t_columns t')"
    using Cons.IH[OF t1(2)] by blast+
  with add_column_names[OF t1(1)] c show ?case by (simp add: subset_iff)
qed simp

lemma add_columns_there:
  "(c_name \<circ> fst) ` set cs \<subseteq> c_name ` set (t_columns t) \<Longrightarrow> add_columns cs t = Inr t"
  by (induction cs) (auto simp: add_column_def Let_def)

lemma add_columns_settle: "add_columns cs t = Inr t' \<Longrightarrow> add_columns cs t' = Inr t'"
  by (rule add_columns_there) (use add_columns_names in blast)

lemma add_check_settles:
  "add_check C name e t = Inr t' \<Longrightarrow> add_check C name e t' = Inr t'"
  by (auto simp: add_check_def split: if_splits)

lemma add_check_keeps:
  assumes "add_check C name e t = Inr t'"
  shows "t_columns t' = t_columns t" and "t_keys t' = t_keys t" and "t_rows t' = t_rows t"
    and "set (t_checks t) \<subseteq> set (t_checks t')"
  using assms by (auto simp: add_check_def split: if_splits)

end
