(* ===== verification/Migrations.thy ===== *)
theory Migrations
  imports Ddl
begin

text \<open>
  \<open>src/schema.rs\<close>: the seven migrations, statement by statement, and the four of the releases
  v0.1.0 to v0.1.18 that an older store was made by (\<open>src/tests/upgrade.rs\<close>, \<open>V0_1\<close>). What runs
  them is \<open>yadgar-store\<close>: it executes what the store's ledger does not record, in order, and
  records a migration when all of it succeeded.
\<close>

section \<open>The migrations\<close>

record migration =
  mg_version :: nat
  mg_name :: string
  mg_sql :: "sql_stmt list"

definition col :: "string \<Rightarrow> sql_type \<Rightarrow> column_collation \<Rightarrow> bool \<Rightarrow> column_default \<Rightarrow> column" where
  "col name ty coll nullable dflt =
     \<lparr>c_name = name, c_type = ty, c_collation = coll, c_nullable = nullable, c_default = dflt\<rparr>"

definition ck_project_class :: check where
  "ck_project_class = Unequal (Is_not_null ''source_repo'') (Is_not_null ''owner_user_id'')"

definition ck_project_class_path :: check where
  "ck_project_class_path = Equal (Is_not_null ''owner_user_id'') (Like ''path'' ''local/%'')"

definition create_project :: migration where
  "create_project = \<lparr>mg_version = 1, mg_name = ''create_project'', mg_sql =
     [Create_table False ''project''
        [col ''id'' (VARCHAR 96) Server_default False No_default,
         col ''version'' BIGINT_UNSIGNED No_collation False (Default_number 1),
         col ''path'' (VARCHAR 255) General_ci False No_default,
         col ''display_name'' (VARCHAR 255) Server_default False No_default,
         col ''status'' TINYINT No_collation False No_default,
         col ''source_repo'' (VARCHAR 255) Server_default True No_default,
         col ''owner_user_id'' (VARCHAR 64) Server_default True No_default,
         col ''visibility'' TINYINT No_collation False No_default,
         col ''created_by'' (VARCHAR 64) Server_default False No_default,
         col ''updated_by'' (VARCHAR 64) Server_default False No_default,
         col ''created_at'' TIMESTAMP No_collation False Default_now,
         col ''updated_at'' TIMESTAMP No_collation False Default_now,
         col ''last_seen_at'' TIMESTAMP No_collation True Default_null]
        [Primary_key [''id''], Unique_key ''uq_project_path'' [''path''],
         Plain_key ''ix_project_status'' [''status'']]
        [(''ck_project_class'', ck_project_class), (''ck_project_class_path'', ck_project_class_path)]]\<rparr>"

definition project_alias :: migration where
  "project_alias = \<lparr>mg_version = 2, mg_name = ''project_alias'', mg_sql =
     [Create_table False ''project_alias''
        [col ''alias_path'' (VARCHAR 255) Server_default False No_default,
         col ''project_id'' (VARCHAR 96) Server_default False No_default,
         col ''created_at'' TIMESTAMP No_collation False Default_now]
        [Primary_key [''alias_path''], Plain_key ''ix_project_alias_project'' [''project_id'']]
        []]\<rparr>"

definition project_write_idempotency :: migration where
  "project_write_idempotency = \<lparr>mg_version = 3, mg_name = ''project_write_idempotency'', mg_sql =
     [Create_table False ''project_write''
        [col ''project_id'' (VARCHAR 255) Server_default False No_default,
         col ''user_id'' (VARCHAR 64) Server_default False No_default,
         col ''idem_key'' (VARCHAR 255) Server_default False No_default,
         col ''rpc'' (VARCHAR 32) Server_default False No_default,
         col ''response'' (VARBINARY 4096) No_collation False No_default,
         col ''request_fingerprint'' (BINARY 32) No_collation False No_default,
         col ''created_at'' TIMESTAMP No_collation False Default_now]
        [Primary_key [''project_id'', ''user_id'', ''idem_key'']]
        []]\<rparr>"

definition pin_the_path_collation :: migration where
  "pin_the_path_collation = \<lparr>mg_version = 4, mg_name = ''pin_the_path_collation'', mg_sql =
     [Modify_column ''project'' (col ''path'' (VARCHAR 255) General_ci False No_default),
      Modify_column ''project_alias'' (col ''alias_path'' (VARCHAR 255) General_ci False No_default)]\<rparr>"

definition project_sync_lock :: migration where
  "project_sync_lock = \<lparr>mg_version = 5, mg_name = ''project_sync_lock'', mg_sql =
     [Create_table True ''project_sync_lock''
        [col ''id'' TINYINT_UNSIGNED No_collation False No_default]
        [Primary_key [''id'']]
        [(''ck_project_sync_lock_one'', Column_in ''id'' [1])],
      Insert_ignore ''project_sync_lock'' [(''id'', Number 1)]]\<rparr>"

definition project_class_columns :: migration where
  "project_class_columns = \<lparr>mg_version = 6, mg_name = ''project_class_columns'', mg_sql =
     [Add_columns ''project''
        [(col ''source_repo'' (VARCHAR 255) Server_default True No_default, ''status''),
         (col ''owner_user_id'' (VARCHAR 64) Server_default True No_default, ''source_repo''),
         (col ''visibility'' TINYINT No_collation False No_default, ''owner_user_id'')],
      Add_check ''project'' ''ck_project_class'' ck_project_class,
      Add_check ''project'' ''ck_project_class_path'' ck_project_class_path]\<rparr>"

definition project_grant :: migration where
  "project_grant = \<lparr>mg_version = 7, mg_name = ''project_grant'', mg_sql =
     [Create_table True ''project_grant''
        [col ''project_id'' (VARCHAR 96) Server_default False No_default,
         col ''team_id'' (VARCHAR 96) Server_default False No_default,
         col ''level'' TINYINT No_collation False No_default]
        [Primary_key [''project_id'', ''team_id''],
         Foreign_key ''fk_project_grant_project'' [''project_id''] ''project'' [''id'']]
        [(''ck_project_grant_level'', Column_in ''level'' [1, 2])]]\<rparr>"

definition all_migrations :: "migration list" where
  "all_migrations =
     [create_project, project_alias, project_write_idempotency, pin_the_path_collation,
      project_sync_lock, project_class_columns, project_grant]"

lemmas migration_defs = create_project_def project_alias_def project_write_idempotency_def
  pin_the_path_collation_def project_sync_lock_def project_class_columns_def project_grant_def

text \<open>What a store whose ledger ends at a version still has to run.\<close>

definition script_after :: "nat \<Rightarrow> migration list \<Rightarrow> sql_stmt list" where
  "script_after v ms = concat (map mg_sql (filter (\<lambda>m. v < mg_version m) ms))"

text \<open>What an older release created in place of migration 1: no class columns, no CHECK, and the
  path on the server's collation. Its migrations 2 to 4 are this release's.\<close>

definition v0_1_create_project :: migration where
  "v0_1_create_project = \<lparr>mg_version = 1, mg_name = ''create_project'', mg_sql =
     [Create_table False ''project''
        [col ''id'' (VARCHAR 96) Server_default False No_default,
         col ''version'' BIGINT_UNSIGNED No_collation False (Default_number 1),
         col ''path'' (VARCHAR 255) Server_default False No_default,
         col ''display_name'' (VARCHAR 255) Server_default False No_default,
         col ''status'' TINYINT No_collation False No_default,
         col ''created_by'' (VARCHAR 64) Server_default False No_default,
         col ''updated_by'' (VARCHAR 64) Server_default False No_default,
         col ''created_at'' TIMESTAMP No_collation False Default_now,
         col ''updated_at'' TIMESTAMP No_collation False Default_now,
         col ''last_seen_at'' TIMESTAMP No_collation True Default_null]
        [Primary_key [''id''], Unique_key ''uq_project_path'' [''path''],
         Plain_key ''ix_project_status'' [''status'']]
        []]\<rparr>"

definition v0_1_migrations :: "migration list" where
  "v0_1_migrations =
     [v0_1_create_project, project_alias, project_write_idempotency, pin_the_path_collation]"

section \<open>A schema\<close>

text \<open>What \<open>information_schema\<close> says of a database: its tables without their rows. A database with
  rows is the schema with the rows put in.\<close>

definition schema_of :: "db \<Rightarrow> db" where
  "schema_of d = (\<lambda>name. map_option (\<lambda>t. t\<lparr>t_rows := []\<rparr>) (d name))"

definition filled :: "db \<Rightarrow> (string \<Rightarrow> sql_value list list) \<Rightarrow> db" where
  "filled d rows = (\<lambda>name. map_option (\<lambda>t. t\<lparr>t_rows := rows name\<rparr>) (d name))"

text \<open>The row the syncs lock is the one row a migration writes.\<close>

definition with_sentinel :: "(string \<Rightarrow> sql_value list list) \<Rightarrow> string \<Rightarrow> sql_value list list" where
  "with_sentinel rows = rows(''project_sync_lock'' := [[Number 1]])"

lemma filled_apply: "filled d rows name = map_option (\<lambda>t. t\<lparr>t_rows := rows name\<rparr>) (d name)"
  by (simp add: filled_def)

end
