(* ===== verification/Migrations_Spec.thy ===== *)
theory Migrations_Spec
  imports Migrations
begin

text \<open>
  What the migrations promise: what a fresh store is; that an older store becomes the same store,
  or is refused for the rows nothing can classify; and that a migration cut off half way can be run
  again.
\<close>

section \<open>A fresh store\<close>

definition project_table :: table where
  "project_table =
     \<lparr>t_columns =
        [col ''id'' (VARCHAR 96) Server_default False No_default,
         col ''version'' BIGINT_UNSIGNED No_collation False (Default_number 1),
         col ''path'' (VARCHAR 255) General_ci False No_default,
         col ''display_name'' (VARCHAR 255) Server_default False No_default,
         col ''status'' TINYINT No_collation False No_default,
         col ''source_repo'' (VARCHAR 255) Server_default True No_default,
         col ''owner_user_id'' (VARCHAR 64) Server_default True No_default,
         col ''visibility'' TINYINT No_collation False No_default,
         col ''created_by'' (VARCHAR 64) Server_default False No_default,
         col ''updated_by'' (VARCHAR 64) Server_default False No_default,
         col ''created_at'' TIMESTAMP No_collation False Default_now,
         col ''updated_at'' TIMESTAMP No_collation False Default_now,
         col ''last_seen_at'' TIMESTAMP No_collation True Default_null],
      t_keys =
        [Primary_key [''id''], Unique_key ''uq_project_path'' [''path''],
         Plain_key ''ix_project_status'' [''status'']],
      t_checks =
        [(''ck_project_class'', ck_project_class), (''ck_project_class_path'', ck_project_class_path)],
      t_rows = []\<rparr>"

definition alias_table :: table where
  "alias_table =
     \<lparr>t_columns =
        [col ''alias_path'' (VARCHAR 255) General_ci False No_default,
         col ''project_id'' (VARCHAR 96) Server_default False No_default,
         col ''created_at'' TIMESTAMP No_collation False Default_now],
      t_keys = [Primary_key [''alias_path''], Plain_key ''ix_project_alias_project'' [''project_id'']],
      t_checks = [], t_rows = []\<rparr>"

definition write_table :: table where
  "write_table =
     \<lparr>t_columns =
        [col ''project_id'' (VARCHAR 255) Server_default False No_default,
         col ''user_id'' (VARCHAR 64) Server_default False No_default,
         col ''idem_key'' (VARCHAR 255) Server_default False No_default,
         col ''rpc'' (VARCHAR 32) Server_default False No_default,
         col ''response'' (VARBINARY 4096) No_collation False No_default,
         col ''request_fingerprint'' (BINARY 32) No_collation False No_default,
         col ''created_at'' TIMESTAMP No_collation False Default_now],
      t_keys = [Primary_key [''project_id'', ''user_id'', ''idem_key'']],
      t_checks = [], t_rows = []\<rparr>"

definition lock_table :: table where
  "lock_table =
     \<lparr>t_columns = [col ''id'' TINYINT_UNSIGNED No_collation False No_default],
      t_keys = [Primary_key [''id'']],
      t_checks = [(''ck_project_sync_lock_one'', Column_in ''id'' [1])], t_rows = []\<rparr>"

definition grant_table :: table where
  "grant_table =
     \<lparr>t_columns =
        [col ''project_id'' (VARCHAR 96) Server_default False No_default,
         col ''team_id'' (VARCHAR 96) Server_default False No_default,
         col ''level'' TINYINT No_collation False No_default],
      t_keys =
        [Primary_key [''project_id'', ''team_id''],
         Foreign_key ''fk_project_grant_project'' [''project_id''] ''project'' [''id'']],
      t_checks = [(''ck_project_grant_level'', Column_in ''level'' [1, 2])], t_rows = []\<rparr>"

definition fresh_schema :: db where
  "fresh_schema =
     [''project'' \<mapsto> project_table, ''project_alias'' \<mapsto> alias_table, ''project_write'' \<mapsto> write_table,
      ''project_sync_lock'' \<mapsto> lock_table, ''project_grant'' \<mapsto> grant_table]"

text \<open>What v0.1.x left: its \<open>project\<close> table, and neither a lock nor grants.\<close>

definition v0_1_table :: table where
  "v0_1_table =
     \<lparr>t_columns =
        [col ''id'' (VARCHAR 96) Server_default False No_default,
         col ''version'' BIGINT_UNSIGNED No_collation False (Default_number 1),
         col ''path'' (VARCHAR 255) General_ci False No_default,
         col ''display_name'' (VARCHAR 255) Server_default False No_default,
         col ''status'' TINYINT No_collation False No_default,
         col ''created_by'' (VARCHAR 64) Server_default False No_default,
         col ''updated_by'' (VARCHAR 64) Server_default False No_default,
         col ''created_at'' TIMESTAMP No_collation False Default_now,
         col ''updated_at'' TIMESTAMP No_collation False Default_now,
         col ''last_seen_at'' TIMESTAMP No_collation True Default_null],
      t_keys =
        [Primary_key [''id''], Unique_key ''uq_project_path'' [''path''],
         Plain_key ''ix_project_status'' [''status'']],
      t_checks = [], t_rows = []\<rparr>"

definition v0_1_schema :: db where
  "v0_1_schema =
     [''project'' \<mapsto> v0_1_table, ''project_alias'' \<mapsto> alias_table, ''project_write'' \<mapsto> write_table]"

lemmas table_defs = project_table_def alias_table_def write_table_def lock_table_def grant_table_def
  v0_1_table_def

lemmas ddl_defs = alter_def modify_column_def redeclare_def duplicates_in_def add_column_def add_check_def
  insert_into_def default_value_def insert_refusal_def column_refusal_def check_refusal_def duplicate_of_def
  uniques_def col_def cell_def Let_def filling_def

lemma fresh_run:
  "run_sql C (script_after 0 all_migrations) Map.empty
     = (None, fresh_schema(''project_sync_lock'' \<mapsto> lock_table\<lparr>t_rows := [[Number 1]]\<rparr>))"
  by (simp add: script_after_def all_migrations_def migration_defs ddl_defs table_defs fresh_schema_def
      fun_eq_iff)

section \<open>An older store\<close>

lemma v0_1_run: "run_sql C (script_after 0 v0_1_migrations) Map.empty = (None, v0_1_schema)"
  by (simp add: script_after_def v0_1_migrations_def v0_1_create_project_def migration_defs ddl_defs
      table_defs v0_1_schema_def fun_eq_iff)

text \<open>A row of v0.1.x with the three columns put in: no repository, no owner, visibility 0.\<close>

definition unclassified :: "sql_value list \<Rightarrow> sql_value list" where
  "unclassified row = take 5 row @ [Null, Null, Number 0] @ drop 5 row"

lemma ten_cells:
  assumes "length row = 10"
  obtains a b c d e f g h i j where "row = [a, b, c, d, e, f, g, h, i, j]"
  using assms by (auto simp: eval_nat_numeral length_Suc_conv)

lemma columns_added:
  assumes "\<forall>row \<in> set rs. length row = 10"
  shows "add_columns
     [(col ''source_repo'' (VARCHAR 255) Server_default True No_default, ''status''),
      (col ''owner_user_id'' (VARCHAR 64) Server_default True No_default, ''source_repo''),
      (col ''visibility'' TINYINT No_collation False No_default, ''owner_user_id'')]
     (v0_1_table\<lparr>t_rows := rs\<rparr>)
   = Inr (project_table\<lparr>t_checks := [], t_rows := map unclassified rs\<rparr>)"
proof -
  have "after_column ''owner_user_id'' (Number 0) (zip (map c_name (take 7 (t_columns project_table) @ drop 8 (t_columns project_table)))
      (after_column ''source_repo'' Null (zip (map c_name (take 6 (t_columns project_table) @ drop 8 (t_columns project_table)))
        (after_column ''status'' Null (zip (map c_name (t_columns v0_1_table)) row))))) = unclassified row"
    if "length row = 10" for row
    using that by (elim ten_cells) (simp add: table_defs col_def unclassified_def)
  then show ?thesis using assms
    by (simp add: table_defs add_column_def col_def filling_def)
qed

lemma class_check_fails:
  assumes "length row = 10"
  shows "eval_check C (project_table\<lparr>t_checks := k, t_rows := rs\<rparr>) (unclassified row) ck_project_class = Some False"
  using assms by (elim ten_cells)
    (simp add: unclassified_def ck_project_class_def cell_def table_defs col_def sql_not_def sql_same_def)

text \<open>C23. An older store becomes a fresh one: v0.1.x left the schema \<open>v0_1_schema\<close>; upgraded from
  there, whatever its former paths and ledger hold, a store without projects has exactly the tables
  - columns in their places, keys, CHECKs - and the rows a fresh install of this release has beside
  its own; a store with projects is refused by \<open>ck_project_class\<close>, since nothing can say which class
  they are, and is left with the new columns, its rows in no class and no CHECK.\<close>

theorem upgrade_is_fresh:
  assumes "\<forall>row \<in> set (rows ''project''). length row = 10"
  shows "run_sql C (script_after 0 v0_1_migrations) Map.empty = (None, v0_1_schema)
    \<and> run_sql C (script_after 0 all_migrations) Map.empty
        = (None, filled fresh_schema (with_sentinel (\<lambda>name. [])))
    \<and> run_sql C (script_after 4 all_migrations) (filled v0_1_schema rows)
        = (if rows ''project'' = []
           then (None, filled fresh_schema (with_sentinel (rows(''project_grant'' := []))))
           else (Some (Check_failed ''ck_project_class''),
                 (filled v0_1_schema rows)
                   (''project_sync_lock'' \<mapsto> lock_table\<lparr>t_rows := [[Number 1]]\<rparr>,
                    ''project'' \<mapsto> project_table\<lparr>t_checks := [], t_rows := map unclassified (rows ''project'')\<rparr>)))"
proof (intro conjI)
  let ?d = "(filled v0_1_schema rows)(''project_sync_lock'' \<mapsto> lock_table\<lparr>t_rows := [[Number 1]]\<rparr>)"
  let ?t = "project_table\<lparr>t_checks := [], t_rows := map unclassified (rows ''project'')\<rparr>"
  show "run_sql C (script_after 0 all_migrations) Map.empty
        = (None, filled fresh_schema (with_sentinel (\<lambda>name. [])))"
    unfolding fresh_run
    by (simp add: fun_eq_iff filled_def fresh_schema_def with_sentinel_def table_defs)
  have lock: "run_sql C (mg_sql project_sync_lock) (filled v0_1_schema rows) = (None, ?d)"
    by (simp add: project_sync_lock_def ddl_defs filled_def v0_1_schema_def lock_table_def fun_eq_iff)
  have "?d ''project'' = Some (v0_1_table\<lparr>t_rows := rows ''project''\<rparr>)"
    by (simp add: filled_def v0_1_schema_def)
  then have cols: "run_sql C (mg_sql project_class_columns) ?d
      = run_sql C [Add_check ''project'' ''ck_project_class'' ck_project_class,
                   Add_check ''project'' ''ck_project_class_path'' ck_project_class_path] (?d(''project'' \<mapsto> ?t))"
    by (simp add: project_class_columns_def alter_def columns_added[OF assms] del: add_columns.simps)
  have script: "script_after 4 all_migrations
      = mg_sql project_sync_lock @ mg_sql project_class_columns @ mg_sql project_grant"
    by (simp add: script_after_def all_migrations_def migration_defs)
  show "run_sql C (script_after 4 all_migrations) (filled v0_1_schema rows)
        = (if rows ''project'' = []
           then (None, filled fresh_schema (with_sentinel (rows(''project_grant'' := []))))
           else (Some (Check_failed ''ck_project_class''), ?d(''project'' \<mapsto> ?t)))"
  proof (cases "rows ''project'' = []")
    case True
    then show ?thesis unfolding script
      by (simp add: run_sql_append lock cols alter_def add_check_def del: exec_stmt.simps(1))
        (simp add: project_grant_def col_def fun_eq_iff filled_def fresh_schema_def v0_1_schema_def
          with_sentinel_def table_defs)
  next
    case False
    then obtain row where "row \<in> set (rows ''project'')" by (cases "rows ''project''") auto
    then have "list_ex (\<lambda>row. eval_check C ?t row ck_project_class = Some False) (t_rows ?t)"
      using assms class_check_fails by (auto simp: list_ex_iff)
    then have "alter ''project'' (add_check C ''ck_project_class'' ck_project_class) (?d(''project'' \<mapsto> ?t))
        = Inl (Check_failed ''ck_project_class'')"
      by (simp add: alter_def add_check_def)
    then show ?thesis using False unfolding script by (simp add: run_sql_append lock cols)
  qed
qed (rule v0_1_run)

section \<open>A migration cut off\<close>

text \<open>What migration 5 presupposes: a table of the lock's name, where there is one, is declared as it
  declares it. \<open>IF NOT EXISTS\<close> keeps any other, and without the key in it the \<open>INSERT IGNORE\<close> would add
  its row once more at every run (\<open>rerun_needs_the_key\<close>). The other migrations presuppose nothing.\<close>

definition lock_declared :: "db \<Rightarrow> bool" where
  "lock_declared d \<longleftrightarrow> (\<forall>t. d ''project_sync_lock'' = Some t \<longrightarrow> t\<lparr>t_rows := []\<rparr> = lock_table)"

abbreviation any_db :: "db \<Rightarrow> bool" where
  "any_db \<equiv> (\<lambda>_. True)"

lemma self_settling_alter:
  assumes "exec_stmt C q = alter name f" and "\<And>t t'. f t = Inr t' \<Longrightarrow> f t' = Inr t'"
  shows "self_settling any_db C q"
  using alter_settles[of f name, OF assms(2)] by (auto simp: self_settling_def settled_in_def assms(1))

lemma leaves_settled_alter:
  assumes "exec_stmt C q = alter name f" and "exec_stmt C q' = alter name' f'"
    and "\<And>t t'. name' = name \<Longrightarrow> f t = Inr t' \<Longrightarrow> f' t = Inr t \<Longrightarrow> f' t' = Inr t'"
  shows "leaves_settled I C q q'"
  using assms(3) by (auto simp: leaves_settled_def settled_alter[OF assms(2)] assms(1) alter_Inr)

lemma sentinel_again:
  assumes "lock_declared d" and "exec_stmt C (Insert_ignore ''project_sync_lock'' [(''id'', Number 1)]) d = Inr d'"
  shows "lock_declared d' \<and> settled_in C d' (Insert_ignore ''project_sync_lock'' [(''id'', Number 1)])"
proof -
  from assms obtain t where t: "d ''project_sync_lock'' = Some t" "t\<lparr>t_rows := []\<rparr> = lock_table"
    by (auto simp: lock_declared_def split: option.splits)
  then obtain rs where rs: "t = lock_table\<lparr>t_rows := rs\<rparr>" by (cases t) (simp add: lock_table_def)
  let ?in = "list_ex (\<lambda>r. cell t r ''id'' = Number 1) rs"
  have meet: "meet_in C (lock_table\<lparr>t_rows := xs\<rparr>) [''id''] r [Number 1] = (cell t r ''id'' = Number 1)" for xs r
  proof -
    have "cell (lock_table\<lparr>t_rows := xs\<rparr>) [Number 1] ''id'' = Number 1"
      and "cell (lock_table\<lparr>t_rows := xs\<rparr>) r ''id'' = cell t r ''id''"
      by (simp_all add: rs lock_table_def cell_def col_def)
    then show ?thesis by (cases "cell t r ''id''") (auto simp: meet_in_def key_cell_def)
  qed
  have again: "insert_into C 0 ''project_sync_lock'' [(''id'', Number 1)] (d(''project_sync_lock'' \<mapsto> lock_table\<lparr>t_rows := xs\<rparr>))
      = (if list_ex (\<lambda>r. cell t r ''id'' = Number 1) xs then Inl (Duplicate_entry ''PRIMARY'')
         else Inr (d(''project_sync_lock'' \<mapsto> lock_table\<lparr>t_rows := xs @ [[Number 1]]\<rparr>)))" for xs
  proof -
    let ?t = "lock_table\<lparr>t_rows := xs\<rparr>"
    have full: "full_row 0 (t_columns ?t) [(''id'', Number 1)] = Inr [Number 1]"
      and width: "row_width_refusal (t_columns ?t) [Number 1] = None"
      and check: "check_refusal C ?t [Number 1] = None"
      and refs: "first_refusal (reference_refusal C dd ?t [Number 1]) (t_keys ?t) = None"
      and keys: "uniques ?t = [(''PRIMARY'', [''id''])]" for dd
      by (simp_all add: lock_table_def col_def column_refusal_def check_refusal_def cell_def uniques_def)
    have "insert_refusal C dd ?t [Number 1]
        = (if list_ex (\<lambda>r. cell t r ''id'' = Number 1) xs then Some (Duplicate_entry ''PRIMARY'') else None)" for dd
      unfolding insert_refusal_def width check refs duplicate_of_def keys option.case by (simp add: meet)
    then show ?thesis using full by (simp add: insert_into_def)
  qed
  have "d = d(''project_sync_lock'' \<mapsto> lock_table\<lparr>t_rows := rs\<rparr>)" using t rs by auto
  then have first: "insert_into C 0 ''project_sync_lock'' [(''id'', Number 1)] d
      = (if ?in then Inl (Duplicate_entry ''PRIMARY'')
         else Inr (d(''project_sync_lock'' \<mapsto> lock_table\<lparr>t_rows := rs @ [[Number 1]]\<rparr>)))"
    using again by metis
  show ?thesis
  proof (cases ?in)
    case True
    then show ?thesis using assms first t by (simp add: settled_in_def)
  next
    case False
    then have d': "d' = d(''project_sync_lock'' \<mapsto> lock_table\<lparr>t_rows := rs @ [[Number 1]]\<rparr>)"
      using assms(2) first t by simp
    have "list_ex (\<lambda>r. cell t r ''id'' = Number 1) (rs @ [[Number 1]])"
      by (simp add: rs lock_table_def cell_def col_def)
    then have "settled_in C d' (Insert_ignore ''project_sync_lock'' [(''id'', Number 1)])"
      unfolding d' by (simp add: settled_in_def again)
    moreover have "lock_declared d'" unfolding d' by (simp add: lock_declared_def lock_table_def)
    ultimately show ?thesis by blast
  qed
qed

lemma created_there:
  "settled_in C d (Create_table True name cols keys checks) \<longleftrightarrow> d name \<noteq> None"
proof -
  have "d(name \<mapsto> t) = d \<Longrightarrow> d name \<noteq> None" for t by (metis fun_upd_same option.discI)
  then show ?thesis by (auto simp: settled_in_def)
qed

lemma alters:
  "exec_stmt C (Modify_column name c) = alter name (modify_column C c)"
  "exec_stmt C (Add_columns name cs) = alter name (add_columns cs)"
  "exec_stmt C (Add_check name constraint e) = alter name (add_check C constraint e)"
  by (simp_all add: fun_eq_iff)

lemmas alters_settle =
  self_settling_alter[OF alters(1) modify_settles] self_settling_alter[OF alters(2) add_columns_settle]
  self_settling_alter[OF alters(3) add_check_settles]

lemma migration_4_rerunnable: "rerunnable any_db C (mg_sql pin_the_path_collation)"
proof -
  have "leaves_settled any_db C (Modify_column ''project_alias'' a) (Modify_column ''project'' b)" for a b
    by (rule leaves_settled_alter[OF alters(1) alters(1)]) simp
  then show ?thesis unfolding pin_the_path_collation_def
    by (auto intro!: rerunnable_Cons rerunnable_Nil alters_settle)
qed

lemma migration_5_rerunnable: "rerunnable lock_declared C (mg_sql project_sync_lock)"
proof -
  let ?create = "hd (mg_sql project_sync_lock)" and ?insert = "Insert_ignore ''project_sync_lock'' [(''id'', Number 1)]"
  have created: "exec_stmt C ?create d
      = (if d ''project_sync_lock'' = None then Inr (d(''project_sync_lock'' \<mapsto> lock_table)) else Inr d)" for d
    by (simp add: project_sync_lock_def lock_table_def)
  have "self_settling lock_declared C ?create"
    unfolding self_settling_def settled_in_def created by (auto simp: lock_declared_def lock_table_def split: if_splits)
  moreover have "self_settling lock_declared C ?insert"
    using sentinel_again by (simp add: self_settling_def)
  moreover have "leaves_settled lock_declared C ?insert ?create"
    unfolding leaves_settled_def project_sync_lock_def
    by (auto simp: created_there insert_into_def split: option.splits sum.splits simp del: exec_stmt.simps(1))
  ultimately have "rerunnable lock_declared C [?create, ?insert]"
    by (auto intro!: rerunnable_Cons rerunnable_Nil)
  then show ?thesis by (simp add: project_sync_lock_def)
qed

lemma migration_6_rerunnable: "rerunnable any_db C (mg_sql project_class_columns)"
proof -
  have "leaves_settled any_db C (Add_check ''project'' name e) (Add_columns ''project'' cs)" for name e cs
  proof (rule leaves_settled_alter[OF alters(3) alters(2)])
    fix t t'
    assume t: "add_check C name e t = Inr t'" "add_columns cs t = Inr t"
    show "add_columns cs t' = Inr t'"
      by (rule add_columns_there) (use add_columns_names[OF t(2)] add_check_keeps(1)[OF t(1)] in simp)
  qed
  moreover have "leaves_settled any_db C (Add_check ''project'' name e) (Add_check ''project'' name' e')"
    for name e name' e'
  proof (rule leaves_settled_alter[OF alters(3) alters(3)])
    fix t t'
    assume t: "add_check C name e t = Inr t'" "add_check C name' e' t = Inr t"
    then have "name' \<in> fst ` set (t_checks t)"
      by (auto simp: add_check_def split: if_splits dest: arg_cong[where f = t_checks])
    then show "add_check C name' e' t' = Inr t'" using add_check_keeps(4)[OF t(1)] by (auto simp: add_check_def)
  qed
  ultimately show ?thesis unfolding project_class_columns_def
    by (auto intro!: rerunnable_Cons rerunnable_Nil alters_settle)
qed

lemma migration_7_rerunnable: "rerunnable any_db C (mg_sql project_grant)"
  by (auto simp: project_grant_def self_settling_def settled_in_def split: if_splits
      intro!: rerunnable_Cons rerunnable_Nil)

text \<open>What it presupposes holds of every database made by migrations, cut off anywhere: none of them
  touches the lock's table but the one that declares it.\<close>

lemma lock_declared_create:
  "cols = t_columns lock_table \<and> keys = t_keys lock_table \<and> checks = t_checks lock_table \<or> name \<noteq> ''project_sync_lock'' \<Longrightarrow>
   lock_declared d \<Longrightarrow> exec_stmt C (Create_table ine name cols keys checks) d = Inr d' \<Longrightarrow> lock_declared d'"
  by (auto simp: lock_declared_def lock_table_def split: if_splits)

lemma lock_declared_alter:
  "exec_stmt C q = alter name f \<Longrightarrow> name \<noteq> ''project_sync_lock'' \<Longrightarrow> lock_declared d \<Longrightarrow>
   exec_stmt C q d = Inr d' \<Longrightarrow> lock_declared d'"
  by (auto simp: alter_Inr lock_declared_def)

lemma lock_declared_stmt:
  assumes "m \<in> set all_migrations" and "q \<in> set (mg_sql m)" and "lock_declared d" and "exec_stmt C q d = Inr d'"
  shows "lock_declared d'"
proof (cases q)
  case (Create_table ine name cols keys checks)
  with assms(1,2) have "cols = t_columns lock_table \<and> keys = t_keys lock_table \<and> checks = t_checks lock_table
      \<or> name \<noteq> ''project_sync_lock''"
    by (auto simp: all_migrations_def migration_defs lock_table_def)
  then show ?thesis using lock_declared_create assms(3,4) Create_table by blast
next
  case (Insert_ignore name given)
  with assms(1,2) have "q = Insert_ignore ''project_sync_lock'' [(''id'', Number 1)]"
    by (auto simp: all_migrations_def migration_defs)
  then show ?thesis using sentinel_again assms(3,4) by blast
next
  case (Modify_column name c)
  with assms(1,2) have "name \<noteq> ''project_sync_lock''" by (auto simp: all_migrations_def migration_defs)
  with Modify_column show ?thesis using lock_declared_alter[OF alters(1)] assms(3,4) by blast
next
  case (Add_columns name cs)
  with assms(1,2) have "name \<noteq> ''project_sync_lock''" by (auto simp: all_migrations_def migration_defs)
  with Add_columns show ?thesis using lock_declared_alter[OF alters(2)] assms(3,4) by blast
next
  case (Add_check name constraint e)
  with assms(1,2) have "name \<noteq> ''project_sync_lock''" by (auto simp: all_migrations_def migration_defs)
  with Add_check show ?thesis using lock_declared_alter[OF alters(3)] assms(3,4) by blast
qed

lemma lock_stays_declared:
  assumes "m \<in> set all_migrations" and "lock_declared d"
  shows "lock_declared (snd (run_sql C (take k (mg_sql m)) d))"
proof -
  have "set qs \<subseteq> set (mg_sql m) \<Longrightarrow> lock_declared d \<Longrightarrow> lock_declared (snd (run_sql C qs d))" for qs d
    by (induction qs arbitrary: d) (auto split: sum.split dest: lock_declared_stmt[OF assms(1)])
  then show ?thesis using assms(2) set_take_subset[of k "mg_sql m"] by blast
qed

text \<open>C24. A migration from the fourth on that is cut off - by an error or a crash, after any number of
  its statements - and run again from its start at the next boot ends as it would have ended uncut:
  with the same error or none, and the same database. Migrations 4, 6 and 7 do so on any database
  whatever; migration 5, which creates \<open>project_sync_lock\<close> where it is not there, on any database
  whose table of that name, if it has one, is declared as the migration declares it - as it is in
  whatever the migrations themselves, cut off anywhere, make of such a database.\<close>

theorem rerun_after_failure:
  assumes "m \<in> set all_migrations" and "4 \<le> mg_version m"
    and lock: "mg_version m = 5 \<Longrightarrow> lock_declared d"
  shows "run_sql C (mg_sql m) (snd (run_sql C (take k (mg_sql m)) d)) = run_sql C (mg_sql m) d
    \<and> (lock_declared d \<longrightarrow> lock_declared (snd (run_sql C (take k (mg_sql m)) d)))"
proof -
  have "m \<in> {pin_the_path_collation, project_sync_lock, project_class_columns, project_grant}"
    using assms(1,2) by (auto simp: all_migrations_def create_project_def project_alias_def project_write_idempotency_def)
  moreover have "mg_version project_sync_lock = 5" by (simp add: project_sync_lock_def)
  ultimately have "rerunnable any_db C (mg_sql m) \<or> rerunnable lock_declared C (mg_sql m) \<and> lock_declared d"
    using lock migration_4_rerunnable migration_5_rerunnable migration_6_rerunnable migration_7_rerunnable by blast
  then show ?thesis using rerun_is_run[of any_db] rerun_is_run[of lock_declared] lock_stays_declared[OF assms(1)]
    by blast
qed

end
