(* ===== verification/Schema_Spec.thy ===== *)
theory Schema_Spec
  imports Migrations_Spec Invariant
begin

text \<open>
  The store the operations work on (\<open>Store\<close>) against the schema the migrations create: a store and
  a database correspond, and the three \<open>INSERT\<close>s of the code are refused by the tables' own
  declarations - types, CHECKs, the foreign key, the unique keys - exactly when the store refuses
  them, for the same reason, and otherwise keep the correspondence.
\<close>

section \<open>Rows as the tables hold them\<close>

definition nullable_text :: "string option \<Rightarrow> sql_value" where
  "nullable_text v = (case v of None \<Rightarrow> Null | Some s \<Rightarrow> Text s)"

definition nullable_number :: "int option \<Rightarrow> sql_value" where
  "nullable_number v = (case v of None \<Rightarrow> Null | Some i \<Rightarrow> Number i)"

definition project_values :: "project_row \<Rightarrow> sql_value list" where
  "project_values r =
     [Text (id_of r), Number (int (version r)), Text (path r), Text (display_name r),
      Number (row_status r), nullable_text (source_repo r), nullable_text (owner_user_id r),
      Number (row_visibility r), Text (created_by r), Text (updated_by r), Number (created_at r),
      Number (updated_at r), nullable_number (last_seen_at r)]"

definition alias_values :: "alias_row \<Rightarrow> int \<Rightarrow> sql_value list" where
  "alias_values a at = [Text (alias_path a), Text (alias_project a), Number at]"

definition write_values :: "write_row \<Rightarrow> int \<Rightarrow> sql_value list" where
  "write_values w at =
     [Text (w_project_id w), Text (w_user_id w), Text (w_key w), Text (w_rpc w), Text (w_response w),
      Text (w_fingerprint w), Number at]"

definition grant_values :: "grant_row \<Rightarrow> sql_value list" where
  "grant_values g = [Text (g_project_id g), Text (g_team_id g), Number (g_level g)]"

definition holds_store :: "store \<Rightarrow> db \<Rightarrow> bool" where
  "holds_store s d \<longleftrightarrow>
     d ''project'' = Some (project_table\<lparr>t_rows := map project_values (projects s)\<rparr>)
     \<and> (\<exists>rows. d ''project_alias'' = Some (alias_table\<lparr>t_rows := rows\<rparr>)
          \<and> list_all2 (\<lambda>a v. \<exists>at. v = alias_values a at) (aliases s) rows)
     \<and> (\<exists>rows. d ''project_write'' = Some (write_table\<lparr>t_rows := rows\<rparr>)
          \<and> list_all2 (\<lambda>w v. \<exists>at. v = write_values w at) (writes s) rows)
     \<and> d ''project_sync_lock'' = Some (lock_table\<lparr>t_rows := map (\<lambda>n. [Number (int n)]) (sync_lock s)\<rparr>)
     \<and> d ''project_grant'' = Some (grant_table\<lparr>t_rows := map grant_values (grants s)\<rparr>)"

text \<open>An engine error as the driver reports it.\<close>

definition reported :: "engine_error \<Rightarrow> sqlx_error" where
  "reported e =
     (case e of
        Check_failed _ \<Rightarrow> check_violation
      | Duplicate_entry _ \<Rightarrow> unique_violation
      | No_referenced_row _ \<Rightarrow> foreign_key_violation
      | Out_of_range _ \<Rightarrow> data_too_long
      | Null_in _ \<Rightarrow> data_too_long
      | _ \<Rightarrow> Other_error)"

section \<open>\<open>project\<close>\<close>

definition bound_columns :: "project_row \<Rightarrow> (string \<times> sql_value) list" where
  "bound_columns r =
     [(''id'', Text (id_of r)), (''version'', Number (int (version r))), (''path'', Text (path r)),
      (''display_name'', Text (display_name r)), (''status'', Number (row_status r)),
      (''source_repo'', nullable_text (source_repo r)), (''owner_user_id'', nullable_text (owner_user_id r)),
      (''visibility'', Number (row_visibility r)), (''created_by'', Text (created_by r)),
      (''updated_by'', Text (updated_by r))]"

text \<open>The row an \<open>INSERT\<close> of those columns makes: its times are the statement's, and it was never
  seen.\<close>

definition fresh_row :: "int \<Rightarrow> project_row \<Rightarrow> bool" where
  "fresh_row now r \<longleftrightarrow>
     created_at r = now \<and> updated_at r = now \<and> last_seen_at r = None \<and> version r < 2 ^ 64
     \<and> row_status r \<in> {-128..127} \<and> row_visibility r \<in> {-128..127}"

lemma nullable_text_Null [simp]: "nullable_text v = Null \<longleftrightarrow> v = None"
  by (cases v) (simp_all add: nullable_text_def)

lemma project_full_row:
  "fresh_row now r \<Longrightarrow> full_row now (t_columns project_table) (bound_columns r) = Inr (project_values r)"
  by (simp add: project_table_def bound_columns_def col_def default_value_def fresh_row_def project_values_def
      nullable_number_def)

lemma nullable_fits: "value_fits (VARCHAR n) (nullable_text v) \<longleftrightarrow> fits_nullable n v"
  by (cases v) (simp_all add: nullable_text_def fits_nullable_def fits_def)

lemma project_width:
  assumes "fresh_row now r"
  shows "map_option reported (row_width_refusal (t_columns project_table) (project_values r))
     = (if row_fits r then None else Some data_too_long)"
  using assms
  by (simp add: project_table_def project_values_def col_def column_refusal_def fresh_row_def row_fits_def
      nullable_fits fits_def nullable_number_def reported_def)

lemma project_cells [simp]:
  "cell (project_table\<lparr>t_rows := rs\<rparr>) (project_values r) ''id'' = Text (id_of r)"
  "cell (project_table\<lparr>t_rows := rs\<rparr>) (project_values r) ''path'' = Text (path r)"
  "cell (project_table\<lparr>t_rows := rs\<rparr>) (project_values r) ''source_repo'' = nullable_text (source_repo r)"
  "cell (project_table\<lparr>t_rows := rs\<rparr>) (project_values r) ''owner_user_id'' = nullable_text (owner_user_id r)"
  "collation_of (project_table\<lparr>t_rows := rs\<rparr>) ''path'' = General_ci"
  "collation_of (project_table\<lparr>t_rows := rs\<rparr>) ''id'' = Server_default"
  by (simp_all add: cell_def collation_of_def project_table_def project_values_def col_def)

lemma project_check:
  "map_option reported (check_refusal C (project_table\<lparr>t_rows := rs\<rparr>) (project_values r))
     = (if class_ok C r then None else Some check_violation)"
proof -
  have checks: "t_checks (project_table\<lparr>t_rows := rs\<rparr>)
      = [(''ck_project_class'', ck_project_class), (''ck_project_class_path'', ck_project_class_path)]"
    by (simp add: project_table_def)
  show ?thesis unfolding check_refusal_def checks
    by (auto simp: ck_project_class_def ck_project_class_path_def sql_not_def sql_same_def class_ok_def
        weigh_def reported_def)
qed

lemma meet_single:
  "cell t a n = Text x \<Longrightarrow> cell t b n = Text y \<Longrightarrow>
     meet_in C t [n] a b \<longleftrightarrow> weigh C (collation_of t n) x = weigh C (collation_of t n) y"
  by (simp add: meet_in_def key_cell_def)

lemma project_duplicate:
  "map_option reported (duplicate_of C (project_table\<lparr>t_rows := map project_values ps\<rparr>) (project_values r))
     = (if list_ex (\<lambda>q. same_id C (id_of q) (id_of r) \<or> same_path C (path q) (path r)) ps
        then Some unique_violation else None)"
proof -
  let ?t = "project_table\<lparr>t_rows := map project_values ps\<rparr>"
  have keys: "uniques ?t = [(''PRIMARY'', [''id'']), (''uq_project_path'', [''path''])]"
    by (simp add: uniques_def project_table_def)
  have "meet_in C ?t [''id''] (project_values q) (project_values r) = same_id C (id_of q) (id_of r)"
    and "meet_in C ?t [''path''] (project_values q) (project_values r) = same_path C (path q) (path r)" for q
    by (simp_all add: meet_single weigh_def same_id_def same_path_def)
  then show ?thesis unfolding duplicate_of_def keys
    by (auto simp: list_ex_iff reported_def)
qed

lemma project_reference:
  "first_refusal (reference_refusal C d t row) (t_keys (project_table\<lparr>t_rows := rs\<rparr>)) = None"
  by (simp add: project_table_def)

text \<open>The four questions the engine asks of a new row.\<close>

lemma reported_refusal:
  "map_option reported (insert_refusal C d t row) =
     (case map_option reported (row_width_refusal (t_columns t) row) of
        Some e \<Rightarrow> Some e
      | None \<Rightarrow>
          (case map_option reported (check_refusal C t row) of
             Some e \<Rightarrow> Some e
           | None \<Rightarrow>
               (case map_option reported (first_refusal (reference_refusal C d t row) (t_keys t)) of
                  Some e \<Rightarrow> Some e
                | None \<Rightarrow> map_option reported (duplicate_of C t row))))"
  by (simp add: insert_refusal_def split: option.splits)

text \<open>What a statement of the store and one of the database have in common.\<close>

definition refines :: "sqlx_error + (unit \<times> store) \<Rightarrow> engine_error + db \<Rightarrow> bool" where
  "refines answer result \<longleftrightarrow>
     (case result of
        Inl e \<Rightarrow> answer = Inl (reported e)
      | Inr d \<Rightarrow> (\<exists>s'. answer = Inr ((), s') \<and> holds_store s' d))"

lemma insert_refines:
  assumes "d name = Some t" and "full_row now (t_columns t) given = Inr row"
    and refusal: "map_option reported (insert_refusal C d t row) = (case answer of Inl e \<Rightarrow> Some e | Inr _ \<Rightarrow> None)"
    and kept: "\<And>s'. answer = Inr ((), s') \<Longrightarrow> holds_store s' (d(name \<mapsto> t\<lparr>t_rows := t_rows t @ [row]\<rparr>))"
  shows "refines answer (insert_into C now name given d)"
proof (cases "insert_refusal C d t row")
  case (Some e)
  then show ?thesis using assms(1,2) refusal
    by (cases answer) (auto simp: insert_into_def refines_def)
next
  case None
  then obtain s' where "answer = Inr ((), s')" using refusal by (cases answer) auto
  with None kept show ?thesis using assms(1,2) by (simp add: insert_into_def refines_def)
qed

lemma insert_project_refines:
  assumes "holds_store s d" and "fresh_row now (row now)"
  shows "refines (insert_project C row now s) (insert_into C now ''project'' (bound_columns (row now)) d)"
proof (rule insert_refines)
  let ?t = "project_table\<lparr>t_rows := map project_values (projects s)\<rparr>" and ?v = "project_values (row now)"
  show "d ''project'' = Some ?t" using assms(1) by (simp add: holds_store_def)
  show "full_row now (t_columns ?t) (bound_columns (row now)) = Inr ?v"
    using project_full_row[OF assms(2)] by simp
  have width: "map_option reported (row_width_refusal (t_columns ?t) ?v)
      = (if row_fits (row now) then None else Some data_too_long)"
    using project_width[OF assms(2)] by simp
  show "map_option reported (insert_refusal C d ?t ?v)
      = (case insert_project C row now s of Inl e \<Rightarrow> Some e | Inr _ \<Rightarrow> None)"
    unfolding reported_refusal project_check project_duplicate project_reference width
    by (simp add: row_refusal_def insert_project_def)
  show "holds_store s' (d(''project'' \<mapsto> ?t\<lparr>t_rows := t_rows ?t @ [?v]\<rparr>))"
    if "insert_project C row now s = Inr ((), s')" for s'
    using assms(1) that by (auto simp: insert_project_Inr holds_store_def)
qed

section \<open>\<open>project_grant\<close>\<close>

definition grant_columns :: "grant_row \<Rightarrow> (string \<times> sql_value) list" where
  "grant_columns g =
     [(''project_id'', Text (g_project_id g)), (''team_id'', Text (g_team_id g)), (''level'', Number (g_level g))]"

lemma grant_cells [simp]:
  "cell (grant_table\<lparr>t_rows := rs\<rparr>) (grant_values g) ''project_id'' = Text (g_project_id g)"
  "cell (grant_table\<lparr>t_rows := rs\<rparr>) (grant_values g) ''team_id'' = Text (g_team_id g)"
  "cell (grant_table\<lparr>t_rows := rs\<rparr>) (grant_values g) ''level'' = Number (g_level g)"
  "collation_of (grant_table\<lparr>t_rows := rs\<rparr>) ''project_id'' = Server_default"
  "collation_of (grant_table\<lparr>t_rows := rs\<rparr>) ''team_id'' = Server_default"
  by (simp_all add: cell_def collation_of_def grant_table_def grant_values_def col_def)

lemma insert_grant_refines:
  assumes "holds_store s d" and "g_level g \<in> {-128..127}"
  shows "refines (insert_grant C g now s) (insert_into C now ''project_grant'' (grant_columns g) d)"
proof (rule insert_refines)
  let ?t = "grant_table\<lparr>t_rows := map grant_values (grants s)\<rparr>" and ?v = "grant_values g"
  let ?p = "project_table\<lparr>t_rows := map project_values (projects s)\<rparr>"
  show "d ''project_grant'' = Some ?t" using assms(1) by (simp add: holds_store_def)
  have p: "d ''project'' = Some ?p" using assms(1) by (simp add: holds_store_def)
  show "full_row now (t_columns ?t) (grant_columns g) = Inr ?v"
    by (simp add: grant_table_def grant_columns_def col_def grant_values_def)
  have width: "map_option reported (row_width_refusal (t_columns ?t) ?v)
      = (if fits 96 (g_project_id g) \<and> fits 96 (g_team_id g) then None else Some data_too_long)"
    using assms(2)
    by (simp add: grant_table_def grant_values_def col_def column_refusal_def fits_def reported_def)
  have check: "map_option reported (check_refusal C ?t ?v)
      = (if g_level g \<in> {1, 2} then None else Some check_violation)"
  proof -
    have "t_checks ?t = [(''ck_project_grant_level'', Column_in ''level'' [1, 2])]" by (simp add: grant_table_def)
    then show ?thesis by (simp add: check_refusal_def reported_def)
  qed
  have reference: "map_option reported (first_refusal (reference_refusal C d ?t ?v) (t_keys ?t))
      = (if list_ex (\<lambda>r. same_id C (id_of r) (g_project_id g)) (projects s) then None
         else Some foreign_key_violation)"
  proof -
    have keys: "t_keys ?t = [Primary_key [''project_id'', ''team_id''],
        Foreign_key ''fk_project_grant_project'' [''project_id''] ''project'' [''id'']]"
      by (simp add: grant_table_def)
    show ?thesis unfolding keys
      by (auto simp: p key_cell_def weigh_def same_id_def list_ex_iff reported_def split: if_splits)
  qed
  have duplicate: "map_option reported (duplicate_of C ?t ?v)
      = (if list_ex (\<lambda>h. grant_key C h = grant_key C g) (grants s) then Some unique_violation else None)"
  proof -
    have keys: "uniques ?t = [(''PRIMARY'', [''project_id'', ''team_id''])]"
      by (simp add: grant_table_def uniques_def)
    show ?thesis unfolding duplicate_of_def keys
      by (auto simp: meet_in_def key_cell_def weigh_def grant_key_def list_ex_iff reported_def)
  qed
  show "map_option reported (insert_refusal C d ?t ?v)
      = (case insert_grant C g now s of Inl e \<Rightarrow> Some e | Inr _ \<Rightarrow> None)"
    unfolding reported_refusal width check reference duplicate
    by (simp add: grant_refusal_def insert_grant_def)
  show "holds_store s' (d(''project_grant'' \<mapsto> ?t\<lparr>t_rows := t_rows ?t @ [?v]\<rparr>))"
    if "insert_grant C g now s = Inr ((), s')" for s'
    using assms(1) that by (auto simp: insert_grant_def holds_store_def split: option.splits if_splits)
qed

section \<open>\<open>project_write\<close>\<close>

definition write_columns :: "write_row \<Rightarrow> (string \<times> sql_value) list" where
  "write_columns w =
     [(''project_id'', Text (w_project_id w)), (''user_id'', Text (w_user_id w)), (''idem_key'', Text (w_key w)),
      (''rpc'', Text (w_rpc w)), (''response'', Text (w_response w)),
      (''request_fingerprint'', Text (w_fingerprint w))]"

lemma write_cells [simp]:
  "cell (write_table\<lparr>t_rows := rs\<rparr>) (write_values w at) ''project_id'' = Text (w_project_id w)"
  "cell (write_table\<lparr>t_rows := rs\<rparr>) (write_values w at) ''user_id'' = Text (w_user_id w)"
  "cell (write_table\<lparr>t_rows := rs\<rparr>) (write_values w at) ''idem_key'' = Text (w_key w)"
  "collation_of (write_table\<lparr>t_rows := rs\<rparr>) ''project_id'' = Server_default"
  "collation_of (write_table\<lparr>t_rows := rs\<rparr>) ''user_id'' = Server_default"
  "collation_of (write_table\<lparr>t_rows := rs\<rparr>) ''idem_key'' = Server_default"
  by (simp_all add: cell_def collation_of_def write_table_def write_values_def col_def)

lemma list_ex_related:
  assumes "list_all2 (\<lambda>x y. \<exists>at. y = f x at) xs ys" and "\<And>x at. P (f x at) = Q x"
  shows "list_ex P ys = list_ex Q xs"
  using assms by (induction xs ys rule: list_all2_induct) auto

lemma insert_write_refines:
  assumes "holds_store s d" and "length (w_fingerprint w) \<le> 32"
  shows "refines (insert_write C w now s) (insert_into C now ''project_write'' (write_columns w) d)"
proof -
  from assms(1) obtain rows where t: "d ''project_write'' = Some (write_table\<lparr>t_rows := rows\<rparr>)"
    and rows: "list_all2 (\<lambda>w v. \<exists>at. v = write_values w at) (writes s) rows"
    by (auto simp: holds_store_def)
  let ?t = "write_table\<lparr>t_rows := rows\<rparr>" and ?v = "write_values w now"
  show ?thesis
  proof (rule insert_refines)
    show "d ''project_write'' = Some ?t" by (rule t)
    show "full_row now (t_columns ?t) (write_columns w) = Inr ?v"
      by (simp add: write_table_def write_columns_def col_def write_values_def default_value_def)
    have width: "map_option reported (row_width_refusal (t_columns ?t) ?v)
        = (if write_fits w then None else Some data_too_long)"
      using assms(2)
      by (simp add: write_table_def write_values_def col_def column_refusal_def write_fits_def fits_def reported_def)
    have check: "check_refusal C ?t ?v = None" by (simp add: check_refusal_def write_table_def)
    have reference: "first_refusal (reference_refusal C d ?t ?v) (t_keys ?t) = None" by (simp add: write_table_def)
    have "meet_in C ?t [''project_id'', ''user_id'', ''idem_key''] (write_values v at) ?v
        = (ledger_key C v = ledger_key C w)" for v at
      by (auto simp: meet_in_def key_cell_def weigh_def ledger_key_def)
    then have "list_ex (\<lambda>r. meet_in C ?t [''project_id'', ''user_id'', ''idem_key''] r ?v) rows
        = list_ex (\<lambda>v. ledger_key C v = ledger_key C w) (writes s)"
      by (rule list_ex_related[OF rows])
    moreover have keys: "uniques ?t = [(''PRIMARY'', [''project_id'', ''user_id'', ''idem_key''])]"
      by (simp add: write_table_def uniques_def)
    ultimately have duplicate: "map_option reported (duplicate_of C ?t ?v)
        = (if list_ex (\<lambda>v. ledger_key C v = ledger_key C w) (writes s) then Some unique_violation else None)"
      unfolding duplicate_of_def keys by (simp add: reported_def)
    show "map_option reported (insert_refusal C d ?t ?v)
        = (case insert_write C w now s of Inl e \<Rightarrow> Some e | Inr _ \<Rightarrow> None)"
      unfolding reported_refusal width check reference duplicate
      by (simp add: insert_write_def)
    show "holds_store s' (d(''project_write'' \<mapsto> ?t\<lparr>t_rows := t_rows ?t @ [?v]\<rparr>))"
      if "insert_write C w now s = Inr ((), s')" for s'
    proof -
      have s': "s' = s\<lparr>writes := writes s @ [w]\<rparr>" using that by (auto simp: insert_write_def split: if_splits)
      have "list_all2 (\<lambda>w v. \<exists>at. v = write_values w at) (writes s @ [w]) (rows @ [?v])"
        using rows by (auto intro: list_all2_appendI)
      then show ?thesis unfolding s' using assms(1) by (auto simp: holds_store_def)
    qed
  qed
qed

section \<open>The correspondence\<close>

text \<open>C7. The store the service is proved about is the schema the migrations make. A fresh install
  corresponds to the empty store; and from a corresponding state each \<open>INSERT\<close> - of a project, of a
  ledger row, of a grant, with the columns the code binds and the rest left to the declared
  defaults - is refused by the tables' types, CHECKs, keys and foreign key exactly when the store
  refuses it and with the error the driver would report, or leaves them corresponding.\<close>

theorem store_is_the_schema:
  assumes "holds_store s d" and "fresh_row now (row now)" and "length (w_fingerprint w) \<le> 32"
    and "g_level g \<in> {-128..127}"
  shows "(\<exists>d. run_sql C (script_after 0 all_migrations) Map.empty = (None, d) \<and> holds_store empty_store d)
    \<and> refines (insert_project C row now s) (insert_into C now ''project'' (bound_columns (row now)) d)
    \<and> refines (insert_write C w now s) (insert_into C now ''project_write'' (write_columns w) d)
    \<and> refines (insert_grant C g now s) (insert_into C now ''project_grant'' (grant_columns g) d)"
proof (intro conjI)
  have "holds_store empty_store (fresh_schema(''project_sync_lock'' \<mapsto> lock_table\<lparr>t_rows := [[Number 1]]\<rparr>))"
    by (simp add: holds_store_def empty_store_def fresh_schema_def table_defs)
  then show "\<exists>d. run_sql C (script_after 0 all_migrations) Map.empty = (None, d) \<and> holds_store empty_store d"
    unfolding fresh_run by blast
qed (rule insert_project_refines insert_write_refines insert_grant_refines, rule assms, rule assms)+

end
