(* ===== verification/Pin.thy ===== *)
theory Pin
  imports Migrations_Spec
begin

text \<open>
  Migration 4 on a store with rows: \<open>src/schema.rs\<close> says of \<open>pin_the_path_collation\<close> that it can
  fail in exactly one case. The store before it has its path columns on the server's collation and
  keeps its own keys.
\<close>

section \<open>The tables before the pin\<close>

definition unpinned_project :: table where
  "unpinned_project =
     redeclare (col ''path'' (VARCHAR 255) Server_default False No_default) v0_1_table"

definition unpinned_alias :: table where
  "unpinned_alias =
     redeclare (col ''alias_path'' (VARCHAR 255) Server_default False No_default) alias_table"

text \<open>They are what the migrations before it create.\<close>

lemma unpinned_created:
  "run_sql C (mg_sql v0_1_create_project @ mg_sql project_alias) Map.empty
     = (None, [''project'' \<mapsto> unpinned_project, ''project_alias'' \<mapsto> unpinned_alias])"
  by (simp add: v0_1_create_project_def project_alias_def unpinned_project_def unpinned_alias_def
      redeclare_def table_defs col_def)

lemma pinned_again:
  "redeclare (col ''path'' (VARCHAR 255) General_ci False No_default) (unpinned_project\<lparr>t_rows := rs\<rparr>)
     = v0_1_table\<lparr>t_rows := rs\<rparr>"
  "redeclare (col ''alias_path'' (VARCHAR 255) General_ci False No_default) (unpinned_alias\<lparr>t_rows := as\<rparr>)
     = alias_table\<lparr>t_rows := as\<rparr>"
  by (simp_all add: unpinned_project_def unpinned_alias_def redeclare_def table_defs col_def)

section \<open>Rows with a path\<close>

text \<open>The path of a row, by its place.\<close>

definition text_at :: "nat \<Rightarrow> sql_value list \<Rightarrow> string" where
  "text_at i row = (case row ! i of Text s \<Rightarrow> s | _ \<Rightarrow> [])"

definition path_row :: "nat \<Rightarrow> nat \<Rightarrow> sql_value list \<Rightarrow> bool" where
  "path_row width i row \<longleftrightarrow>
     length row = width \<and> row ! i = Text (text_at i row) \<and> chars_count (text_at i row) \<le> 255"

lemma three_cells:
  assumes "length row = 3"
  obtains a b c where "row = [a, b, c]"
  using assms by (auto simp: eval_nat_numeral length_Suc_conv)

lemma project_path_cells:
  assumes "length row = 10"
  shows "cell (v0_1_table\<lparr>t_rows := rs\<rparr>) row ''path'' = row ! 2"
    and "cell (unpinned_project\<lparr>t_rows := rs\<rparr>) row ''path'' = row ! 2"
    and "cell (v0_1_table\<lparr>t_rows := rs\<rparr>) row ''id'' = row ! 0"
    and "cell (unpinned_project\<lparr>t_rows := rs\<rparr>) row ''id'' = row ! 0"
  using assms by (elim ten_cells; simp add: cell_def unpinned_project_def redeclare_def v0_1_table_def col_def)+

lemma alias_path_cells:
  assumes "length row = 3"
  shows "cell (alias_table\<lparr>t_rows := rs\<rparr>) row ''alias_path'' = row ! 0"
    and "cell (unpinned_alias\<lparr>t_rows := rs\<rparr>) row ''alias_path'' = row ! 0"
  using assms by (elim three_cells; simp add: cell_def unpinned_alias_def redeclare_def alias_table_def col_def)+

lemma path_collations:
  "collation_of (v0_1_table\<lparr>t_rows := rs\<rparr>) ''path'' = General_ci"
  "collation_of (unpinned_project\<lparr>t_rows := rs\<rparr>) ''path'' = Server_default"
  "collation_of (v0_1_table\<lparr>t_rows := rs\<rparr>) ''id'' = Server_default"
  "collation_of (unpinned_project\<lparr>t_rows := rs\<rparr>) ''id'' = Server_default"
  "collation_of (alias_table\<lparr>t_rows := rs\<rparr>) ''alias_path'' = General_ci"
  "collation_of (unpinned_alias\<lparr>t_rows := rs\<rparr>) ''alias_path'' = Server_default"
  by (simp_all add: collation_of_def unpinned_project_def unpinned_alias_def redeclare_def table_defs col_def)

lemma table_uniques:
  "uniques (v0_1_table\<lparr>t_rows := rs\<rparr>) = [(''PRIMARY'', [''id'']), (''uq_project_path'', [''path''])]"
  "uniques (unpinned_project\<lparr>t_rows := rs\<rparr>) = [(''PRIMARY'', [''id'']), (''uq_project_path'', [''path''])]"
  "uniques (alias_table\<lparr>t_rows := rs\<rparr>) = [(''PRIMARY'', [''alias_path''])]"
  "uniques (unpinned_alias\<lparr>t_rows := rs\<rparr>) = [(''PRIMARY'', [''alias_path''])]"
  by (simp_all add: uniques_def unpinned_project_def unpinned_alias_def redeclare_def table_defs)

section \<open>Meeting in a path\<close>

lemma some_pair_cong:
  "(\<And>a b. a \<in> set xs \<Longrightarrow> b \<in> set xs \<Longrightarrow> P a b = Q a b) \<Longrightarrow> some_pair P xs = some_pair Q xs"
proof (induction xs)
  case (Cons x xs)
  then have "list_ex (P x) xs = list_ex (Q x) xs" by (auto simp: list_ex_iff)
  with Cons show ?case by simp
qed simp

lemma some_pair_key: "some_pair (\<lambda>a b. f a = f b) xs \<longleftrightarrow> \<not> distinct (map f xs)"
  by (induction xs) (auto simp: list_ex_iff)

lemma meet_path:
  assumes "cell t a name = a ! i" and "cell t b name = b ! i" and "path_row w i a" and "path_row w i b"
  shows "meet_in C t [name] a b \<longleftrightarrow>
     weigh C (collation_of t name) (text_at i a) = weigh C (collation_of t name) (text_at i b)"
proof -
  from assms obtain x y where "a ! i = Text x" "b ! i = Text y" "text_at i a = x" "text_at i b = y"
    by (auto simp: path_row_def)
  then show ?thesis using assms(1,2) by (simp add: meet_in_def key_cell_def)
qed

lemma paths_meet:
  assumes "\<forall>row \<in> set rs. cell t row name = row ! i" and "\<forall>row \<in> set rs. path_row w i row"
  shows "some_pair (meet_in C t [name]) rs \<longleftrightarrow>
     \<not> distinct (map (weigh C (collation_of t name)) (map (text_at i) rs))"
proof -
  have "some_pair (meet_in C t [name]) rs
      = some_pair (\<lambda>a b. weigh C (collation_of t name) (text_at i a) = weigh C (collation_of t name) (text_at i b)) rs"
    using assms by (intro some_pair_cong meet_path[where w = w and i = i]) auto
  then show ?thesis by (simp add: some_pair_key comp_def)
qed

lemma width_kept:
  assumes "\<forall>row \<in> set rs. cell t row name = row ! i" and "\<forall>row \<in> set rs. path_row w i row"
  shows "first_refusal (\<lambda>row. column_refusal (col name (VARCHAR 255) coll False No_default) (cell t row name)) rs = None"
proof -
  have "column_refusal (col name (VARCHAR 255) coll False No_default) (cell t row name) = None"
    if "row \<in> set rs" for row
  proof -
    have "cell t row name = Text (text_at i row)" "chars_count (text_at i row) \<le> 255"
      using assms that by (auto simp: path_row_def)
    then show ?thesis by (simp add: column_refusal_def col_def)
  qed
  then show ?thesis by (induction rs) (auto split: option.split)
qed

section \<open>The pin\<close>

lemma pin_project:
  assumes rows: "\<forall>row \<in> set rs. path_row 10 2 row"
    and keys: "duplicates_in C (unpinned_project\<lparr>t_rows := rs\<rparr>) = None"
  shows "modify_column C (col ''path'' (VARCHAR 255) General_ci False No_default) (unpinned_project\<lparr>t_rows := rs\<rparr>)
      = (if distinct (map (ci_key C) (map (text_at 2) rs)) then Inr (v0_1_table\<lparr>t_rows := rs\<rparr>)
         else Inl (Duplicate_entry ''uq_project_path''))"
    and "distinct (map (srv_key C) (map (text_at 2) rs))"
proof -
  let ?c = "col ''path'' (VARCHAR 255) General_ci False No_default"
  let ?t = "v0_1_table\<lparr>t_rows := rs\<rparr>" and ?u = "unpinned_project\<lparr>t_rows := rs\<rparr>"
  have len: "\<forall>row \<in> set rs. length row = 10" using rows by (simp add: path_row_def)
  have cells: "\<forall>row \<in> set rs. cell ?t row ''path'' = row ! 2" "\<forall>row \<in> set rs. cell ?u row ''path'' = row ! 2"
    using len project_path_cells(1,2) by blast+
  have ids: "some_pair (meet_in C ?t [''id'']) rs = some_pair (meet_in C ?u [''id'']) rs"
  proof (rule some_pair_cong)
    fix a b assume "a \<in> set rs" "b \<in> set rs"
    then have "cell ?t a ''id'' = cell ?u a ''id''" "cell ?t b ''id'' = cell ?u b ''id''"
      using len project_path_cells(3,4) by simp_all
    moreover from this have "key_cell C ?t a ''id'' = key_cell C ?u a ''id''" "key_cell C ?t b ''id'' = key_cell C ?u b ''id''"
      unfolding key_cell_def path_collations by simp_all
    ultimately show "meet_in C ?t [''id''] a b = meet_in C ?u [''id''] a b" by (simp add: meet_in_def)
  qed
  have dup: "duplicates_in C t
      = (if some_pair (meet_in C t [''id'']) rs then Some (Duplicate_entry ''PRIMARY'')
         else if some_pair (meet_in C t [''path'']) rs then Some (Duplicate_entry ''uq_project_path'') else None)"
    if "uniques t = [(''PRIMARY'', [''id'']), (''uq_project_path'', [''path''])]" "t_rows t = rs" for t
    using that by (simp add: duplicates_in_def)
  have u: "\<not> some_pair (meet_in C ?u [''id'']) rs" "\<not> some_pair (meet_in C ?u [''path'']) rs"
    using keys dup[of ?u] table_uniques(2) by (auto split: if_splits)
  then show "distinct (map (srv_key C) (map (text_at 2) rs))"
    using paths_meet[OF cells(2) rows] by (simp add: path_collations weigh_def)
  have names: "list_ex (\<lambda>x. c_name x = c_name ?c) (t_columns ?u)"
    by (simp add: unpinned_project_def redeclare_def v0_1_table_def col_def)
  have fits: "first_refusal (\<lambda>row. column_refusal ?c (cell ?t row (c_name ?c))) (t_rows ?t) = None"
    using width_kept[OF cells(1) rows] by (simp add: col_def)
  have "duplicates_in C ?t = (if distinct (map (ci_key C) (map (text_at 2) rs)) then None
      else Some (Duplicate_entry ''uq_project_path''))"
    using dup[of ?t] table_uniques(1) ids u(1) paths_meet[OF cells(1) rows]
    by (simp add: path_collations weigh_def)
  then show "modify_column C ?c ?u
      = (if distinct (map (ci_key C) (map (text_at 2) rs)) then Inr ?t
         else Inl (Duplicate_entry ''uq_project_path''))"
    unfolding modify_column_def pinned_again Let_def fits using names by simp
qed

lemma pin_alias:
  assumes rows: "\<forall>row \<in> set as. path_row 3 0 row"
    and keys: "duplicates_in C (unpinned_alias\<lparr>t_rows := as\<rparr>) = None"
  shows "modify_column C (col ''alias_path'' (VARCHAR 255) General_ci False No_default) (unpinned_alias\<lparr>t_rows := as\<rparr>)
      = (if distinct (map (ci_key C) (map (text_at 0) as)) then Inr (alias_table\<lparr>t_rows := as\<rparr>)
         else Inl (Duplicate_entry ''PRIMARY''))"
    and "distinct (map (srv_key C) (map (text_at 0) as))"
proof -
  let ?c = "col ''alias_path'' (VARCHAR 255) General_ci False No_default"
  let ?t = "alias_table\<lparr>t_rows := as\<rparr>" and ?u = "unpinned_alias\<lparr>t_rows := as\<rparr>"
  have len: "\<forall>row \<in> set as. length row = 3" using rows by (simp add: path_row_def)
  have cells: "\<forall>row \<in> set as. cell ?t row ''alias_path'' = row ! 0" "\<forall>row \<in> set as. cell ?u row ''alias_path'' = row ! 0"
    using len alias_path_cells by blast+
  have dup: "duplicates_in C t
      = (if some_pair (meet_in C t [''alias_path'']) as then Some (Duplicate_entry ''PRIMARY'') else None)"
    if "uniques t = [(''PRIMARY'', [''alias_path''])]" "t_rows t = as" for t
    using that by (simp add: duplicates_in_def)
  show "distinct (map (srv_key C) (map (text_at 0) as))"
    using keys dup[of ?u] table_uniques(4) paths_meet[OF cells(2) rows]
    by (simp add: path_collations weigh_def split: if_splits)
  have names: "list_ex (\<lambda>x. c_name x = c_name ?c) (t_columns ?u)"
    by (simp add: unpinned_alias_def redeclare_def alias_table_def col_def)
  have fits: "first_refusal (\<lambda>row. column_refusal ?c (cell ?t row (c_name ?c))) (t_rows ?t) = None"
    using width_kept[OF cells(1) rows] by (simp add: col_def)
  have "duplicates_in C ?t = (if distinct (map (ci_key C) (map (text_at 0) as)) then None
      else Some (Duplicate_entry ''PRIMARY''))"
    using dup[of ?t] table_uniques(3) paths_meet[OF cells(1) rows] by (simp add: path_collations weigh_def)
  then show "modify_column C ?c ?u
      = (if distinct (map (ci_key C) (map (text_at 0) as)) then Inr ?t else Inl (Duplicate_entry ''PRIMARY''))"
    unfolding modify_column_def pinned_again Let_def fits using names by simp
qed

text \<open>C25. Pinning the collation fails in exactly one case, and loudly: on a store that keeps its own
  keys it is refused with the duplicate in \<open>uq_project_path\<close> when two stored paths are one path under
  the pinned collation (then nothing has changed), with the one in the former paths' key when two
  former paths are, and otherwise it succeeds; either way every row keeps its bytes. When the
  server's collation already tells no two of them apart that the pinned one takes for one - any
  case-insensitive collation over the path alphabet - it cannot fail.\<close>

theorem pin_refuses_collisions:
  assumes "d ''project'' = Some (unpinned_project\<lparr>t_rows := rs\<rparr>)"
    and "d ''project_alias'' = Some (unpinned_alias\<lparr>t_rows := as\<rparr>)"
    and "\<forall>row \<in> set rs. path_row 10 2 row" and "\<forall>row \<in> set as. path_row 3 0 row"
    and "duplicates_in C (unpinned_project\<lparr>t_rows := rs\<rparr>) = None"
    and "duplicates_in C (unpinned_alias\<lparr>t_rows := as\<rparr>) = None"
  shows "run_sql C (mg_sql pin_the_path_collation) d =
      (if \<not> distinct (map (ci_key C) (map (text_at 2) rs)) then (Some (Duplicate_entry ''uq_project_path''), d)
       else if \<not> distinct (map (ci_key C) (map (text_at 0) as))
       then (Some (Duplicate_entry ''PRIMARY''), d(''project'' \<mapsto> v0_1_table\<lparr>t_rows := rs\<rparr>))
       else (None, d(''project'' \<mapsto> v0_1_table\<lparr>t_rows := rs\<rparr>, ''project_alias'' \<mapsto> alias_table\<lparr>t_rows := as\<rparr>)))
    \<and> ((\<forall>xs \<in> {map (text_at 2) rs, map (text_at 0) as}. \<forall>x \<in> set xs. \<forall>y \<in> set xs.
          ci_key C x = ci_key C y \<longrightarrow> srv_key C x = srv_key C y) \<longrightarrow>
       fst (run_sql C (mg_sql pin_the_path_collation) d) = None)"
proof -
  have apart: "distinct (map (ci_key C) xs)"
    if "distinct (map (srv_key C) xs)" and "\<forall>x \<in> set xs. \<forall>y \<in> set xs. ci_key C x = ci_key C y \<longrightarrow> srv_key C x = srv_key C y"
    for xs
    using that unfolding distinct_map inj_on_def by blast
  note p = pin_project[OF assms(3,5)] and a = pin_alias[OF assms(4,6)]
  have run: "run_sql C (mg_sql pin_the_path_collation) d =
      (if \<not> distinct (map (ci_key C) (map (text_at 2) rs)) then (Some (Duplicate_entry ''uq_project_path''), d)
       else if \<not> distinct (map (ci_key C) (map (text_at 0) as))
       then (Some (Duplicate_entry ''PRIMARY''), d(''project'' \<mapsto> v0_1_table\<lparr>t_rows := rs\<rparr>))
       else (None, d(''project'' \<mapsto> v0_1_table\<lparr>t_rows := rs\<rparr>, ''project_alias'' \<mapsto> alias_table\<lparr>t_rows := as\<rparr>)))"
  proof -
    let ?ps = "map (ci_key C) (map (text_at 2) rs)" and ?as = "map (ci_key C) (map (text_at 0) as)"
    let ?d = "d(''project'' \<mapsto> v0_1_table\<lparr>t_rows := rs\<rparr>)"
    have first: "alter ''project'' (modify_column C (col ''path'' (VARCHAR 255) General_ci False No_default)) d
        = (if distinct ?ps then Inr ?d else Inl (Duplicate_entry ''uq_project_path''))"
      unfolding alter_def assms(1) option.case p(1) by (cases "distinct ?ps") simp_all
    have "?d ''project_alias'' = Some (unpinned_alias\<lparr>t_rows := as\<rparr>)" using assms(2) by simp
    then have second: "alter ''project_alias'' (modify_column C (col ''alias_path'' (VARCHAR 255) General_ci False No_default)) ?d
        = (if distinct ?as then Inr (?d(''project_alias'' \<mapsto> alias_table\<lparr>t_rows := as\<rparr>))
           else Inl (Duplicate_entry ''PRIMARY''))"
      unfolding alter_def by (simp only: option.case a(1)) (cases "distinct ?as"; simp)
    show ?thesis
      unfolding pin_the_path_collation_def migration.simps run_sql.simps alters first
      by (cases "distinct ?ps"; cases "distinct ?as") (simp_all only: if_True if_False sum.case second not_True_eq_False not_False_eq_True)
  qed
  show ?thesis
  proof (intro conjI impI)
    assume same: "\<forall>xs \<in> {map (text_at 2) rs, map (text_at 0) as}. \<forall>x \<in> set xs. \<forall>y \<in> set xs.
          ci_key C x = ci_key C y \<longrightarrow> srv_key C x = srv_key C y"
    have "distinct (map (ci_key C) (map (text_at 2) rs))" and "distinct (map (ci_key C) (map (text_at 0) as))"
      using same by (intro apart p(2) a(2); blast)+
    then show "fst (run_sql C (mg_sql pin_the_path_collation) d) = None"
      unfolding run by (simp only: if_False not_True_eq_False fst_conv)
  qed (rule run)
qed

end
