(* ===== verification/Schema_Examples.thy ===== *)
theory Schema_Examples
  imports Schema_Spec Pin
begin

text \<open>A legacy row of v0.1.x, the upgrade it stops, and the first rows of a fresh store.\<close>

definition plain :: collations where
  "plain = \<lparr>ci_key = general_ci, srv_key = general_ci\<rparr>"

definition legacy_row :: "sql_value list" where
  "legacy_row = [Text ''urn:x'', Number 1, Text ''tapir/legacy'', Text ''legacy'', Number 1, Text ''u1'',
     Text ''u1'', Number 0, Number 0, Null]"

definition legacy :: "string \<Rightarrow> sql_value list list" where
  "legacy = (\<lambda>name. [])(''project'' := [legacy_row])"

theorem upgrade_refused_example:
  "fst (run_sql plain (script_after 4 all_migrations) (filled v0_1_schema legacy)) = Some (Check_failed ''ck_project_class'')"
proof -
  have "\<forall>row \<in> set (legacy ''project''). length row = 10" by (simp add: legacy_def legacy_row_def)
  from upgrade_is_fresh[where rows = legacy and C = plain, OF this] show ?thesis by (simp add: legacy_def)
qed

text \<open>A database with a table of the lock's name and no key in it, which no migration made.\<close>

definition keyless_lock :: db where
  "keyless_lock = [''project_sync_lock'' \<mapsto> lock_table\<lparr>t_keys := []\<rparr>]"

text \<open>Migration 6, cut off in a store it cannot classify, and migration 7 where the lock has no key:
  what migration 5 presupposes does not concern them. Migration 5 itself, from nothing.\<close>

theorem rerun_example:
  "run_sql plain (mg_sql project_class_columns)
       (snd (run_sql plain (take 2 (mg_sql project_class_columns)) (filled v0_1_schema legacy)))
     = run_sql plain (mg_sql project_class_columns) (filled v0_1_schema legacy)
   \<and> run_sql plain (mg_sql project_grant) (snd (run_sql plain (take 1 (mg_sql project_grant)) keyless_lock))
     = run_sql plain (mg_sql project_grant) keyless_lock
   \<and> run_sql plain (mg_sql project_sync_lock) (snd (run_sql plain (take 1 (mg_sql project_sync_lock)) Map.empty))
     = run_sql plain (mg_sql project_sync_lock) Map.empty"
proof -
  have "project_class_columns \<in> set all_migrations" "mg_version project_class_columns = 6"
    "project_grant \<in> set all_migrations" "mg_version project_grant = 7"
    "project_sync_lock \<in> set all_migrations" "mg_version project_sync_lock = 5"
    by (simp_all add: all_migrations_def project_class_columns_def project_grant_def project_sync_lock_def)
  moreover have "lock_declared Map.empty" by (simp add: lock_declared_def)
  ultimately show ?thesis
    using rerun_after_failure[of project_class_columns "filled v0_1_schema legacy" plain 2]
      rerun_after_failure[of project_grant keyless_lock plain 1]
      rerun_after_failure[of project_sync_lock Map.empty plain 1] by simp
qed

lemma rerun_needs_the_key:
  "run_sql plain (mg_sql project_sync_lock) (snd (run_sql plain (mg_sql project_sync_lock) keyless_lock))
     \<noteq> run_sql plain (mg_sql project_sync_lock) keyless_lock"
proof -
  have once: "run_sql plain (mg_sql project_sync_lock) (keyless_lock(''project_sync_lock'' \<mapsto> lock_table\<lparr>t_keys := [], t_rows := rs\<rparr>))
      = (None, keyless_lock(''project_sync_lock'' \<mapsto> lock_table\<lparr>t_keys := [], t_rows := rs @ [[Number 1]]\<rparr>))" for rs
    by (simp add: project_sync_lock_def ddl_defs lock_table_def)
  have "keyless_lock = keyless_lock(''project_sync_lock'' \<mapsto> lock_table\<lparr>t_keys := [], t_rows := []\<rparr>)"
    by (simp add: keyless_lock_def lock_table_def)
  then have first: "run_sql plain (mg_sql project_sync_lock) keyless_lock
      = (None, keyless_lock(''project_sync_lock'' \<mapsto> lock_table\<lparr>t_keys := [], t_rows := [[Number 1]]\<rparr>))"
    using once[of "[]"] by simp
  have "map_option t_rows (snd (run_sql plain (mg_sql project_sync_lock)
      (snd (run_sql plain (mg_sql project_sync_lock) keyless_lock))) ''project_sync_lock'') = Some [[Number 1], [Number 1]]"
    unfolding first snd_conv once by simp
  moreover have "map_option t_rows (snd (run_sql plain (mg_sql project_sync_lock) keyless_lock) ''project_sync_lock'')
      = Some [[Number 1]]"
    unfolding first by simp
  ultimately show ?thesis by force
qed

definition first_project :: "int \<Rightarrow> project_row" where
  "first_project now =
     \<lparr>id_of = ''urn:1'', version = 1, path = ''acme'', display_name = ''Acme'', row_status = 1,
      source_repo = Some ''acme/registry'', owner_user_id = None, row_visibility = 3,
      created_by = ''u1'', updated_by = ''u1'', created_at = now, updated_at = now, last_seen_at = None\<rparr>"

lemma fresh_store_held:
  "holds_store empty_store (fresh_schema(''project_sync_lock'' \<mapsto> lock_table\<lparr>t_rows := [[Number 1]]\<rparr>))"
  by (simp add: holds_store_def empty_store_def fresh_schema_def table_defs)

theorem store_is_the_schema_example:
  "refines (insert_project plain first_project 7 empty_store)
     (insert_into plain 7 ''project'' (bound_columns (first_project 7))
       (fresh_schema(''project_sync_lock'' \<mapsto> lock_table\<lparr>t_rows := [[Number 1]]\<rparr>)))"
proof -
  let ?w = "\<lparr>w_project_id = [], w_user_id = [], w_key = ''k'', w_rpc = ''RegisterProject'', w_response = [],
      w_fingerprint = replicate 32 (CHR ''f'')\<rparr>"
  let ?g = "\<lparr>g_project_id = ''urn:1'', g_team_id = ''yadgar:team:core'', g_level = 1\<rparr>"
  have "fresh_row 7 (first_project 7)" by (simp add: fresh_row_def first_project_def)
  moreover have "length (w_fingerprint ?w) \<le> 32" and "g_level ?g \<in> {-128..127}" by simp_all
  ultimately show ?thesis using store_is_the_schema[OF fresh_store_held, of 7 first_project ?w ?g plain] by blast
qed

section \<open>Two spellings of one path\<close>

text \<open>A store of a server with a binary collation, holding a path in two spellings.\<close>

definition binary :: collations where
  "binary = \<lparr>ci_key = general_ci, srv_key = (\<lambda>s. s)\<rparr>"

definition two_spellings :: "sql_value list list" where
  "two_spellings =
     [[Text ''urn:1'', Number 1, Text ''acme/forecast'', Text ''f'', Number 1, Text ''u1'', Text ''u1'', Number 0, Number 0, Null],
      [Text ''urn:2'', Number 1, Text ''ACME/FORECAST'', Text ''f'', Number 1, Text ''u1'', Text ''u1'', Number 0, Number 0, Null]]"

lemma spellings_meet: "\<not> distinct (map (ci_key binary) (map (text_at 2) two_spellings))"
  by code_simp

lemma spellings_rows: "list_all (path_row 10 2) two_spellings"
  by code_simp

lemma spellings_kept:
  "case duplicates_in binary (unpinned_project\<lparr>t_rows := two_spellings\<rparr>) of None \<Rightarrow> True | Some _ \<Rightarrow> False"
  by code_simp

theorem pin_refused_example:
  "fst (run_sql binary (mg_sql pin_the_path_collation)
     [''project'' \<mapsto> unpinned_project\<lparr>t_rows := two_spellings\<rparr>, ''project_alias'' \<mapsto> unpinned_alias\<lparr>t_rows := []\<rparr>])
   = Some (Duplicate_entry ''uq_project_path'')"
proof -
  let ?d = "[''project'' \<mapsto> unpinned_project\<lparr>t_rows := two_spellings\<rparr>, ''project_alias'' \<mapsto> unpinned_alias\<lparr>t_rows := []\<rparr>]"
  have d: "?d ''project'' = Some (unpinned_project\<lparr>t_rows := two_spellings\<rparr>)"
    "?d ''project_alias'' = Some (unpinned_alias\<lparr>t_rows := []\<rparr>)" by simp_all
  have rows: "\<forall>row \<in> set two_spellings. path_row 10 2 row" "\<forall>row \<in> set []. path_row 3 0 row"
    using spellings_rows by (simp_all add: list_all_iff)
  have keys: "duplicates_in binary (unpinned_project\<lparr>t_rows := two_spellings\<rparr>) = None"
    using spellings_kept by (simp split: option.splits)
  have "duplicates_in binary (unpinned_alias\<lparr>t_rows := []\<rparr>) = None"
    by (simp add: duplicates_in_def find_None_iff split_beta)
  note pin = conjunct1[OF pin_refuses_collisions[OF d rows keys this]]
  show ?thesis unfolding pin if_P[OF spellings_meet] fst_conv ..
qed

end
