(* ===== verification/Boot.thy ===== *)
theory Boot
  imports Rust_Str
begin

text \<open>
  \<open>src/boot.rs\<close>, \<open>src/boot/lock.rs\<close> and the order of \<open>src/main.rs\<close>: what the process reads from its
  environment, what it refuses to start on, and what has to have succeeded before it touches the
  engine or opens a socket.

  A refusal is a value carrying what its sentence names: the variable, the chart key, the value and
  the reason. Third-party code is a parameter: \<open>parse_ssl_mode\<close> and \<open>LockOptions::new\<close> of
  \<open>yadgar-store\<close>, the widths of the numbers in its \<open>PoolConfig\<close>, the listener of \<open>yadgar-lifecycle\<close>.
\<close>

section \<open>Whole numbers: \<open>str::parse\<close>\<close>

datatype int_error = Empty_number | Invalid_digit | Pos_overflow | Neg_overflow

record int_type =
  it_signed :: bool
  it_min :: int
  it_max :: int

definition i32 :: int_type where
  "i32 = \<lparr>it_signed = True, it_min = - (2 ^ 31), it_max = 2 ^ 31 - 1\<rparr>"

definition u64 :: int_type where
  "u64 = \<lparr>it_signed = False, it_min = 0, it_max = 2 ^ 64 - 1\<rparr>"

definition u16 :: int_type where
  "u16 = \<lparr>it_signed = False, it_min = 0, it_max = 2 ^ 16 - 1\<rparr>"

definition digit_value :: "char \<Rightarrow> int option" where
  "digit_value c = (if 48 \<le> byte c \<and> byte c \<le> 57 then Some (int (byte c) - 48) else None)"

fun parse_up :: "int \<Rightarrow> int \<Rightarrow> string \<Rightarrow> int_error + int" where
  "parse_up most acc [] = Inr acc"
| "parse_up most acc (c # cs) =
     (case digit_value c of
        None \<Rightarrow> Inl Invalid_digit
      | Some d \<Rightarrow> (if acc * 10 + d > most then Inl Pos_overflow else parse_up most (acc * 10 + d) cs))"

fun parse_down :: "int \<Rightarrow> int \<Rightarrow> string \<Rightarrow> int_error + int" where
  "parse_down least acc [] = Inr acc"
| "parse_down least acc (c # cs) =
     (case digit_value c of
        None \<Rightarrow> Inl Invalid_digit
      | Some d \<Rightarrow> (if acc * 10 - d < least then Inl Neg_overflow else parse_down least (acc * 10 - d) cs))"

definition parse_int :: "int_type \<Rightarrow> string \<Rightarrow> int_error + int" where
  "parse_int ty s =
     (case s of
        [] \<Rightarrow> Inl Empty_number
      | c # rest \<Rightarrow>
          (if (c = CHR ''+'' \<or> c = CHR ''-'') \<and> rest = [] then Inl Invalid_digit
           else if c = CHR ''+'' then parse_up (it_max ty) 0 rest
           else if c = CHR ''-'' \<and> it_signed ty then parse_down (it_min ty) 0 rest
           else parse_up (it_max ty) 0 s))"

section \<open>\<open>str::trim\<close>\<close>

text \<open>The characters of White\_Space, as UTF-8.\<close>

definition white_space :: "string list" where
  "white_space =
     map (map char_of)
       ([[9], [10], [11], [12], [13], [32], [194, 133], [194, 160], [225, 154, 128],
         [226, 128, 168], [226, 128, 169], [226, 128, 175], [226, 129, 159], [227, 128, 128 :: nat]]
        @ map (\<lambda>n. [226, 128, n]) [128..<139])"

definition leading :: "string list \<Rightarrow> string \<Rightarrow> string option" where
  "leading ws s = find (\<lambda>w. w \<noteq> [] \<and> take (length w) s = w) ws"

lemma leading_Some: "leading ws s = Some w \<Longrightarrow> w \<in> set ws \<and> w \<noteq> [] \<and> s = w @ drop (length w) s"
  unfolding leading_def by (metis (mono_tags, lifting) append_take_drop_id find_Some_iff nth_mem)

function trim_with :: "string list \<Rightarrow> string \<Rightarrow> string" where
  "trim_with ws s = (case leading ws s of None \<Rightarrow> s | Some w \<Rightarrow> trim_with ws (drop (length w) s))"
  by pat_completeness auto
termination
proof (relation "measure (\<lambda>(ws, s). length s)")
  fix ws s w
  assume "leading ws s = Some w"
  then have "w \<noteq> []" and "s = w @ drop (length w) s" using leading_Some by blast+
  then have "0 < length w" and "0 < length s" by auto
  then show "((ws, drop (length w) s), ws, s) \<in> measure (\<lambda>(ws, s). length s)" by simp
qed simp

declare trim_with.simps [simp del]

definition trim :: "string \<Rightarrow> string" where
  "trim s = rev (trim_with (map rev white_space) (rev (trim_with white_space s)))"

section \<open>Refusals\<close>

datatype knob_refusal = Empty_knob string | Unset_knob string

datatype lock_refusal = Not_a_number int_error | Not_a_wait string

datatype boot_error =
    Listener_tls string
  | Listener_limits string
  | Signal_handler string
  | Missing_knob knob_refusal string
  | Migration_lock_wait string lock_refusal
  | Pool string
  | Unparsable string string string int_error

definition or_refuse :: "'e + 'a \<Rightarrow> ('a \<Rightarrow> 'e + 'b) \<Rightarrow> 'e + 'b" where
  "or_refuse r f = (case r of Inl e \<Rightarrow> Inl e | Inr x \<Rightarrow> f x)"

type_synonym environment = "string \<Rightarrow> string option"

definition env_required :: "environment \<Rightarrow> string \<Rightarrow> knob_refusal + string" where
  "env_required env key =
     (case env key of
        Some value \<Rightarrow> (if value \<noteq> [] then Inr value else Inl (Empty_knob key))
      | None \<Rightarrow> Inl (Unset_knob key))"

definition env_required_chart :: "environment \<Rightarrow> string \<Rightarrow> string \<Rightarrow> boot_error + string" where
  "env_required_chart env key chart_key =
     (case env_required env key of
        Inl sentence \<Rightarrow> Inl (Missing_knob sentence chart_key) | Inr value \<Rightarrow> Inr value)"

definition parse_knob :: "int_type \<Rightarrow> string \<Rightarrow> string \<Rightarrow> string \<Rightarrow> boot_error + int" where
  "parse_knob ty raw key chart_key =
     (case parse_int ty raw of Inl e \<Rightarrow> Inl (Unparsable key chart_key raw e) | Inr n \<Rightarrow> Inr n)"

section \<open>The pool's configuration\<close>

definition SSL_MODE_KEY :: string where
  "SSL_MODE_KEY = ''DB_SSL_MODE''"

definition SSL_CA_KEY :: string where
  "SSL_CA_KEY = ''DB_SSL_CA_FILE''"

definition REPLICAS_CHART_KEY :: string where
  "REPLICAS_CHART_KEY =
     ''replicaCount (or autoscaling.maxReplicas when autoscaling.enabled is true)''"

definition ACQUIRE_TIMEOUT_KEY :: string where
  "ACQUIRE_TIMEOUT_KEY = ''DB_ACQUIRE_TIMEOUT_SECONDS''"

definition ACQUIRE_TIMEOUT_CHART_KEY :: string where
  "ACQUIRE_TIMEOUT_CHART_KEY = ''database.acquireTimeoutSeconds''"

definition IDLE_TIMEOUT_KEY :: string where
  "IDLE_TIMEOUT_KEY = ''DB_IDLE_TIMEOUT_SECONDS''"

definition IDLE_TIMEOUT_CHART_KEY :: string where
  "IDLE_TIMEOUT_CHART_KEY = ''database.idleTimeoutSeconds''"

definition MAX_LIFETIME_KEY :: string where
  "MAX_LIFETIME_KEY = ''DB_MAX_LIFETIME_SECONDS''"

definition MAX_LIFETIME_CHART_KEY :: string where
  "MAX_LIFETIME_CHART_KEY = ''database.maxLifetimeSeconds''"

definition OPERATOR_RESERVE_KEY :: string where
  "OPERATOR_RESERVE_KEY = ''DB_ENGINE_OPERATOR_RESERVE''"

definition OPERATOR_RESERVE_CHART_KEY :: string where
  "OPERATOR_RESERVE_CHART_KEY = ''database.engineOperatorReserve''"

text \<open>The integer types of \<open>PoolConfig\<close>'s fields; a \<open>Duration\<close> is counted in whole seconds, a
  \<open>u64\<close>.\<close>

record pool_types =
  ty_port :: int_type
  ty_max_connections :: int_type
  ty_replicas :: int_type
  ty_engine_max_connections :: int_type
  ty_operator_reserve :: int_type

record 'm pool_config =
  pc_host :: string
  pc_port :: int
  pc_database :: string
  pc_username :: string
  pc_max_connections :: int
  pc_replicas :: int
  pc_engine_max_connections :: int
  pc_operator_reserve :: int
  pc_acquire_timeout :: int
  pc_idle_timeout :: int
  pc_max_lifetime :: int
  pc_ssl_mode :: 'm
  pc_ssl_ca :: "string option"

definition number_knob :: "environment \<Rightarrow> int_type \<Rightarrow> string \<Rightarrow> string \<Rightarrow> boot_error + int" where
  "number_knob env ty key chart_key =
     or_refuse (env_required_chart env key chart_key) (\<lambda>raw. parse_knob ty raw key chart_key)"

definition ssl_ca :: "environment \<Rightarrow> string option" where
  "ssl_ca env =
     (case env SSL_CA_KEY of
        None \<Rightarrow> None
      | Some value \<Rightarrow> (let value = trim value in if value = [] then None else Some value))"

definition pool_config ::
  "pool_types \<Rightarrow> (string \<Rightarrow> string + 'm) \<Rightarrow> environment \<Rightarrow> boot_error + 'm pool_config" where
  "pool_config ty parse_ssl_mode env =
     or_refuse (env_required_chart env ''DB_HOST'' ''database.host'') (\<lambda>host.
     or_refuse (number_knob env (ty_port ty) ''DB_PORT'' ''database.port'') (\<lambda>port.
     or_refuse (env_required_chart env ''DB_NAME'' ''database.name'') (\<lambda>database.
     or_refuse (env_required_chart env ''DB_USER'' ''database.user'') (\<lambda>username.
     or_refuse (number_knob env (ty_max_connections ty) ''DB_MAX_CONNECTIONS''
                 ''database.maxConnections'') (\<lambda>max_connections.
     or_refuse (number_knob env (ty_replicas ty) ''REPLICAS'' REPLICAS_CHART_KEY) (\<lambda>replicas.
     or_refuse (number_knob env (ty_engine_max_connections ty) ''DB_ENGINE_MAX_CONNECTIONS''
                 ''database.engineMaxConnections'') (\<lambda>engine_max_connections.
     or_refuse (number_knob env (ty_operator_reserve ty) OPERATOR_RESERVE_KEY
                 OPERATOR_RESERVE_CHART_KEY) (\<lambda>operator_reserve.
     or_refuse (number_knob env u64 ACQUIRE_TIMEOUT_KEY ACQUIRE_TIMEOUT_CHART_KEY) (\<lambda>acquire_timeout.
     or_refuse (number_knob env u64 IDLE_TIMEOUT_KEY IDLE_TIMEOUT_CHART_KEY) (\<lambda>idle_timeout.
     or_refuse (number_knob env u64 MAX_LIFETIME_KEY MAX_LIFETIME_CHART_KEY) (\<lambda>max_lifetime.
     or_refuse (env_required_chart env SSL_MODE_KEY ''database.sslMode'') (\<lambda>mode_text.
     or_refuse (case parse_ssl_mode mode_text of Inl e \<Rightarrow> Inl (Pool e) | Inr m \<Rightarrow> Inr m) (\<lambda>ssl_mode.
       Inr \<lparr>pc_host = host, pc_port = port, pc_database = database, pc_username = username,
            pc_max_connections = max_connections, pc_replicas = replicas,
            pc_engine_max_connections = engine_max_connections,
            pc_operator_reserve = operator_reserve, pc_acquire_timeout = acquire_timeout,
            pc_idle_timeout = idle_timeout, pc_max_lifetime = max_lifetime,
            pc_ssl_mode = ssl_mode, pc_ssl_ca = ssl_ca env\<rparr>)))))))))))))"

section \<open>The migration lock's wait\<close>

definition MIGRATION_LOCK_TIMEOUT_KEY :: string where
  "MIGRATION_LOCK_TIMEOUT_KEY = ''DB_MIGRATION_LOCK_TIMEOUT_SECONDS''"

definition MIGRATION_LOCK_TIMEOUT_CHART_KEY :: string where
  "MIGRATION_LOCK_TIMEOUT_CHART_KEY = ''database.migrationLockTimeoutSeconds''"

definition migration_lock :: "(int \<Rightarrow> string + 'l) \<Rightarrow> environment \<Rightarrow> boot_error + 'l" where
  "migration_lock lock_options env =
     or_refuse (env_required_chart env MIGRATION_LOCK_TIMEOUT_KEY MIGRATION_LOCK_TIMEOUT_CHART_KEY) (\<lambda>raw.
     or_refuse (case parse_int i32 raw of
                  Inl e \<Rightarrow> Inl (Migration_lock_wait raw (Not_a_number e)) | Inr n \<Rightarrow> Inr n) (\<lambda>seconds.
     (case lock_options seconds of
        Inl e \<Rightarrow> Inl (Migration_lock_wait raw (Not_a_wait e)) | Inr lock \<Rightarrow> Inr lock)))"

section \<open>What is handed to the libraries\<close>

text \<open>\<open>boot/serve_tls.rs\<close>, \<open>probe_connect_options\<close> and \<open>shutdown\<close> hand their inputs to
  \<open>yadgar-lifecycle\<close> and \<open>yadgar-store\<close> and put the refusal in this module's error. The libraries'
  functions are arguments; \<open>chain\<close> flattens an error to its sentence.\<close>

definition LISTEN :: string where
  "LISTEN = ''LISTEN''"

definition TLS_CHART_KEY :: string where
  "TLS_CHART_KEY = ''tls''"

definition LIMITS_CHART_KEY :: string where
  "LIMITS_CHART_KEY = ''server.limits''"

definition refused_tls :: "('e \<Rightarrow> string) \<Rightarrow> 'e \<Rightarrow> boot_error" where
  "refused_tls chain e = Listener_tls (chain e)"

definition map_err :: "('e \<Rightarrow> 'f) \<Rightarrow> 'e + 'a \<Rightarrow> 'f + 'a" where
  "map_err f r = (case r of Inl e \<Rightarrow> Inl (f e) | Inr x \<Rightarrow> Inr x)"

definition listener_limits ::
  "(string \<Rightarrow> string \<Rightarrow> environment \<Rightarrow> 'e + 'limits) \<Rightarrow> ('e \<Rightarrow> string) \<Rightarrow> environment
   \<Rightarrow> boot_error + 'limits" where
  "listener_limits from_lookup chain lookup =
     map_err (\<lambda>e. Listener_limits (chain e)) (from_lookup LISTEN LIMITS_CHART_KEY lookup)"

definition listener_tls ::
  "(string \<Rightarrow> string \<Rightarrow> environment \<Rightarrow> 'e + 'tls option) \<Rightarrow> ('e \<Rightarrow> string) \<Rightarrow> environment
   \<Rightarrow> boot_error + 'tls option" where
  "listener_tls from_lookup chain lookup =
     map_err (refused_tls chain) (from_lookup LISTEN TLS_CHART_KEY lookup)"

definition server ::
  "('tls option \<Rightarrow> 'limits \<Rightarrow> 'e + 'server) \<Rightarrow> ('e \<Rightarrow> string) \<Rightarrow> 'tls option \<Rightarrow> 'limits
   \<Rightarrow> boot_error + 'server" where
  "server build chain tls limits = map_err (refused_tls chain) (build tls limits)"

definition probe_connect_options ::
  "('m pool_config \<Rightarrow> 'secret \<Rightarrow> string + 'options) \<Rightarrow> 'm pool_config \<Rightarrow> 'secret
   \<Rightarrow> boot_error + 'options" where
  "probe_connect_options connect_options config secret = map_err Pool (connect_options config secret)"

definition shutdown :: "string + 'future \<Rightarrow> boot_error + 'future" where
  "shutdown installed = map_err Signal_handler installed"

end
