(* ===== verification/Boot_Spec.thy ===== *)
theory Boot_Spec
  imports Boot
begin

text \<open>
  What the configuration promises: a number the chart renders is the number that is read; every
  required knob that is absent, empty or unreadable is refused by name, the first of them first; and
  the engine is neither connected to nor migrated, nor a socket opened, before everything the code
  puts ahead of it has succeeded.
\<close>

section \<open>Numbers\<close>

definition proper :: "int_type \<Rightarrow> bool" where
  "proper ty \<longleftrightarrow> it_min ty \<le> 0 \<and> 0 \<le> it_max ty \<and> (\<not> it_signed ty \<longrightarrow> it_min ty = 0)"

lemma proper_types [simp]: "proper i32" "proper u64" "proper u16"
  by (simp_all add: proper_def i32_def u64_def u16_def)

lemma digit_value_digit: "d < 10 \<Longrightarrow> digit_value (char_of (48 + d :: nat)) = Some (int d)"
  by (simp add: digit_value_def)

lemma parse_up_snoc:
  "parse_up most acc s = Inr n \<Longrightarrow> digit_value c = Some d \<Longrightarrow> n * 10 + d \<le> most \<Longrightarrow>
     parse_up most acc (s @ [c]) = Inr (n * 10 + d)"
  by (induction most acc s rule: parse_up.induct) (auto split: option.splits if_splits)

lemma parse_down_snoc:
  "parse_down least acc s = Inr n \<Longrightarrow> digit_value c = Some d \<Longrightarrow> least \<le> n * 10 - d \<Longrightarrow>
     parse_down least acc (s @ [c]) = Inr (n * 10 - d)"
  by (induction least acc s rule: parse_down.induct) (auto split: option.splits if_splits)

lemma parse_up_decimal: "int n \<le> most \<Longrightarrow> parse_up most 0 (decimal n) = Inr (int n)"
proof (induction n rule: decimal.induct)
  case (1 n)
  show ?case
  proof (cases "n < 10")
    case True
    then show ?thesis using 1 by (simp add: decimal.simps[of n] digit_value_digit)
  next
    case False
    then have "parse_up most 0 (decimal (n div 10)) = Inr (int (n div 10))" using 1 by simp
    moreover have "digit_value (char_of (48 + n mod 10)) = Some (int (n mod 10))" by (rule digit_value_digit) simp
    moreover have "int (n div 10) * 10 + int (n mod 10) = int n" by presburger
    ultimately show ?thesis using False 1 parse_up_snoc by (simp add: decimal.simps[of n])
  qed
qed

lemma parse_down_decimal: "least \<le> - int n \<Longrightarrow> parse_down least 0 (decimal n) = Inr (- int n)"
proof (induction n rule: decimal.induct)
  case (1 n)
  show ?case
  proof (cases "n < 10")
    case True
    then show ?thesis using 1 by (simp add: decimal.simps[of n] digit_value_digit)
  next
    case False
    then have "parse_down least 0 (decimal (n div 10)) = Inr (- int (n div 10))" using 1 by simp
    moreover have "digit_value (char_of (48 + n mod 10)) = Some (int (n mod 10))" by (rule digit_value_digit) simp
    moreover have "- int (n div 10) * 10 - int (n mod 10) = - int n" by presburger
    ultimately show ?thesis using False 1 parse_down_snoc[of least 0 "decimal (n div 10)"]
      by (simp add: decimal.simps[of n])
  qed
qed

lemma decimal_hd: "\<exists>d rest. d < 10 \<and> decimal n = char_of (48 + d :: nat) # rest"
proof (induction n rule: decimal.induct)
  case (1 n)
  show ?case
  proof (cases "n < 10")
    case True
    then show ?thesis by (auto simp: decimal.simps[of n])
  next
    case False
    with 1 show ?thesis by (auto simp: decimal.simps[of n])
  qed
qed

lemma digit_not_sign: "d < 10 \<Longrightarrow> char_of (48 + d :: nat) \<noteq> CHR ''+'' \<and> char_of (48 + d) \<noteq> CHR ''-''"
proof -
  assume "d < 10"
  then have "byte (char_of (48 + d :: nat)) = 48 + d" by simp
  moreover have "byte (CHR ''+'') = 43" "byte (CHR ''-'') = 45" by (simp_all add: byte_def)
  ultimately have "byte (char_of (48 + d :: nat)) \<noteq> byte (CHR ''+'') \<and> byte (char_of (48 + d :: nat)) \<noteq> byte (CHR ''-'')"
    by simp
  then show ?thesis by metis
qed

text \<open>A number the chart renders is the number the process reads: for every integer type, printing
  a value of it and parsing the text gives the value back; and whatever is parsed is in range, so no
  knob wraps round.\<close>

theorem number_roundtrip:
  assumes "proper ty"
  shows "(it_min ty \<le> n \<and> n \<le> it_max ty \<longrightarrow> parse_int ty (display_int n) = Inr n)
    \<and> (\<forall>s m. parse_int ty s = Inr m \<longrightarrow> it_min ty \<le> m \<and> m \<le> it_max ty)"
proof (intro conjI impI allI)
  assume n: "it_min ty \<le> n \<and> n \<le> it_max ty"
  show "parse_int ty (display_int n) = Inr n"
  proof (cases "n < 0")
    case True
    then have "it_signed ty" using n assms by (auto simp: proper_def)
    moreover have "decimal (nat (- n)) \<noteq> []" using decimal_hd[of "nat (- n)"] by auto
    ultimately show ?thesis using True n parse_down_decimal[of "it_min ty" "nat (- n)"]
      by (simp add: parse_int_def display_int_def)
  next
    case False
    obtain d rest where d: "d < 10" "decimal (nat n) = char_of (48 + d :: nat) # rest"
      using decimal_hd by blast
    have "parse_up (it_max ty) 0 (decimal (nat n)) = Inr n" using False n parse_up_decimal[of "nat n"] by simp
    then show ?thesis using False d digit_not_sign[OF d(1)] by (simp add: parse_int_def display_int_def)
  qed
next
  have up: "parse_up most acc s = Inr m \<Longrightarrow> 0 \<le> acc \<Longrightarrow> acc \<le> most \<Longrightarrow> 0 \<le> m \<and> m \<le> most" for most acc s m
    by (induction most acc s rule: parse_up.induct) (auto simp: digit_value_def split: if_splits)
  have down: "parse_down least acc s = Inr m \<Longrightarrow> acc \<le> 0 \<Longrightarrow> least \<le> acc \<Longrightarrow> m \<le> 0 \<and> least \<le> m" for least acc s m
    by (induction least acc s rule: parse_down.induct) (auto simp: digit_value_def split: if_splits)
  fix s m
  assume "parse_int ty s = Inr m"
  then have "(\<exists>t. parse_up (it_max ty) 0 t = Inr m) \<or> (\<exists>t. parse_down (it_min ty) 0 t = Inr m)"
    by (auto simp: parse_int_def simp del: parse_up.simps parse_down.simps split: list.splits if_splits)
  moreover have "it_min ty \<le> 0 \<and> 0 \<le> it_max ty" using assms by (simp add: proper_def)
  ultimately have "0 \<le> m \<and> m \<le> it_max ty \<or> m \<le> 0 \<and> it_min ty \<le> m"
    using up[of "it_max ty" 0 _ m] down[of "it_min ty" 0 _ m] by blast
  then show "it_min ty \<le> m" and "m \<le> it_max ty"
    using \<open>it_min ty \<le> 0 \<and> 0 \<le> it_max ty\<close> by auto
qed

section \<open>The knobs\<close>

text \<open>The twelve required knobs in the order they are read: the variable, the chart key, and the
  integer type of those that are numbers.\<close>

definition knobs :: "pool_types \<Rightarrow> (string \<times> string \<times> int_type option) list" where
  "knobs ty =
     [(''DB_HOST'', ''database.host'', None), (''DB_PORT'', ''database.port'', Some (ty_port ty)),
      (''DB_NAME'', ''database.name'', None), (''DB_USER'', ''database.user'', None),
      (''DB_MAX_CONNECTIONS'', ''database.maxConnections'', Some (ty_max_connections ty)),
      (''REPLICAS'', REPLICAS_CHART_KEY, Some (ty_replicas ty)),
      (''DB_ENGINE_MAX_CONNECTIONS'', ''database.engineMaxConnections'', Some (ty_engine_max_connections ty)),
      (OPERATOR_RESERVE_KEY, OPERATOR_RESERVE_CHART_KEY, Some (ty_operator_reserve ty)),
      (ACQUIRE_TIMEOUT_KEY, ACQUIRE_TIMEOUT_CHART_KEY, Some u64),
      (IDLE_TIMEOUT_KEY, IDLE_TIMEOUT_CHART_KEY, Some u64),
      (MAX_LIFETIME_KEY, MAX_LIFETIME_CHART_KEY, Some u64),
      (SSL_MODE_KEY, ''database.sslMode'', None)]"

text \<open>What is wrong with one of them.\<close>

definition knob_problem :: "environment \<Rightarrow> string \<times> string \<times> int_type option \<Rightarrow> boot_error option" where
  "knob_problem env = (\<lambda>(key, chart_key, ty).
     case env key of
       None \<Rightarrow> Some (Missing_knob (Unset_knob key) chart_key)
     | Some value \<Rightarrow>
         (if value = [] then Some (Missing_knob (Empty_knob key) chart_key)
          else (case ty of
                  None \<Rightarrow> None
                | Some t \<Rightarrow> (case parse_int t value of
                               Inl e \<Rightarrow> Some (Unparsable key chart_key value e) | Inr n \<Rightarrow> None))))"

definition text_of :: "environment \<Rightarrow> string \<Rightarrow> string" where
  "text_of env key = the (env key)"

definition number_of :: "environment \<Rightarrow> int_type \<Rightarrow> string \<Rightarrow> int" where
  "number_of env ty key = projr (parse_int ty (text_of env key))"

lemma or_refuse_problem:
  "or_refuse (case p of Some e \<Rightarrow> Inl e | None \<Rightarrow> Inr v) f = (case p of Some e \<Rightarrow> Inl e | None \<Rightarrow> f v)"
  by (simp add: or_refuse_def split: option.split)

lemma text_knob:
  "env_required_chart env key chart_key
     = (case knob_problem env (key, chart_key, None) of Some e \<Rightarrow> Inl e | None \<Rightarrow> Inr (text_of env key))"
  by (auto simp: env_required_chart_def env_required_def knob_problem_def text_of_def split: option.split)

lemma number_knob:
  "number_knob env ty key chart_key
     = (case knob_problem env (key, chart_key, Some ty) of Some e \<Rightarrow> Inl e | None \<Rightarrow> Inr (number_of env ty key))"
  by (auto simp: number_knob_def or_refuse_def env_required_chart_def env_required_def knob_problem_def
      parse_knob_def number_of_def text_of_def split: option.split sum.split)

lemma case_first_refusal:
  "(case first_refusal f (x # xs) of Some e \<Rightarrow> g e | None \<Rightarrow> h)
     = (case f x of Some e \<Rightarrow> g e | None \<Rightarrow> (case first_refusal f xs of Some e \<Rightarrow> g e | None \<Rightarrow> h))"
  by (simp split: option.split)

text \<open>The pool's configuration is refused for the first knob that is wrong, in the order the code
  reads them, and the refusal names the variable and the chart key: absent, set but empty, or - for
  a number - unreadable, with its value and why. When none is wrong and the SSL mode is one the store
  accepts, every field is the value of its knob; the certificate authority is optional.\<close>

theorem pool_config_refuses_first:
  "pool_config ty parse_ssl_mode env =
     (case first_refusal (knob_problem env) (knobs ty) of
        Some e \<Rightarrow> Inl e
      | None \<Rightarrow>
          (case parse_ssl_mode (text_of env SSL_MODE_KEY) of
             Inl e \<Rightarrow> Inl (Pool e)
           | Inr mode \<Rightarrow>
               Inr \<lparr>pc_host = text_of env ''DB_HOST'',
                    pc_port = number_of env (ty_port ty) ''DB_PORT'',
                    pc_database = text_of env ''DB_NAME'', pc_username = text_of env ''DB_USER'',
                    pc_max_connections = number_of env (ty_max_connections ty) ''DB_MAX_CONNECTIONS'',
                    pc_replicas = number_of env (ty_replicas ty) ''REPLICAS'',
                    pc_engine_max_connections =
                      number_of env (ty_engine_max_connections ty) ''DB_ENGINE_MAX_CONNECTIONS'',
                    pc_operator_reserve = number_of env (ty_operator_reserve ty) OPERATOR_RESERVE_KEY,
                    pc_acquire_timeout = number_of env u64 ACQUIRE_TIMEOUT_KEY,
                    pc_idle_timeout = number_of env u64 IDLE_TIMEOUT_KEY,
                    pc_max_lifetime = number_of env u64 MAX_LIFETIME_KEY,
                    pc_ssl_mode = mode, pc_ssl_ca = ssl_ca env\<rparr>))"
proof -
  have mode: "or_refuse (case r of Inl e \<Rightarrow> Inl (Pool e) | Inr m \<Rightarrow> Inr m) f
      = (case r of Inl e \<Rightarrow> Inl (Pool e) | Inr m \<Rightarrow> f m)" for r f
    by (simp add: or_refuse_def split: sum.split)
  show ?thesis
    unfolding pool_config_def text_knob number_knob or_refuse_problem mode knobs_def case_first_refusal
      first_refusal.simps(1) option.case ..
qed

lemma pool_config_Inr:
  "pool_config ty parse_ssl_mode env = Inr config \<Longrightarrow> first_refusal (knob_problem env) (knobs ty) = None"
  by (simp add: pool_config_refuses_first split: option.splits)

section \<open>The migration lock\<close>

lemma migration_lock_Inr:
  "migration_lock lock_options env = Inr lock \<longleftrightarrow>
     (\<exists>raw seconds. env MIGRATION_LOCK_TIMEOUT_KEY = Some raw \<and> parse_int i32 raw = Inr seconds
        \<and> lock_options seconds = Inr lock)"
  by (auto simp: migration_lock_def or_refuse_def env_required_chart_def env_required_def parse_int_def[of i32 "[]"]
      split: option.splits sum.splits)

end
