(* ===== verification/Debug_Str.thy ===== *)
theory Debug_Str
  imports Rust_Str
begin

text \<open>
  \<open>{value:?}\<close>: \<open>Debug\<close> of a \<open>str\<close>, as the refusals of the service and of the boot quote what a caller
  or an operator sent. Which characters beyond ASCII \<open>Debug\<close> escapes is a table of Unicode's, the
  argument \<open>wide\<close>.
\<close>

section \<open>\<open>Debug\<close> of a \<open>str\<close>\<close>

definition hex_digit :: "nat \<Rightarrow> char" where
  "hex_digit n = char_of (if n < 10 then 48 + n else 87 + n)"

text \<open>An ASCII character: the short escapes, \<open>\u{..}\<close> for the other controls, itself otherwise.\<close>

definition backslash :: char where
  "backslash = char_of (92 :: nat)"

definition double_quote :: char where
  "double_quote = char_of (34 :: nat)"

definition escape_ascii :: "char \<Rightarrow> string" where
  "escape_ascii c =
     (let n = byte c in
      if n = 0 then [backslash, CHR ''0'']
      else if n = 9 then [backslash, CHR ''t'']
      else if n = 10 then [backslash, CHR ''n'']
      else if n = 13 then [backslash, CHR ''r'']
      else if c = backslash \<or> c = double_quote then [backslash, c]
      else if n < 32 \<or> n = 127
      then [backslash] @ ''u{'' @ (if n < 16 then [] else [hex_digit (n div 16)]) @ [hex_digit (n mod 16)] @ ''}''
      else [c])"

text \<open>Character by character; the bytes after the first of a longer one are its continuation bytes.\<close>

function escape_debug :: "(string \<Rightarrow> string) \<Rightarrow> string \<Rightarrow> string" where
  "escape_debug wide [] = []"
| "escape_debug wide (c # cs) =
     (if byte c < 128 then escape_ascii c @ escape_debug wide cs
      else wide (c # takeWhile is_continuation cs) @ escape_debug wide (dropWhile is_continuation cs))"
  by pat_completeness auto
termination
  by (relation "measure (\<lambda>(wide, s). length s)") (auto simp: le_imp_less_Suc length_dropWhile_le)

definition debug_str :: "(string \<Rightarrow> string) \<Rightarrow> string \<Rightarrow> string" where
  "debug_str wide s = [double_quote] @ escape_debug wide s @ [double_quote]"

definition em_dash :: string where
  "em_dash = map char_of [226, 128, 148 :: nat]"

section \<open>One line\<close>

text \<open>Nothing that ends a line or steers a terminal.\<close>

definition one_line :: "string \<Rightarrow> bool" where
  "one_line s \<longleftrightarrow> list_all (\<lambda>c. 32 \<le> byte c \<and> byte c \<noteq> 127) s"

lemma one_line_append [simp]: "one_line (a @ b) \<longleftrightarrow> one_line a \<and> one_line b"
  by (simp add: one_line_def)

lemma one_line_Nil [simp]: "one_line []"
  by (simp add: one_line_def)

lemma one_line_Cons [simp]: "one_line (c # s) \<longleftrightarrow> 32 \<le> byte c \<and> byte c \<noteq> 127 \<and> one_line s"
  by (simp add: one_line_def)

text \<open>What is documented of the table: a character is printed as it is, or as \<open>\u{..}\<close>.\<close>

definition wide_law :: "(string \<Rightarrow> string) \<Rightarrow> bool" where
  "wide_law wide \<longleftrightarrow>
     (\<forall>u. (\<forall>c \<in> set u. 128 \<le> byte c) \<longrightarrow>
        wide u = u
        \<or> (\<exists>h. set h \<subseteq> set ''0123456789abcdef'' \<and> wide u = [backslash] @ ''u{'' @ h @ ''}''))"

lemma byte_of [simp]: "byte backslash = 92" "byte double_quote = 34"
  by (simp_all add: backslash_def double_quote_def)

lemma hex_byte: "n < 16 \<Longrightarrow> byte (hex_digit n) = (if n < 10 then 48 + n else 87 + n)"
  by (simp add: hex_digit_def)

lemma byte_escapes [simp]:
  "byte (CHR ''0'') = 48" "byte (CHR ''t'') = 116" "byte (CHR ''n'') = 110" "byte (CHR ''r'') = 114"
  "byte (CHR ''u'') = 117" "byte (CHR ''{'') = 123" "byte (CHR ''}'') = 125"
  by (simp_all add: byte_def)

lemma hex_digit_plain:
  "n < 16 \<Longrightarrow> 32 \<le> byte (hex_digit n) \<and> byte (hex_digit n) \<noteq> 127
     \<and> hex_digit n \<noteq> double_quote \<and> hex_digit n \<noteq> backslash"
  unfolding byte_inject[symmetric] by (simp add: hex_byte)

lemma byte_div: "byte c div 16 < 16"
  by (rule less_mult_imp_div_less) (simp add: byte_less)

lemma one_line_escape_ascii: "byte c < 128 \<Longrightarrow> one_line (escape_ascii c)"
  using hex_digit_plain[OF byte_div] hex_digit_plain[of "byte c mod 16"] hex_digit_plain[of 7]
  by (simp add: escape_ascii_def Let_def)

lemma hex_chars:
  assumes "set h \<subseteq> set ''0123456789abcdef''"
  shows "one_line h" "double_quote \<notin> set h" "backslash \<notin> set h"
proof -
  have "32 \<le> byte c \<and> byte c \<noteq> 127 \<and> byte c \<noteq> 34 \<and> byte c \<noteq> 92" if "c \<in> set ''0123456789abcdef''" for c
    using that by (auto simp: byte_def)
  then have *: "\<forall>c \<in> set h. 32 \<le> byte c \<and> byte c \<noteq> 127 \<and> byte c \<noteq> 34 \<and> byte c \<noteq> 92" using assms by blast
  then show "one_line h" by (auto simp: one_line_def list_all_iff)
  show "double_quote \<notin> set h" "backslash \<notin> set h" using * by (auto dest: bspec)
qed

lemma wide_cases:
  assumes "wide_law wide" and "\<not> byte c < 128"
  obtains "wide (c # takeWhile is_continuation cs) = c # takeWhile is_continuation cs"
      "\<forall>d \<in> set (c # takeWhile is_continuation cs). 128 \<le> byte d"
    | h where "set h \<subseteq> set ''0123456789abcdef''"
      "wide (c # takeWhile is_continuation cs) = [backslash] @ ''u{'' @ h @ ''}''"
proof -
  have "\<forall>d \<in> set (c # takeWhile is_continuation cs). 128 \<le> byte d"
    using assms(2) by (auto dest: set_takeWhileD simp: is_continuation_def)
  with assms(1) that show thesis unfolding wide_law_def by blast
qed

lemma one_line_escape: "wide_law wide \<Longrightarrow> one_line (escape_debug wide s)"
proof (induction wide s rule: escape_debug.induct)
  case (2 wide c cs)
  show ?case
  proof (cases "byte c < 128")
    case True
    then show ?thesis using 2 one_line_escape_ascii by simp
  next
    case False
    from \<open>wide_law wide\<close> False have "one_line (wide (c # takeWhile is_continuation cs))"
    proof (cases rule: wide_cases[where cs = cs])
      case 1
      have "32 \<le> n \<and> n \<noteq> 127" if "128 \<le> n" for n :: nat using that by simp
      then show ?thesis unfolding 1(1) one_line_def list_all_iff using 1(2) by blast
    next
      case (2 h)
      then show ?thesis using hex_chars(1)[of h] by simp
    qed
    with 2 False show ?thesis by simp
  qed
qed simp

lemma one_line_debug: "wide_law wide \<Longrightarrow> one_line (debug_str wide s)"
  by (simp add: debug_str_def one_line_escape)

section \<open>A quoted value ends where it ends\<close>

text \<open>How a reader finds the end of a quoted value: the first quote no backslash precedes.\<close>

fun to_quote :: "string \<Rightarrow> (string \<times> string) option" where
  "to_quote [] = None"
| "to_quote (c # cs) =
     (if c = double_quote then Some ([], cs)
      else if c = backslash
      then (case cs of
              [] \<Rightarrow> None
            | d # ds \<Rightarrow> map_option (\<lambda>(inside, rest). (c # d # inside, rest)) (to_quote ds))
      else map_option (\<lambda>(inside, rest). (c # inside, rest)) (to_quote cs))"

definition inside_quotes :: "string \<Rightarrow> bool" where
  "inside_quotes u \<longleftrightarrow>
     (\<forall>rest. to_quote (u @ rest) = map_option (\<lambda>(inside, rest). (u @ inside, rest)) (to_quote rest))"

lemma inside_Nil [simp]: "inside_quotes []"
  by (simp add: inside_quotes_def option.map_ident_strong)

lemma inside_append: "inside_quotes a \<Longrightarrow> inside_quotes b \<Longrightarrow> inside_quotes (a @ b)"
  by (simp add: inside_quotes_def option.map_comp comp_def case_prod_beta')

lemma inside_char:
  "c \<noteq> double_quote \<Longrightarrow> c \<noteq> backslash \<Longrightarrow> inside_quotes u \<Longrightarrow> inside_quotes (c # u)"
  by (simp add: inside_quotes_def option.map_comp comp_def case_prod_beta')

lemma inside_escape: "inside_quotes u \<Longrightarrow> inside_quotes (backslash # d # u)"
  by (simp add: inside_quotes_def option.map_comp comp_def case_prod_beta' backslash_def double_quote_def)

lemma inside_plain: "double_quote \<notin> set u \<Longrightarrow> backslash \<notin> set u \<Longrightarrow> inside_quotes u"
  by (induction u) (auto intro: inside_char)

lemma brace_plain: "CHR ''{'' \<noteq> double_quote" "CHR ''{'' \<noteq> backslash" "CHR ''}'' \<noteq> double_quote" "CHR ''}'' \<noteq> backslash"
  unfolding byte_inject[symmetric] by simp_all

lemmas inside_rules = inside_escape inside_char brace_plain inside_Nil

lemma inside_escape_ascii: "byte c < 128 \<Longrightarrow> inside_quotes (escape_ascii c)"
  using hex_digit_plain[OF byte_div] hex_digit_plain[of "byte c mod 16"] hex_digit_plain[of "byte c"]
    hex_digit_plain[of 7] hex_digit_plain[of 15]
  by (auto simp: escape_ascii_def Let_def intro!: inside_rules)

lemma inside_escape_debug: "wide_law wide \<Longrightarrow> inside_quotes (escape_debug wide s)"
proof (induction wide s rule: escape_debug.induct)
  case (2 wide c cs)
  show ?case
  proof (cases "byte c < 128")
    case True
    then show ?thesis using 2 inside_append inside_escape_ascii by simp
  next
    case False
    from \<open>wide_law wide\<close> False have "inside_quotes (wide (c # takeWhile is_continuation cs))"
    proof (cases rule: wide_cases[where cs = cs])
      case 1
      then have "double_quote \<notin> set (c # takeWhile is_continuation cs)"
        "backslash \<notin> set (c # takeWhile is_continuation cs)" by fastforce+
      then show ?thesis unfolding 1(1) by (rule inside_plain)
    next
      case (2 h)
      have "inside_quotes (h @ ''}'')"
        using hex_chars(2,3)[OF 2(1)] by (intro inside_append inside_plain) (use brace_plain in auto)
      then show ?thesis unfolding 2(2) by (auto intro!: inside_rules)
    qed
    with 2 False show ?thesis using inside_append by simp
  qed
qed simp

lemma quoted_ends:
  "wide_law wide \<Longrightarrow> to_quote (tl (debug_str wide s) @ rest) = Some (escape_debug wide s, rest)"
  using inside_escape_debug[of wide s] by (simp add: debug_str_def inside_quotes_def)

end
