(* ===== verification/Boot_Sentences.thy ===== *)
theory Boot_Sentences
  imports Boot_Spec Debug_Str "HOL-Library.Sublist"
begin

text \<open>
  The sentences of \<open>src/boot.rs\<close>: what an operator reads of a refused boot. \<open>Display\<close> of the errors
  is the \<open>#[error]\<close> text, and \<open>{value:?}\<close> is \<open>Debug\<close> of a \<open>str\<close> (\<^theory_text>\<open>Debug_Str\<close>).
\<close>

section \<open>Sentences\<close>

text \<open>\<open>Display\<close> of \<open>ParseIntError\<close>.\<close>

primrec display_int_error :: "int_error \<Rightarrow> string" where
  "display_int_error Empty_number = ''cannot parse integer from empty string''"
| "display_int_error Invalid_digit = ''invalid digit found in string''"
| "display_int_error Pos_overflow = ''number too large to fit in target type''"
| "display_int_error Neg_overflow = ''number too small to fit in target type''"

primrec display_knob :: "knob_refusal \<Rightarrow> string" where
  "display_knob (Empty_knob key) =
     key @ '' is set but EMPTY. It has no compiled-in default (ADR-0569), so there is ''
     @ ''nothing to fall back to. The chart renders it; a values override that nulls it ''
     @ ''produces exactly this.''"
| "display_knob (Unset_knob key) =
     key @ '' is NOT SET. It has no compiled-in default (ADR-0569): this process reads ''
     @ ''it from the environment alone and refuses to start rather than invent a value. ''
     @ ''The chart renders it.''"

primrec display_lock :: "lock_refusal \<Rightarrow> string" where
  "display_lock (Not_a_number e) = display_int_error e"
| "display_lock (Not_a_wait sentence) = sentence"

primrec display_boot_error :: "(string \<Rightarrow> string) \<Rightarrow> boot_error \<Rightarrow> string" where
  "display_boot_error wide (Listener_tls detail) = detail"
| "display_boot_error wide (Listener_limits detail) = detail"
| "display_boot_error wide (Signal_handler source) =
     ''the SIGTERM and SIGINT handlers could not be installed: '' @ source @ ''. This module ''
     @ ''refuses to start rather than run without them: Kubernetes ends every pod with ''
     @ ''SIGTERM, and a process that cannot hear it is one that never drains '' @ em_dash @ '' its ''
     @ ''in-flight writes are severed by the SIGKILL that follows, on every rolling ''
     @ ''update, with nothing in the logs to say so. This is a broken process ''
     @ ''environment rather than a configuration mistake, so there is no value to ''
     @ ''correct; the pod restarting is the right response.''"
| "display_boot_error wide (Missing_knob knob chart_key) =
     display_knob knob @ '' Set the chart value '' @ chart_key @ ''.''"
| "display_boot_error wide (Migration_lock_wait value reason) =
     ''DB_MIGRATION_LOCK_TIMEOUT_SECONDS is '' @ debug_str wide value
     @ '', which is not a usable migration ''
     @ ''lock wait. Set the chart value database.migrationLockTimeoutSeconds to a whole ''
     @ ''number of seconds, at least 1, within the bound chart/values.schema.json sets. ''
     @ ''Why: '' @ display_lock reason"
| "display_boot_error wide (Pool sentence) = sentence"
| "display_boot_error wide (Unparsable key chart_key value source) =
     key @ '' is '' @ debug_str wide value @ '', which is not a whole number: ''
     @ display_int_error source @ ''. Set the chart value '' @ chart_key @ ''.''"

section \<open>A refusal says what to correct\<close>

lemma knob_problem_Some:
  "knob_problem env (key, chart_key, ty) = Some e \<longleftrightarrow>
     env key = None \<and> e = Missing_knob (Unset_knob key) chart_key
     \<or> env key = Some [] \<and> e = Missing_knob (Empty_knob key) chart_key
     \<or> (\<exists>value t source. env key = Some value \<and> value \<noteq> [] \<and> ty = Some t \<and> parse_int t value = Inl source
          \<and> e = Unparsable key chart_key value source)"
  by (auto simp: knob_problem_def split: option.splits sum.splits)

lemma first_refusal_None: "first_refusal f xs = None \<longleftrightarrow> (\<forall>x \<in> set xs. f x = None)"
  by (induction xs) (auto split: option.splits)

lemma first_refusal_find:
  "first_refusal f xs = (case find (\<lambda>x. f x \<noteq> None) xs of None \<Rightarrow> None | Some x \<Rightarrow> f x)"
  by (induction xs) (auto split: option.splits)

lemma sentence_ends:
  "suffix (''Set the chart value '' @ chart_key @ ''.'') (display_boot_error wide (Missing_knob knob chart_key))"
  "suffix (''Set the chart value '' @ chart_key @ ''.'')
     (display_boot_error wide (Unparsable key chart_key value source))"
proof -
  have "display_boot_error wide (Missing_knob knob chart_key)
      = (display_knob knob @ '' '') @ (''Set the chart value '' @ chart_key @ ''.'')" by simp
  then show "suffix (''Set the chart value '' @ chart_key @ ''.'') (display_boot_error wide (Missing_knob knob chart_key))"
    by (rule suffixI)
  have "display_boot_error wide (Unparsable key chart_key value source)
      = (key @ '' is '' @ debug_str wide value @ '', which is not a whole number: '' @ display_int_error source @ ''. '')
        @ (''Set the chart value '' @ chart_key @ ''.'')" by simp
  then show "suffix (''Set the chart value '' @ chart_key @ ''.'')
      (display_boot_error wide (Unparsable key chart_key value source))" by (rule suffixI)
qed

definition says :: "environment \<Rightarrow> (string \<Rightarrow> string) \<Rightarrow> string \<Rightarrow> string \<Rightarrow> string \<Rightarrow> bool" where
  "says env wide key chart_key sentence \<longleftrightarrow>
     suffix (''Set the chart value '' @ chart_key @ ''.'') sentence
     \<and> (case env key of
          None \<Rightarrow> prefix (key @ '' is NOT SET.'') sentence
        | Some value \<Rightarrow>
            (if value = [] then prefix (key @ '' is set but EMPTY.'') sentence
             else prefix (key @ '' is '' @ debug_str wide value @ '', which is not a whole number: '') sentence))"

lemma problem_sentence:
  assumes "knob_problem env (key, chart_key, ty) = Some e"
  shows "says env wide key chart_key (display_boot_error wide e)"
  using assms unfolding knob_problem_Some
proof (elim disjE exE conjE)
  assume "env key = None" "e = Missing_knob (Unset_knob key) chart_key"
  then show ?thesis using sentence_ends(1)[of chart_key wide "Unset_knob key"] by (simp add: says_def)
next
  assume "env key = Some []" "e = Missing_knob (Empty_knob key) chart_key"
  then show ?thesis using sentence_ends(1)[of chart_key wide "Empty_knob key"] by (simp add: says_def)
next
  fix v t source
  assume "env key = Some v" "v \<noteq> []" "e = Unparsable key chart_key v source"
  then show ?thesis using sentence_ends(2)[of chart_key wide key v source] by (simp add: says_def)
qed

text \<open>C36. A refused pool configuration tells the operator what is wrong, in one of two ways. When one
  of the twelve required knobs is unset, empty or no whole number, the refusal is that of the first
  such knob in the order they are read: the sentence begins with the variable, says that it is NOT
  SET, that it is set but EMPTY, or quotes the value that is not a whole number, and ends with the
  chart value to set. Otherwise all twelve are set and readable, and the refusal is the store's, of a
  TLS mode it does not take: the operator reads the sentence of \<open>parse_ssl_mode\<close> word for word, to
  which nothing, no chart value either, is added.\<close>

theorem refusal_says_what_to_set:
  assumes "pool_config ty parse_ssl_mode env = Inl e"
  shows "case find (\<lambda>k. knob_problem env k \<noteq> None) (knobs ty) of
      Some (key, chart_key, t) \<Rightarrow>
        knob_problem env (key, chart_key, t) = Some e \<and> says env wide key chart_key (display_boot_error wide e)
    | None \<Rightarrow>
        (\<exists>mode sentence. env SSL_MODE_KEY = Some mode \<and> mode \<noteq> [] \<and> parse_ssl_mode mode = Inl sentence
           \<and> e = Pool sentence \<and> display_boot_error wide e = sentence)"
proof (cases "find (\<lambda>k. knob_problem env k \<noteq> None) (knobs ty)")
  case (Some k)
  have first: "first_refusal (knob_problem env) (knobs ty) = knob_problem env k"
    unfolding first_refusal_find Some option.case ..
  moreover from Some have "knob_problem env k \<noteq> None" unfolding find_Some_iff by blast
  ultimately have e: "knob_problem env k = Some e" using assms by (auto simp: pool_config_refuses_first)
  with Some show ?thesis using problem_sentence[of env] by (cases k) simp
next
  case None
  then have fine: "k \<in> set (knobs ty) \<Longrightarrow> knob_problem env k = None" for k unfolding find_None_iff by blast
  then have "first_refusal (knob_problem env) (knobs ty) = None" unfolding first_refusal_None by blast
  then obtain sentence where "parse_ssl_mode (text_of env SSL_MODE_KEY) = Inl sentence" "e = Pool sentence"
    using assms by (auto simp: pool_config_refuses_first split: sum.splits)
  moreover have "knob_problem env (SSL_MODE_KEY, ''database.sslMode'', None) = None"
    by (rule fine) (simp add: knobs_def)
  then obtain mode where "env SSL_MODE_KEY = Some mode" "mode \<noteq> []"
    by (auto simp: knob_problem_def split: option.splits if_splits)
  ultimately show ?thesis using None by (simp add: text_of_def)
qed

end
