(* ===== verification/Boot_Order.thy ===== *)
theory Boot_Order
  imports Boot_Sentences Migrations
begin

text \<open>
  \<open>src/main.rs\<close>: the stages of \<open>run\<close> and \<open>serve\<close> in their order, each of which may refuse the boot.
  What a stage of this repository refuses is computed; what third-party code answers - the engine,
  the store's migrations, the listener, the mounted files - is a parameter. What ends a serve, and
  what the process then answers, is \<open>Process\<close>.
\<close>

datatype stage =
    Read_pool_config | Read_migration_lock | Read_listener_tls | Read_listener_limits | Build_server
  | Read_password_path | Read_password | Hash_inputs | Read_schedule
  | Probe_options | Connect_probe | Run_probe | Check_capabilities | Close_probe
  | Open_pool | List_migrations | Apply_migrations
  | Read_metrics_listen | Install_metrics | Export_not_after | Read_listen | Arm_signals | Spawn_server

definition configuring :: "stage list" where
  "configuring =
     [Read_pool_config, Read_migration_lock, Read_listener_tls, Read_listener_limits, Build_server,
      Read_password_path, Read_password, Hash_inputs, Read_schedule, Probe_options]"

definition probing :: "stage list" where
  "probing = [Connect_probe, Run_probe, Check_capabilities, Close_probe]"

definition migrating :: "stage list" where
  "migrating = [Open_pool, List_migrations, Apply_migrations]"

definition serving_stages :: "stage list" where
  "serving_stages =
     [Read_metrics_listen, Install_metrics, Export_not_after, Read_listen, Arm_signals, Spawn_server]"

datatype main_error =
    Boot_refused boot_error
  | Knob_refused knob_refusal
  | Bad_address string string
  | Refused_outside string

text \<open>What the probe has to find; the store knows more capabilities than the two named here.\<close>

datatype capability = Transactions | Row_locking

definition required :: "capability list" where
  "required = [Transactions, Row_locking]"

text \<open>What is outside this repository: the libraries' functions on what they are handed, with errors as
  their sentences, and for a stage that is theirs alone whether it refuses.\<close>

record outside =
  o_types :: pool_types
  o_ssl_mode :: "string \<Rightarrow> string + string"
  o_lock_options :: "int \<Rightarrow> string + int"
  o_tls :: "string \<Rightarrow> string \<Rightarrow> environment \<Rightarrow> string + string option"
  o_limits :: "string \<Rightarrow> string \<Rightarrow> environment \<Rightarrow> string + string"
  o_server :: "string option \<Rightarrow> string \<Rightarrow> string + unit"
  o_secret :: "string \<Rightarrow> string + string"
  o_connect_options :: "string pool_config \<Rightarrow> string \<Rightarrow> string + unit"
  o_signals :: "string + unit"
  o_address :: "string \<Rightarrow> string + string"
  o_satisfies :: "capability list \<Rightarrow> string option"
  o_new_set :: "migration list \<Rightarrow> string option"
  o_stage :: "stage \<Rightarrow> string option"

definition refused_by :: "('e \<Rightarrow> main_error) \<Rightarrow> 'e + 'a \<Rightarrow> main_error option" where
  "refused_by f r = (case r of Inl e \<Rightarrow> Some (f e) | Inr _ \<Rightarrow> None)"

text \<open>\<open>boot::parse_listen_addr(key, &env_required(key)?)\<close>.\<close>

definition parse_listen_addr :: "outside \<Rightarrow> string \<Rightarrow> string \<Rightarrow> main_error + string" where
  "parse_listen_addr X key value = map_err (Bad_address key) (o_address X value)"

definition listen_address :: "outside \<Rightarrow> environment \<Rightarrow> string \<Rightarrow> main_error + string" where
  "listen_address X env key =
     or_refuse (map_err Knob_refused (env_required env key)) (parse_listen_addr X key)"

text \<open>\<open>schema::migrations()\<close>: the set of the migrations, or why they are none.\<close>

definition migrations :: "outside \<Rightarrow> main_error option" where
  "migrations X = map_option Refused_outside (o_new_set X all_migrations)"

text \<open>The values the configuration's stages bind.\<close>

definition bound_config :: "outside \<Rightarrow> environment \<Rightarrow> boot_error + string pool_config" where
  "bound_config X env = pool_config (o_types X) (o_ssl_mode X) env"

definition bound_tls :: "outside \<Rightarrow> environment \<Rightarrow> boot_error + string option" where
  "bound_tls X env = listener_tls (o_tls X) (\<lambda>e. e) env"

definition bound_limits :: "outside \<Rightarrow> environment \<Rightarrow> boot_error + string" where
  "bound_limits X env = listener_limits (o_limits X) (\<lambda>e. e) env"

definition bound_secret :: "outside \<Rightarrow> environment \<Rightarrow> main_error + string" where
  "bound_secret X env =
     or_refuse (map_err Knob_refused (env_required env ''DB_PASSWORD_FILE''))
       (\<lambda>path. map_err Refused_outside (o_secret X path))"

definition refusal_of :: "outside \<Rightarrow> environment \<Rightarrow> stage \<Rightarrow> main_error option" where
  "refusal_of X env st =
     (case st of
        Read_pool_config \<Rightarrow> refused_by Boot_refused (bound_config X env)
      | Read_migration_lock \<Rightarrow> refused_by Boot_refused (migration_lock (o_lock_options X) env)
      | Read_listener_tls \<Rightarrow> refused_by Boot_refused (bound_tls X env)
      | Read_listener_limits \<Rightarrow> refused_by Boot_refused (bound_limits X env)
      | Build_server \<Rightarrow>
          refused_by Boot_refused
            (or_refuse (bound_tls X env) (\<lambda>tls.
             or_refuse (bound_limits X env) (\<lambda>limits. server (o_server X) (\<lambda>e. e) tls limits)))
      | Read_password_path \<Rightarrow> refused_by Knob_refused (env_required env ''DB_PASSWORD_FILE'')
      | Read_password \<Rightarrow> refused_by (\<lambda>e. e) (bound_secret X env)
      | Hash_inputs \<Rightarrow> None
      | Probe_options \<Rightarrow>
          refused_by (\<lambda>e. e)
            (or_refuse (map_err Boot_refused (bound_config X env)) (\<lambda>config.
             or_refuse (bound_secret X env) (\<lambda>secret.
               map_err Boot_refused (probe_connect_options (o_connect_options X) config secret))))
      | Check_capabilities \<Rightarrow> map_option Refused_outside (o_satisfies X required)
      | List_migrations \<Rightarrow> migrations X
      | Read_metrics_listen \<Rightarrow> refused_by (\<lambda>e. e) (listen_address X env ''METRICS_LISTEN'')
      | Install_metrics \<Rightarrow> None
      | Export_not_after \<Rightarrow> None
      | Read_listen \<Rightarrow> refused_by (\<lambda>e. e) (listen_address X env ''LISTEN'')
      | Arm_signals \<Rightarrow> refused_by Boot_refused (shutdown (o_signals X))
      | Spawn_server \<Rightarrow> None
      | _ \<Rightarrow> map_option Refused_outside (o_stage X st))"

text \<open>The stages attempted, up to the first that refuses.\<close>

fun attempt_stages :: "('a \<Rightarrow> 'e option) \<Rightarrow> 'a list \<Rightarrow> 'a list \<times> 'e option" where
  "attempt_stages f [] = ([], None)"
| "attempt_stages f (x # xs) =
     (case f x of
        Some e \<Rightarrow> ([x], Some e)
      | None \<Rightarrow> (case attempt_stages f xs of (tried, r) \<Rightarrow> (x # tried, r)))"

definition boot :: "outside \<Rightarrow> environment \<Rightarrow> stage list \<times> main_error option" where
  "boot X env =
     attempt_stages (refusal_of X env) (configuring @ probing @ migrating @ serving_stages)"

section \<open>What was attempted before\<close>

lemma attempted_in: "set (fst (attempt_stages f xs)) \<subseteq> set xs"
  by (induction xs) (auto split: option.splits prod.splits)

lemma attempted_append:
  "attempt_stages f (xs @ ys) =
     (case attempt_stages f xs of
        (tried, Some e) \<Rightarrow> (tried, Some e)
      | (tried, None) \<Rightarrow> (case attempt_stages f ys of (later, r) \<Rightarrow> (tried @ later, r)))"
  by (induction xs) (auto split: option.splits prod.splits)

lemma attempted_all: "snd (attempt_stages f xs) = None \<longleftrightarrow> (\<forall>x \<in> set xs. f x = None)"
  by (induction xs) (auto split: option.splits prod.splits)

lemma attempted_before:
  assumes "x \<in> set (fst (attempt_stages f (xs @ ys)))" and "x \<notin> set xs"
  shows "\<forall>y \<in> set xs. f y = None"
proof -
  have "snd (attempt_stages f xs) = None"
    using assms attempted_in[of f xs]
    by (auto simp: attempted_append split: option.splits prod.splits)
  then show ?thesis by (simp add: attempted_all)
qed

text \<open>C35. The order of a boot: the engine is not connected to before the whole configuration has been
  read and accepted - twelve knobs, the lock's wait, the transport, the limits, the password, the
  schedule; no migration is applied before the probe found the engine capable; nothing is served, no
  address read, before the migrations are applied; and a refused boot never spawns the server.\<close>

theorem boot_in_order:
  "(Connect_probe \<in> set (fst (boot X env)) \<longrightarrow>
      first_refusal (knob_problem env) (knobs (o_types X)) = None
      \<and> (\<exists>raw n. env MIGRATION_LOCK_TIMEOUT_KEY = Some raw \<and> parse_int i32 raw = Inr n)
      \<and> (\<exists>pw. env ''DB_PASSWORD_FILE'' = Some pw \<and> pw \<noteq> [])
      \<and> (\<forall>st \<in> set configuring. refusal_of X env st = None))
   \<and> (Apply_migrations \<in> set (fst (boot X env)) \<longrightarrow>
      (\<forall>st \<in> set (configuring @ probing). refusal_of X env st = None))
   \<and> (set serving_stages \<inter> set (fst (boot X env)) \<noteq> {} \<longrightarrow>
      (\<forall>st \<in> set (configuring @ probing @ migrating). refusal_of X env st = None))
   \<and> (snd (boot X env) \<noteq> None \<longrightarrow> Spawn_server \<notin> set (fst (boot X env)))"
proof (intro conjI impI)
  let ?f = "refusal_of X env"
  assume "Connect_probe \<in> set (fst (boot X env))"
  then have conf: "\<forall>st \<in> set configuring. ?f st = None"
    unfolding boot_def by (rule attempted_before) (simp add: configuring_def)
  then show "\<forall>st \<in> set configuring. ?f st = None" .
  from conf have "?f Read_pool_config = None" "?f Read_migration_lock = None" "?f Read_password_path = None"
    by (simp_all add: configuring_def)
  then obtain config lock pw where "pool_config (o_types X) (o_ssl_mode X) env = Inr config"
    and "migration_lock (o_lock_options X) env = Inr lock" and "env_required env ''DB_PASSWORD_FILE'' = Inr pw"
    by (auto simp: refusal_of_def bound_config_def refused_by_def split: sum.splits)
  then show "first_refusal (knob_problem env) (knobs (o_types X)) = None"
    and "\<exists>raw n. env MIGRATION_LOCK_TIMEOUT_KEY = Some raw \<and> parse_int i32 raw = Inr n"
    and "\<exists>pw. env ''DB_PASSWORD_FILE'' = Some pw \<and> pw \<noteq> []"
    by (auto simp: pool_config_Inr migration_lock_Inr env_required_def split: option.splits if_splits)
next
  assume "Apply_migrations \<in> set (fst (boot X env))"
  then have "Apply_migrations \<in> set (fst (attempt_stages (refusal_of X env)
      ((configuring @ probing) @ migrating @ serving_stages)))"
    by (simp add: boot_def)
  then show "\<forall>st \<in> set (configuring @ probing). refusal_of X env st = None"
    by (rule attempted_before) (simp add: configuring_def probing_def)
next
  assume "set serving_stages \<inter> set (fst (boot X env)) \<noteq> {}"
  then obtain st where st: "st \<in> set serving_stages"
    and "st \<in> set (fst (attempt_stages (refusal_of X env) ((configuring @ probing @ migrating) @ serving_stages)))"
    by (auto simp: boot_def)
  then show "\<forall>st \<in> set (configuring @ probing @ migrating). refusal_of X env st = None"
    by (elim attempted_before) (auto simp: configuring_def probing_def migrating_def serving_stages_def)
next
  assume refused: "snd (boot X env) \<noteq> None"
  show "Spawn_server \<notin> set (fst (boot X env))"
  proof
    let ?xs = "configuring @ probing @ migrating @ butlast serving_stages"
    assume "Spawn_server \<in> set (fst (boot X env))"
    then have "Spawn_server \<in> set (fst (attempt_stages (refusal_of X env) (?xs @ [Spawn_server])))"
      by (simp add: boot_def serving_stages_def)
    then have "\<forall>st \<in> set ?xs. refusal_of X env st = None"
      by (rule attempted_before) (simp add: configuring_def probing_def migrating_def serving_stages_def)
    moreover have "refusal_of X env Spawn_server = None" by (simp add: refusal_of_def)
    ultimately have "snd (boot X env) = None"
      unfolding boot_def by (auto simp: attempted_all serving_stages_def)
    with refused show False by simp
  qed
qed

end
