(* ===== verification/Process.thy ===== *)
theory Process
  imports Boot_Order
begin

text \<open>
  \<open>src/main.rs\<close> from end to end - what the process prints and exits with - and \<open>src/rotate.rs\<close>:
  which files it watches. The boot is \<^theory_text>\<open>Boot_Order\<close>'s; \<open>yadgar-lifecycle\<close> answers how the serve
  ended (\<open>drain_within\<close>) and assembles the watch set (\<open>Inputs::of\<close>).
\<close>

section \<open>The knobs \<open>main\<close> reads itself\<close>

text \<open>\<open>std::env::var\<close>: a variable may be unset, or set to what is no UTF-8.\<close>

datatype var = Unset | Not_unicode | Set_to string

type_synonym variables = "string \<Rightarrow> var"

text \<open>The lookup \<open>main\<close> hands to \<open>boot\<close>: \<open>|key| std::env::var(key).ok()\<close>.\<close>

definition lookup_of :: "variables \<Rightarrow> environment" where
  "lookup_of vars = (\<lambda>key. case vars key of Set_to value \<Rightarrow> Some value | _ \<Rightarrow> None)"

definition main_env_required :: "variables \<Rightarrow> string \<Rightarrow> string + string" where
  "main_env_required vars key =
     (case vars key of
        Set_to value \<Rightarrow>
          (if value \<noteq> [] then Inr value
           else Inl (key @ '' is set but EMPTY. It has no compiled-in default (ADR-0569), so there is ''
             @ ''nothing to fall back to. The chart renders it; a values override that nulls it ''
             @ ''produces exactly this.''))
      | _ \<Rightarrow>
          Inl (key @ '' is NOT SET. It has no compiled-in default (ADR-0569): this process reads ''
            @ ''it from the environment alone and refuses to start rather than invent a value. ''
            @ ''The chart renders it.''))"

text \<open>The two helpers are one: \<open>main\<close>'s own reads what \<open>boot\<close>'s reads of the lookup, and refuses in
  the same sentence.\<close>

lemma main_env_required_eq:
  "main_env_required vars key = map_err display_knob (env_required (lookup_of vars) key)"
  by (simp add: main_env_required_def lookup_of_def env_required_def map_err_def split: var.split)

section \<open>The watch set\<close>

definition SERVICE :: string where
  "SERVICE = ''project-db''"

text \<open>The materials of a set, as \<open>rotate::watch_set\<close> lists them: the listener's, the password's path,
  the engine authority's path, the mounted document.\<close>

datatype ('tls, 'doc) material =
    Listener_material "'tls option"
  | Path_material string
  | Optional_path_material "string option"
  | Document_material 'doc

definition watch_set ::
  "(string \<Rightarrow> ('tls, 'doc) material list \<Rightarrow> 'inputs) \<Rightarrow> 'tls option \<Rightarrow> string \<Rightarrow> string option \<Rightarrow> 'doc \<Rightarrow> 'inputs" where
  "watch_set inputs_of listener db_password db_ssl_ca config =
     inputs_of SERVICE
       [Listener_material listener, Path_material db_password, Optional_path_material db_ssl_ca,
        Document_material config]"

text \<open>What \<open>run\<close> hands it: the transport it read, the path of the password it read, the authority the
  pool's configuration names, the mounted document.\<close>

definition bound_inputs ::
  "outside \<Rightarrow> (string \<Rightarrow> (string, 'doc) material list \<Rightarrow> 'inputs) \<Rightarrow> 'doc \<Rightarrow> environment \<Rightarrow> main_error + 'inputs" where
  "bound_inputs X inputs_of doc env =
     or_refuse (map_err Boot_refused (bound_config X env)) (\<lambda>config.
     or_refuse (map_err Boot_refused (bound_tls X env)) (\<lambda>tls.
     or_refuse (map_err Knob_refused (env_required env ''DB_PASSWORD_FILE'')) (\<lambda>password_path.
       Inr (watch_set inputs_of tls password_path (pc_ssl_ca config) doc))))"

section \<open>How a serve ends\<close>

text \<open>\<open>drain_within\<close>: the server stopped, by itself or asked to, with its error's chain if it had one;
  or the drain overran its budget.\<close>

datatype drain = Finished "string option" | Overran

datatype run_error = Not_started main_error | Serve_failed string string

definition serve_end :: "string \<Rightarrow> drain \<Rightarrow> run_error option" where
  "serve_end addr ended =
     (case ended of
        Finished None \<Rightarrow> None
      | Finished (Some chain) \<Rightarrow> Some (Serve_failed addr chain)
      | Overran \<Rightarrow> None)"

text \<open>\<open>run\<close>: the boot, and when it served, how that ended. The address is the one \<open>LISTEN\<close> parsed to.\<close>

definition run :: "outside \<Rightarrow> environment \<Rightarrow> drain \<Rightarrow> run_error option" where
  "run X env ended =
     (case snd (boot X env) of
        Some e \<Rightarrow> Some (Not_started e)
      | None \<Rightarrow>
          (case listen_address X env ''LISTEN'' of
             Inl e \<Rightarrow> Some (Not_started e) | Inr addr \<Rightarrow> serve_end addr ended))"

section \<open>What the process answers\<close>

fun display_main_error :: "(string \<Rightarrow> string) \<Rightarrow> main_error \<Rightarrow> string" where
  "display_main_error wide (Boot_refused e) = display_boot_error wide e"
| "display_main_error wide (Knob_refused e) = display_knob e"
| "display_main_error wide (Bad_address key e) = key @ '' is not a usable socket address: '' @ e @ ''.''"
| "display_main_error wide (Refused_outside sentence) = sentence"

fun display_run_error :: "(string \<Rightarrow> string) \<Rightarrow> run_error \<Rightarrow> string" where
  "display_run_error wide (Not_started e) = display_main_error wide e"
| "display_run_error wide (Serve_failed addr chain) =
     ''the gRPC server on LISTEN='' @ addr @ '' stopped with an error: '' @ chain"

record exit =
  ex_stderr :: string
  ex_code :: nat

definition newline :: string where
  "newline = [char_of (10 :: nat)]"

definition main :: "(string \<Rightarrow> string) \<Rightarrow> outside \<Rightarrow> variables \<Rightarrow> drain \<Rightarrow> exit" where
  "main wide X vars ended =
     (case run X (lookup_of vars) ended of
        None \<Rightarrow> \<lparr>ex_stderr = [], ex_code = 0\<rparr>
      | Some e \<Rightarrow> \<lparr>ex_stderr = ''Error: '' @ display_run_error wide e @ newline, ex_code = 1\<rparr>)"

section \<open>What it promises\<close>

lemma boot_served:
  assumes "snd (boot X env) = None"
  shows "\<exists>addr. listen_address X env ''LISTEN'' = Inr addr"
proof -
  have "refusal_of X env Read_listen = None"
    using assms by (simp add: boot_def attempted_all serving_stages_def)
  then show ?thesis by (auto simp: refusal_of_def refused_by_def split: sum.splits)
qed

text \<open>C37. The exit tells the supervisor the truth: 0, with nothing on stderr, exactly when the whole
  boot succeeded and the serve ended without an error of the server - a drain that overran its budget
  included; otherwise 1, with one sentence, which is the refusal of the first stage that refused, or
  names the address the server failed on and why. A refused knob of \<open>main\<close>'s own reads as one of
  \<open>boot\<close>'s.\<close>

theorem exit_status:
  "ex_code (main wide X vars ended) = (if run X (lookup_of vars) ended = None then 0 else 1)
   \<and> (ex_code (main wide X vars ended) = 0 \<longleftrightarrow>
        (\<forall>st \<in> set (configuring @ probing @ migrating @ serving_stages). refusal_of X (lookup_of vars) st = None)
        \<and> (ended = Overran \<or> ended = Finished None))
   \<and> (ex_code (main wide X vars ended) = 0 \<longrightarrow> ex_stderr (main wide X vars ended) = [])
   \<and> (\<forall>e. snd (boot X (lookup_of vars)) = Some e \<longrightarrow>
        ex_stderr (main wide X vars ended) = ''Error: '' @ display_main_error wide e @ newline)
   \<and> (\<forall>chain. snd (boot X (lookup_of vars)) = None \<longrightarrow> ended = Finished (Some chain) \<longrightarrow>
        (\<exists>addr. listen_address X (lookup_of vars) ''LISTEN'' = Inr addr
          \<and> ex_stderr (main wide X vars ended)
            = ''Error: the gRPC server on LISTEN='' @ addr @ '' stopped with an error: '' @ chain @ newline))
   \<and> main_env_required vars key = map_err display_knob (env_required (lookup_of vars) key)"
proof -
  let ?env = "lookup_of vars" and ?all = "configuring @ probing @ migrating @ serving_stages"
  have ok: "snd (boot X ?env) = None \<longleftrightarrow> (\<forall>st \<in> set ?all. refusal_of X ?env st = None)"
    unfolding boot_def by (rule attempted_all)
  show ?thesis
  proof (cases "snd (boot X ?env)")
    case (Some e)
    then have "\<not> (\<forall>st \<in> set ?all. refusal_of X ?env st = None)" using ok by simp
    with Some show ?thesis by (simp add: main_def run_def main_env_required_eq del: set_append)
  next
    case None
    then have all: "\<forall>st \<in> set ?all. refusal_of X ?env st = None" using ok by simp
    obtain addr where "listen_address X ?env ''LISTEN'' = Inr addr" using boot_served[OF None] by blast
    with None all show ?thesis
      by (cases ended) (auto simp: main_def run_def serve_end_def main_env_required_eq simp del: set_append split: option.splits)
  qed
qed

text \<open>The process watches exactly the files it reads at boot: when the configuration was accepted,
  the set names the service and holds the listener's files when it serves TLS, the password's path
  - always, so it is never empty -, the authority's path when one is named and not blank, and the
  mounted document, in that order; \<open>files_of\<close> is what \<open>Inputs::of\<close> documents.\<close>

theorem watches_what_it_read:
  assumes "\<And>service ms. watched (inputs_of service ms) = concat (map files ms)"
    and "\<And>tls. files (Listener_material (Some tls)) = tls_files tls" "files (Listener_material None) = []"
    and "\<And>p. files (Path_material p) = [p]" "\<And>p. files (Optional_path_material (Some p)) = [p]"
    and "files (Optional_path_material None) = []" "\<And>doc. files (Document_material doc) = [doc_file doc]"
    and "Probe_options \<in> set (fst (boot X env))"
  shows "\<exists>inputs tls pw. bound_inputs X inputs_of doc env = Inr inputs
    \<and> bound_tls X env = Inr tls \<and> env ''DB_PASSWORD_FILE'' = Some pw \<and> pw \<noteq> []
    \<and> watched inputs = (case tls of None \<Rightarrow> [] | Some t \<Rightarrow> tls_files t) @ [pw]
        @ (case env SSL_CA_KEY of None \<Rightarrow> [] | Some ca \<Rightarrow> if trim ca = [] then [] else [trim ca])
        @ [doc_file doc]"
proof -
  have split: "configuring @ probing @ migrating @ serving_stages
      = butlast configuring @ (Probe_options # probing @ migrating @ serving_stages)"
    by (simp add: configuring_def)
  have "\<forall>st \<in> set (butlast configuring). refusal_of X env st = None"
    using assms(8) unfolding boot_def split by (rule attempted_before) (simp add: configuring_def)
  then have "refusal_of X env Read_pool_config = None" "refusal_of X env Read_listener_tls = None"
    "refusal_of X env Read_password_path = None"
    by (simp_all add: configuring_def)
  then obtain config tls pw where config: "bound_config X env = Inr config" and tls: "bound_tls X env = Inr tls"
    and pw: "env_required env ''DB_PASSWORD_FILE'' = Inr pw"
    by (auto simp: refusal_of_def refused_by_def split: sum.splits)
  have ca: "pc_ssl_ca config = ssl_ca env"
    using config unfolding bound_config_def pool_config_refuses_first by (auto split: option.splits sum.splits)
  have "env ''DB_PASSWORD_FILE'' = Some pw" "pw \<noteq> []"
    using pw by (auto simp: env_required_def split: option.splits if_splits)
  moreover have "bound_inputs X inputs_of doc env = Inr (watch_set inputs_of tls pw (ssl_ca env) doc)"
    by (simp add: bound_inputs_def or_refuse_def map_err_def config tls pw ca)
  moreover have "watched (watch_set inputs_of tls pw (ssl_ca env) doc)
      = (case tls of None \<Rightarrow> [] | Some t \<Rightarrow> tls_files t) @ [pw]
        @ (case env SSL_CA_KEY of None \<Rightarrow> [] | Some ca \<Rightarrow> if trim ca = [] then [] else [trim ca])
        @ [doc_file doc]"
    by (simp add: watch_set_def ssl_ca_def Let_def assms(1-7) split: option.split)
  ultimately show ?thesis using tls by blast
qed

end
