(* ===== verification/Connection.thy ===== *)
theory Connection
  imports Prelude
begin

text \<open>
  \<open>src/pooled.rs\<close>: one pooled connection through the rpcs that borrow it. A handler can be dropped
  wherever it awaits - tonic drops it at the caller's deadline - so a connection is a step relation:
  what the handler does, what the engine does behind its back, and the drop at any point.

  Of the driver it takes what \<open>Pooled::begin\<close>'s own documentation says of \<open>sqlx\<close>: the driver counts a
  transaction once \<open>BEGIN\<close> has returned; dropping a counted transaction queues a \<open>ROLLBACK\<close>; returning
  a connection reads the answer of a \<open>BEGIN\<close> still in flight, and closing one ends whatever
  transaction the engine has open on it.
\<close>

datatype place = Borrowed | Returned | Closed

text \<open>\<open>armed\<close> is the field of \<open>Pooled\<close>; \<open>depth\<close> is what the driver counts; \<open>open_tx\<close> is whether the
  engine is inside a transaction on this connection.\<close>

record connection =
  place_of :: place
  armed :: bool
  in_flight :: bool
  depth :: nat
  open_tx :: bool

definition fresh_connection :: connection where
  "fresh_connection =
     \<lparr>place_of = Returned, armed = False, in_flight = False, depth = 0, open_tx = False\<rparr>"

text \<open>\<open>Drop for Pooled\<close>, after the \<open>Transaction\<close> borrowed from it has been dropped.\<close>

definition dropped :: "connection \<Rightarrow> connection" where
  "dropped c =
     (let c = (if depth c > 0 then c\<lparr>depth := 0, open_tx := False\<rparr> else c) in
      if armed c then c\<lparr>place_of := Closed, in_flight := False, open_tx := False\<rparr>
      else c\<lparr>place_of := Returned, in_flight := False, open_tx := open_tx c \<or> in_flight c\<rparr>)"

text \<open>\<open>arms\<close> says whether \<open>begin\<close> arms the connection, as \<open>Pooled::begin\<close> does, or not, as the pool's
  own does.\<close>

inductive step :: "bool \<Rightarrow> connection \<Rightarrow> connection \<Rightarrow> bool" for arms where
  take_out: "place_of c = Returned \<Longrightarrow> step arms c (c\<lparr>place_of := Borrowed, armed := False\<rparr>)"
| begin_sent: "place_of c = Borrowed \<Longrightarrow> \<not> in_flight c \<Longrightarrow> depth c = 0 \<Longrightarrow>
    step arms c (c\<lparr>armed := arms, in_flight := True\<rparr>)"
| engine_begins: "in_flight c \<Longrightarrow> step arms c (c\<lparr>open_tx := True\<rparr>)"
| begin_returned: "place_of c = Borrowed \<Longrightarrow> in_flight c \<Longrightarrow> open_tx c \<Longrightarrow>
    step arms c (c\<lparr>armed := False, in_flight := False, depth := 1\<rparr>)"
| begin_failed: "place_of c = Borrowed \<Longrightarrow> in_flight c \<Longrightarrow> step arms c (c\<lparr>in_flight := False\<rparr>)"
| finish: "place_of c = Borrowed \<Longrightarrow> depth c > 0 \<Longrightarrow> step arms c (c\<lparr>depth := 0, open_tx := False\<rparr>)"
| drop_handler: "place_of c = Borrowed \<Longrightarrow> step arms c (dropped c)"

inductive_cases stepE: "step arms c c'"

inductive reachable :: "bool \<Rightarrow> connection \<Rightarrow> bool" for arms where
  fresh: "reachable arms fresh_connection"
| later: "reachable arms c \<Longrightarrow> step arms c c' \<Longrightarrow> reachable arms c'"

text \<open>The engine is inside a transaction only while the driver counts one, or the connection is
  armed.\<close>

definition accounted :: "connection \<Rightarrow> bool" where
  "accounted c \<longleftrightarrow>
     (open_tx c \<longrightarrow> place_of c = Borrowed \<and> (armed c \<or> depth c > 0))
     \<and> (in_flight c \<longrightarrow> place_of c = Borrowed \<and> armed c \<and> depth c = 0)
     \<and> (armed c \<longrightarrow> place_of c \<noteq> Returned \<and> depth c = 0)
     \<and> (depth c > 0 \<longrightarrow> place_of c = Borrowed)"

lemma step_accounted: "step True c c' \<Longrightarrow> accounted c \<Longrightarrow> accounted c'"
  by (erule stepE) (auto simp: accounted_def dropped_def Let_def)

lemma reachable_accounted: "reachable True c \<Longrightarrow> accounted c"
proof (induction rule: reachable.induct)
  case fresh
  show ?case by (simp add: accounted_def fresh_connection_def)
qed (rule step_accounted)

text \<open>C26. Nobody borrows a connection the engine still holds inside a transaction: wherever a handler
  is dropped - before \<open>BEGIN\<close> is answered, after it failed, half way through the transaction - the
  connection is clean when it is back in the pool. Without the arming of \<open>Pooled::begin\<close> it need not
  be: a handler dropped while \<open>BEGIN\<close> is in flight leaves one that is not.\<close>

theorem returned_connections_are_clean:
  "(\<forall>c. reachable True c \<longrightarrow> place_of c = Returned \<longrightarrow> \<not> open_tx c \<and> depth c = 0)
   \<and> (\<exists>c. reachable False c \<and> place_of c = Returned \<and> open_tx c)"
proof (intro conjI allI impI exI)
  fix c
  assume c: "reachable True c" "place_of c = Returned"
  from reachable_accounted[OF c(1)] c(2) show "\<not> open_tx c" and "depth c = 0"
    by (auto simp: accounted_def)
next
  let ?c1 = "fresh_connection\<lparr>place_of := Borrowed, armed := False\<rparr>"
  let ?c2 = "?c1\<lparr>armed := False, in_flight := True\<rparr>"
  have "reachable False ?c1"
    by (rule reachable.later[OF reachable.fresh step.take_out]) (simp add: fresh_connection_def)
  then have "reachable False ?c2"
    by (rule reachable.later[OF _ step.begin_sent]) (simp_all add: fresh_connection_def)
  then show "reachable False (dropped ?c2)"
    by (rule reachable.later[OF _ step.drop_handler]) (simp add: fresh_connection_def)
  show "place_of (dropped ?c2) = Returned" and "open_tx (dropped ?c2)"
    by (simp_all add: dropped_def fresh_connection_def)
qed

end
