(* ===== verification/Acquire.thy ===== *)
theory Acquire
  imports Tx
begin

text \<open>
  \<open>Pooled::acquire\<close> against the clock: how long a call waits for its connection. What the code
  relies on of \<open>yadgar_dial::Deadline\<close> and of the pool's own timer is stated as hypotheses.
\<close>

section \<open>The wait\<close>

text \<open>The answer, when it comes, and whether the pool was asked at all. \<open>tokio::time::timeout\<close> ends
  at the bound; an answer of the pool ends the wait before that.\<close>

record acquired =
  aq_answer :: "status + unit"
  aq_after :: nat
  aq_asked :: bool

definition acquire_timed :: "pool \<Rightarrow> deadline \<Rightarrow> acquired" where
  "acquire_timed P d =
     (let ceiling = acquire_timeout P; bound = bound_of d ceiling in
      if remaining d = None \<or> bound \<ge> ceiling
      then \<lparr>aq_answer = pool_acquire P, aq_after = pool_answers_after P, aq_asked = True\<rparr>
      else if bound = 0 then \<lparr>aq_answer = Inl spent, aq_after = 0, aq_asked = False\<rparr>
      else if pool_answers_after P \<le> bound
      then \<lparr>aq_answer = pool_acquire P, aq_after = pool_answers_after P, aq_asked = True\<rparr>
      else \<lparr>aq_answer = Inl spent, aq_after = bound, aq_asked = True\<rparr>)"

lemma acquire_timed_answer: "aq_answer (acquire_timed P d) = acquire P d"
  by (simp add: acquire_timed_def acquire_def Let_def)

section \<open>What the libraries document\<close>

text \<open>\<open>Deadline::bound\<close>: the ceiling without a deadline, else what is left less the margin, within the
  ceiling. The pool's own timer ends every acquire at its timeout.\<close>

definition deadline_law :: "nat \<Rightarrow> deadline \<Rightarrow> bool" where
  "deadline_law margin d \<longleftrightarrow>
     (\<forall>ceiling. bound_of d ceiling =
        (case remaining d of None \<Rightarrow> ceiling | Some left \<Rightarrow> min ceiling (left - margin)))"

definition pool_law :: "pool \<Rightarrow> bool" where
  "pool_law P \<longleftrightarrow> pool_answers_after P \<le> acquire_timeout P"

section \<open>The bound\<close>

text \<open>C27. No call waits past its caller: the wait for a connection ends within the pool's own
  timeout and, for a caller with a deadline, a margin before it, so that the refusal can still be
  answered and recorded. It is the pool's answer whenever that comes in time - always, when the
  caller set no deadline or one beyond the timeout - and \<open>DEADLINE_EXCEEDED\<close> otherwise; with no
  time left the pool is not asked.\<close>

theorem acquire_within_deadline:
  assumes "deadline_law margin d" and "pool_law P"
  shows "aq_answer (acquire_timed P d) = acquire P d
    \<and> aq_after (acquire_timed P d) \<le> acquire_timeout P
    \<and> (case remaining d of
         None \<Rightarrow> acquire P d = pool_acquire P
       | Some left \<Rightarrow>
           aq_after (acquire_timed P d) \<le> left - margin
           \<and> acquire P d =
               (if acquire_timeout P \<le> left - margin
                   \<or> margin < left \<and> pool_answers_after P \<le> left - margin
                then pool_acquire P else Inl (Status Deadline_exceeded (In_engine Deadline_spent)))
           \<and> (aq_asked (acquire_timed P d) \<longleftrightarrow> margin < left \<or> acquire_timeout P = 0))"
proof -
  have b: "bound_of d (acquire_timeout P) =
      (case remaining d of None \<Rightarrow> acquire_timeout P | Some left \<Rightarrow> min (acquire_timeout P) (left - margin))"
    using assms(1) by (simp add: deadline_law_def)
  show ?thesis
  proof (cases "remaining d")
    case None
    then show ?thesis
      using b assms(2) by (simp add: acquire_timed_def acquire_def Let_def pool_law_def)
  next
    case (Some left)
    then show ?thesis
      using b assms(2) by (auto simp: acquire_timed_def acquire_def Let_def pool_law_def spent_def)
  qed
qed

end
