(* ===== verification/Boot_Examples.thy ===== *)
theory Boot_Examples
  imports Process Connection Acquire
begin

text \<open>The chart's shipped values, and a connection dropped half way through its \<open>BEGIN\<close>.\<close>

definition sample_knobs :: environment where
  "sample_knobs = map_of
     [(''DB_HOST'', ''mariadb''), (''DB_PORT'', ''3306''), (''DB_NAME'', ''project''),
      (''DB_USER'', ''project''), (''DB_MAX_CONNECTIONS'', ''10''), (''REPLICAS'', ''2''),
      (''DB_ENGINE_MAX_CONNECTIONS'', ''151''), (''DB_ENGINE_OPERATOR_RESERVE'', ''5''),
      (''DB_ACQUIRE_TIMEOUT_SECONDS'', ''5''), (''DB_IDLE_TIMEOUT_SECONDS'', ''600''),
      (''DB_MAX_LIFETIME_SECONDS'', ''1800''), (''DB_SSL_MODE'', ''required''),
      (''DB_MIGRATION_LOCK_TIMEOUT_SECONDS'', ''60''), (''DB_PASSWORD_FILE'', ''/run/db''),
      (''METRICS_LISTEN'', ''0.0.0.0:9090''), (''LISTEN'', ''0.0.0.0:50051'')]"

definition sample_outside :: outside where
  "sample_outside =
     \<lparr>o_types = \<lparr>ty_port = u16, ty_max_connections = u64, ty_replicas = u64,
                 ty_engine_max_connections = u64, ty_operator_reserve = u64\<rparr>,
      o_ssl_mode = Inr, o_lock_options = (\<lambda>n. if n < 1 then Inl ''below one second'' else Inr n),
      o_tls = (\<lambda>_ _ _. Inr None), o_limits = (\<lambda>_ _ _. Inr ''limits''), o_server = (\<lambda>_ _. Inr ()),
      o_secret = (\<lambda>_. Inr ''secret''), o_connect_options = (\<lambda>_ _. Inr ()), o_signals = Inr (),
      o_address = Inr, o_satisfies = (\<lambda>_. None), o_new_set = (\<lambda>_. None), o_stage = (\<lambda>_. None)\<rparr>"

theorem number_roundtrip_example: "parse_int i32 (display_int (- 300)) = Inr (- 300)"
  using number_roundtrip[OF proper_types(1), of "- 300"] by (simp add: i32_def)

lemma sample_boots: "boot sample_outside sample_knobs = (configuring @ probing @ migrating @ serving_stages, None)"
  by code_simp

theorem boot_example:
  "list_all (\<lambda>st. refusal_of sample_outside sample_knobs st = None) (configuring @ probing @ migrating)
   \<and> first_refusal (knob_problem sample_knobs) (knobs (o_types sample_outside)) = None"
proof -
  have "set serving_stages \<inter> set (fst (boot sample_outside sample_knobs)) \<noteq> {}"
    and "Connect_probe \<in> set (fst (boot sample_outside sample_knobs))"
    by (simp_all add: sample_boots serving_stages_def probing_def)
  then show ?thesis using boot_in_order[of sample_outside sample_knobs] unfolding list_all_iff by blast
qed

text \<open>Taken out, \<open>BEGIN\<close> sent and answered, the handler dropped.\<close>

definition used_connection :: connection where
  "used_connection =
     dropped (fresh_connection\<lparr>place_of := Borrowed, armed := False, in_flight := False, depth := 1, open_tx := True\<rparr>)"

theorem used_connection_clean: "\<not> open_tx used_connection"
proof -
  let ?c1 = "fresh_connection\<lparr>place_of := Borrowed, armed := False\<rparr>"
  let ?c2 = "?c1\<lparr>armed := True, in_flight := True\<rparr>"
  let ?c3 = "?c2\<lparr>open_tx := True\<rparr>"
  let ?c4 = "?c3\<lparr>armed := False, in_flight := False, depth := 1\<rparr>"
  have "reachable True ?c1"
    by (rule reachable.later[OF reachable.fresh step.take_out]) (simp add: fresh_connection_def)
  then have "reachable True ?c2"
    by (rule reachable.later[OF _ step.begin_sent]) (simp_all add: fresh_connection_def)
  then have "reachable True ?c3"
    by (rule reachable.later[OF _ step.engine_begins]) (simp add: fresh_connection_def)
  then have "reachable True ?c4"
    by (rule reachable.later[OF _ step.begin_returned]) (simp_all add: fresh_connection_def)
  then have "reachable True (dropped ?c4)"
    by (rule reachable.later[OF _ step.drop_handler]) (simp add: fresh_connection_def)
  moreover have "dropped ?c4 = used_connection" by (simp add: used_connection_def fresh_connection_def)
  moreover have "place_of used_connection = Returned"
    by (simp add: used_connection_def dropped_def fresh_connection_def)
  ultimately show ?thesis using returned_connections_are_clean by metis
qed

section \<open>The process\<close>

text \<open>The variables of the chart, one of them emptied.\<close>

definition sample_vars :: variables where
  "sample_vars key = (case sample_knobs key of None \<Rightarrow> Unset | Some value \<Rightarrow> Set_to value)"

definition nulled_vars :: variables where
  "nulled_vars = sample_vars(''DB_NAME'' := Set_to [])"

lemma sample_lookup: "lookup_of sample_vars = sample_knobs"
  by (auto simp: lookup_of_def sample_vars_def split: option.split)

lemma nulled_refused:
  "snd (boot sample_outside (lookup_of nulled_vars)) = Some (Boot_refused (Missing_knob (Empty_knob ''DB_NAME'') ''database.name''))"
  by code_simp

text \<open>The refusal and the sentence, ending in the chart value to set; and a TLS mode the store does
  not take, in the store's words.\<close>

lemma nulled_config:
  "pool_config (o_types sample_outside) (o_ssl_mode sample_outside) (lookup_of nulled_vars)
     = Inl (Missing_knob (Empty_knob ''DB_NAME'') ''database.name'')"
  by code_simp

definition two_modes :: "string \<Rightarrow> string + string" where
  "two_modes mode = (if mode \<in> {''required'', ''verify_identity''} then Inr mode else Inl (''unknown ssl mode '' @ mode))"

definition mistyped_mode :: environment where
  "mistyped_mode = sample_knobs(''DB_SSL_MODE'' := Some ''yes'')"

lemma mistyped_config:
  "pool_config (o_types sample_outside) two_modes mistyped_mode = Inl (Pool ''unknown ssl mode yes'')"
  by code_simp

lemma first_problems:
  "find (\<lambda>k. knob_problem (lookup_of nulled_vars) k \<noteq> None) (knobs (o_types sample_outside))
     = Some (''DB_NAME'', ''database.name'', None)"
  "find (\<lambda>k. knob_problem mistyped_mode k \<noteq> None) (knobs (o_types sample_outside)) = None"
  by code_simp+

theorem refusal_says_example:
  "says (lookup_of nulled_vars) (\<lambda>c. c) ''DB_NAME'' ''database.name''
       (display_boot_error (\<lambda>c. c) (Missing_knob (Empty_knob ''DB_NAME'') ''database.name''))
   \<and> (\<exists>mode. mistyped_mode SSL_MODE_KEY = Some mode \<and> two_modes mode = Inl ''unknown ssl mode yes'')"
  using refusal_says_what_to_set[OF nulled_config, of "\<lambda>c. c", unfolded first_problems option.case prod.case]
    refusal_says_what_to_set[OF mistyped_config, of "\<lambda>c. c", unfolded first_problems option.case]
  by blast

theorem exit_example:
  "ex_code (main (\<lambda>c. c) sample_outside sample_vars Overran) = 0
   \<and> ex_stderr (main (\<lambda>c. c) sample_outside nulled_vars Overran)
      = ''Error: '' @ display_main_error (\<lambda>c. c)
          (Boot_refused (Missing_knob (Empty_knob ''DB_NAME'') ''database.name'')) @ newline"
proof -
  have "snd (boot sample_outside (lookup_of sample_vars)) = None"
    unfolding sample_lookup sample_boots by simp
  then have "\<forall>st \<in> set (configuring @ probing @ migrating @ serving_stages).
      refusal_of sample_outside (lookup_of sample_vars) st = None"
    unfolding boot_def attempted_all .
  then show ?thesis
    using exit_status[of "\<lambda>c. c" sample_outside sample_vars Overran]
      exit_status[of "\<lambda>c. c" sample_outside nulled_vars Overran] nulled_refused by blast
qed

text \<open>The watch set of a cleartext listener: the password and the mounted document.\<close>

fun sample_files :: "(string, string) material \<Rightarrow> string list" where
  "sample_files (Listener_material None) = []"
| "sample_files (Listener_material (Some tls)) = [tls]"
| "sample_files (Path_material p) = [p]"
| "sample_files (Optional_path_material None) = []"
| "sample_files (Optional_path_material (Some p)) = [p]"
| "sample_files (Document_material doc) = [doc]"

theorem watches_example:
  "\<exists>inputs. bound_inputs sample_outside (\<lambda>_ ms. concat (map sample_files ms)) ''shared.yaml'' sample_knobs
       = Inr inputs \<and> set inputs = {''/run/db'', ''shared.yaml''}"
proof -
  have reached: "Probe_options \<in> set (fst (boot sample_outside sample_knobs))"
    by (simp add: sample_boots configuring_def)
  have tls: "bound_tls sample_outside sample_knobs = Inr None"
    by (simp add: bound_tls_def listener_tls_def map_err_def sample_outside_def)
  have knobs: "sample_knobs ''DB_PASSWORD_FILE'' = Some ''/run/db''" "sample_knobs SSL_CA_KEY = None"
    by (simp_all add: sample_knobs_def SSL_CA_KEY_def)
  from watches_what_it_read[where watched = "\<lambda>x. x" and inputs_of = "\<lambda>_ ms. concat (map sample_files ms)"
      and files = sample_files and tls_files = "\<lambda>t. [t]" and doc_file = "\<lambda>d. d" and doc = "''shared.yaml''",
      OF _ _ _ _ _ _ _ reached] tls knobs
  show ?thesis by auto
qed

section \<open>Waiting for a connection\<close>

text \<open>Ten units left of the caller's time, a margin of two, and a pool that would answer after twenty.\<close>

definition busy_pool :: pool where
  "busy_pool = \<lparr>acquire_timeout = 25, pool_answer = None, pool_answers_after = 20\<rparr>"

definition short_deadline :: deadline where
  "short_deadline = \<lparr>remaining = Some 10, bound_of = (\<lambda>ceiling. min ceiling (10 - 2))\<rparr>"

theorem acquire_example:
  "acquire busy_pool short_deadline = Inl (Status Deadline_exceeded (In_engine Deadline_spent))
   \<and> aq_after (acquire_timed busy_pool short_deadline) \<le> 8"
proof -
  have "deadline_law 2 short_deadline" "pool_law busy_pool"
    by (simp_all add: deadline_law_def pool_law_def short_deadline_def busy_pool_def)
  from acquire_within_deadline[OF this] show ?thesis by (simp add: short_deadline_def busy_pool_def)
qed

end
