(* ===== verification/Contract_Types.thy ===== *)
theory Contract_Types
  imports Registry Pagination
begin

text \<open>
  The answers have the type the contract gives them. Whatever the engine does, an rpc that succeeds
  on a well-formed registry answers only what \<open>project.proto\<close> admits: known enum values, legal
  paths, bounded pages, an owner exactly on a private path and grants only off it.
\<close>

section \<open>A read that succeeded met no fault\<close>

text \<open>A read propagates every engine error, so one that succeeded ran as on an engine without faults.\<close>

definition calm :: "env \<Rightarrow> env" where
  "calm E = E\<lparr>fault := \<lambda>_. None\<rparr>"

definition answers_as :: "'a txm \<Rightarrow> 'a txm \<Rightarrow> bool" where
  "answers_as m m' \<longleftrightarrow> (\<forall>t x t'. m t = (Inr x, t') \<longrightarrow> m' t = (Inr x, t'))"

named_theorems calm_rules \<open>bodies that answer the same without faults\<close>

lemma calm_env [simp]: "coll (calm E) = coll E" "the_pool (calm E) = the_pool E" "no_faults (calm E)"
  by (simp_all add: calm_def no_faults_def)

lemma answers_refl [calm_rules]: "answers_as m m"
  by (simp add: answers_as_def)

lemma answers_stmt [calm_rules]: "answers_as (stmt E q) (stmt (calm E) q)"
  by (auto simp: answers_as_def stmt_def attempt_def and_then_def ret_def fail_def calm_def
      split: option.splits sum.splits prod.splits)

lemma answers_and_then [calm_rules]:
  "answers_as m m' \<Longrightarrow> (\<And>x. answers_as (f x) (f' x)) \<Longrightarrow> answers_as (and_then m f) (and_then m' f')"
  unfolding answers_as_def by (blast dest: and_then_InrD intro: trans[OF and_then_Inr])

lemma answers_if [calm_rules]:
  "answers_as a a' \<Longrightarrow> answers_as b b' \<Longrightarrow> answers_as (if c then a else b) (if c then a' else b')"
  by simp

lemma answers_pages [calm_rules]:
  "answers_as (with_aliases E ps) (with_aliases (calm E) ps)"
  "answers_as (with_grants E ps) (with_grants (calm E) ps)"
  by (auto simp: with_aliases_def with_grants_def Let_def intro!: calm_rules)

lemma answers_bodies:
  "answers_as (resolve_body E p) (resolve_body (calm E) p)"
  "answers_as (get_body E p) (get_body (calm E) p)"
  "answers_as (list_body E req limit status) (list_body (calm E) req limit status)"
  by (auto simp: resolve_body_def ancestor_rows_def get_body_def list_body_def Let_def
      intro!: calm_rules split: option.splits)

lemma calm_conn:
  "answers_as m m' \<Longrightarrow> run_conn E d m s = (Inr x, s') \<Longrightarrow>
   acquire (the_pool E) d = Inr () \<and> run_conn (calm E) d m' s = (Inr x, s')"
  by (auto simp: run_conn_def answers_as_def split: sum.splits prod.splits)

lemma calm_resolve:
  "resolve E req d s = (Inr r, s') \<Longrightarrow>
   resolve_checks req = Inr () \<and> acquire (the_pool E) d = Inr () \<and> resolve (calm E) req d s = (Inr r, s')"
  by (auto simp: resolve_def dest!: calm_conn[OF answers_bodies(1)] split: sum.splits)

lemma calm_get:
  assumes "get E req d s = (Inr r, s')"
  shows "path_ok (gt_path req) \<and> acquire (the_pool E) d = Inr () \<and> get (calm E) req d s = (Inr r, s')"
proof -
  from assms have ok: "validate ''path'' (gt_path req) = Inr ()"
    and run: "run_conn E d (get_body E (gt_path req)) s = (Inr r, s')"
    by (auto simp: get_def split: sum.splits)
  from ok have "path_ok (gt_path req)" by (simp only: validate_ok_iff)
  with calm_conn[OF answers_bodies(2) run] ok show ?thesis by (simp add: get_def)
qed

lemma calm_list:
  assumes "list_projects E req d s = (Inr r, s')"
  shows "\<exists>limit status. list_checks req = Inr (limit, status) \<and> acquire (the_pool E) d = Inr ()
     \<and> list_projects (calm E) req d s = (Inr r, s')"
proof -
  from assms obtain limit status where checks: "list_checks req = Inr (limit, status)"
    and run: "run_conn E d (list_body E req limit status) s = (Inr r, s')"
    by (cases "list_checks req") (auto simp: list_projects_def)
  from calm_conn[OF answers_bodies(3) run] checks show ?thesis by (simp add: list_projects_def)
qed

section \<open>The contract's types\<close>

text \<open>A \<open>Project\<close> on the wire.\<close>

definition project_typed :: "project \<Rightarrow> bool" where
  "project_typed p \<longleftrightarrow>
     path_ok (p_path p) \<and> \<not> eq_ignore_ascii_case (p_path p) RESERVED_ROOT
     \<and> status_try_from (p_status p) \<in> {Some Active, Some Archived}
     \<and> (\<forall>a \<in> set (p_aliases p). path_ok a \<and> a \<noteq> p_path p)
     \<and> (\<forall>g \<in> set (p_grants p). level_try_from (dg_level g) \<in> {Some Level_read, Some Level_read_write})
     \<and> distinct (map dg_team_id (p_grants p))
     \<and> (\<exists>m. p_meta p = Some m \<and> m_project_id m = p_path p \<and> m_created_at m \<noteq> None \<and> m_updated_at m \<noteq> None
          \<and> (if is_private_class (p_path p)
             then m_owner_user_id m \<noteq> [] \<and> p_grants p = [] \<and> p_status p = status_i8 Active
             else m_owner_user_id m = []))"

definition page_typed :: "list_response \<Rightarrow> bool" where
  "page_typed resp \<longleftrightarrow>
     length (ls_projects resp) \<le> 500 \<and> (\<forall>p \<in> set (ls_projects resp). project_typed p)
     \<and> distinct (map p_path (ls_projects resp))
     \<and> (ls_next_page_token resp \<noteq> [] \<longrightarrow>
          ls_projects resp \<noteq> [] \<and> ls_next_page_token resp = p_path (last (ls_projects resp)))"

definition resolution_typed :: "resolve_response \<Rightarrow> bool" where
  "resolution_typed resp \<longleftrightarrow>
     path_ok (rs_resolved_path resp) \<and> \<not> eq_ignore_ascii_case (rs_resolved_path resp) RESERVED_ROOT
     \<and> status_try_from (rs_status resp) \<in> {Some Active, Some Archived}
     \<and> (rs_via_alias resp \<longrightarrow> rs_exact resp)
     \<and> (rs_source_repo resp = [] \<longleftrightarrow> is_private_class (rs_resolved_path resp))"

text \<open>A registration that wrote answers the row it wrote; the two rpcs this release holds back never
  answer.\<close>

definition reply_typed :: "store \<Rightarrow> rpc_reply \<Rightarrow> store \<Rightarrow> bool" where
  "reply_typed s reply s' \<longleftrightarrow>
     (case reply of
        Registered resp \<Rightarrow>
          projects s' = projects s
          \<or> (\<exists>r m. projects s' = projects s @ [r] \<and> rg_meta resp = Some m \<and> m_id m = id_of r
               \<and> m_version m = 1 \<and> m_project_id m = path r \<and> owner_user_id r = Some (m_owner_user_id m)
               \<and> is_private_class (path r))
      | Resolved resp \<Rightarrow> resolution_typed resp
      | Got resp \<Rightarrow> (\<exists>p. gt_project resp = Some p \<and> project_typed p)
      | Listed resp \<Rightarrow> page_typed resp
      | Touched _ \<Rightarrow> True
      | Synced _ \<Rightarrow> True
      | Renamed _ \<Rightarrow> False
      | Archived_reply _ \<Rightarrow> False)"

section \<open>A stored row is typed\<close>

lemma row_good_status:
  "row_good C r \<Longrightarrow> status_try_from (row_status r) \<in> {Some Active, Some Archived}"
  by (auto simp: row_good_def status_try_from_def)

lemma row_good_owner_named: "row_good C r \<Longrightarrow> owner_user_id r \<noteq> Some []"
  by (auto simp: row_good_def owner_root_def USER_ID_PREFIX_def)

lemma row_good_private:
  assumes "path_collation (ci_key C)" and "row_good C r"
  shows "if is_private_class (path r)
    then (\<exists>owner. owner_user_id r = Some owner \<and> owner \<noteq> []) \<and> row_status r = 1 \<and> source_repo r = None
    else owner_user_id r = None \<and> (\<exists>repo. source_repo r = Some repo \<and> repo \<noteq> [])"
  using row_good_owner[OF assms] row_good_class[OF assms(2)] row_good_owner_named[OF assms(2)] assms(2)
  by (auto simp: row_good_def class_ok_def split: option.splits)

lemma own_grants_typed:
  assumes "store_good C s" and "r \<in> set (projects s)"
  shows "(\<forall>g \<in> set (own_grants C s r). level_try_from (dg_level g) \<in> {Some Level_read, Some Level_read_write})
    \<and> distinct (map dg_team_id (own_grants C s r))"
proof -
  have gs: "grants_good C (projects s) (grants s)" using assms(1) by (simp add: store_good_def)
  let ?mine = "filter (\<lambda>g. g_project_id g = id_of r) (grants s)"
  have "distinct (map (grant_key C) ?mine)"
    using gs distinct_filter by (simp add: grants_good_def distinct_map inj_on_def)
  then have "distinct (map (\<lambda>g. srv_key C (g_team_id g)) ?mine)"
    by (auto simp: distinct_map inj_on_def grant_key_def)
  then have "distinct (map g_team_id ?mine)"
    by (auto simp: distinct_map inj_on_def)
  then have "distinct (map g_team_id (sort_key (\<lambda>g. srv_key C (g_team_id g)) ?mine))"
    by (auto simp: distinct_map)
  moreover have "\<forall>g \<in> set (grants s). g_level g \<in> {1, 2}" using gs by (simp add: grants_good_def)
  ultimately show ?thesis
    by (auto simp: own_grants_def comp_def level_try_from_def)
qed

lemma own_aliases_typed:
  assumes "store_good C s" and "r \<in> set (projects s)" and "a \<in> set (own_aliases C s r)"
  shows "path_ok a \<and> a \<noteq> path r"
proof -
  from assms(3) obtain al where al: "al \<in> set (aliases s)" "a = alias_path al"
    by (auto simp: own_aliases_def)
  then have "\<not> same_path C (alias_path al) (path r)" and "path_ok (alias_path al)"
    using assms(1,2) by (simp_all add: store_good_def one_namespace_def)
  with al(2) show ?thesis by (auto simp: same_path_def)
qed

lemma project_view_typed:
  assumes ck: "path_collation (ci_key C)" and good: "store_good C s" and r: "r \<in> set (projects s)"
  shows "project_typed (project_view C s r)"
proof -
  have g: "row_good C r" by (rule projects_good_row[OF store_good_projects[OF good] r])
  then have ok: "path_ok (path r)" "\<not> eq_ignore_ascii_case (path r) RESERVED_ROOT"
    by (simp_all add: row_good_def)
  show ?thesis
    using ok row_good_status[OF g] row_good_private[OF ck g] own_grants_typed[OF good r]
      own_aliases_typed[OF good r]
    by (auto simp: project_typed_def project_view_def row_to_project_def COLUMNS_def unwrap_or_default_def
        own_grants_def split: if_splits)
qed

lemma page_of_typed:
  assumes ck: "path_collation (ci_key C)" and good: "store_good C s"
    and checks: "list_checks req = Inr (limit, status)"
  shows "page_typed (page_of C req limit status s)"
proof -
  let ?sel = "selection C req status s"
  have limit: "0 < limit" "limit \<le> 500" using limit_positive[OF checks] by auto
  have sub: "set (take limit ?sel) \<subseteq> set (projects s)"
    using selection_set[of C req status s] by (auto dest: in_set_takeD)
  have "distinct (map path ?sel)"
    using selection_distinct[OF good, of req status] by (auto simp: distinct_map inj_on_def)
  then have "distinct (map path (take limit ?sel))" by (simp add: take_map[symmetric])
  moreover have "p_path (last (map (project_view C s) (take limit ?sel))) = path (?sel ! (limit - 1))"
    if "limit < length ?sel"
  proof -
    have "take limit ?sel \<noteq> []" using that limit by auto
    then show ?thesis using last_take[OF limit(1) that] by (simp add: last_map)
  qed
  moreover have "project_typed (project_view C s r)" if "r \<in> set (take limit ?sel)" for r
    using project_view_typed[OF ck good] that sub by blast
  ultimately show ?thesis
    using limit by (auto simp: page_typed_def page_of_def Let_def comp_def)
qed

lemma resolution_of_walk:
  assumes ck: "path_collation (ci_key C)" and good: "store_good C s"
    and w: "walk C s chain = Some w"
  shows "resolution_typed (walk_answer p w)"
proof -
  obtain a r former where w3: "w = (a, r, former)" by (cases w)
  have "walk C s chain = Some (a, r, former) \<Longrightarrow> r \<in> set (projects s)"
    by (induction chain) (auto split: option.splits dest: names_Some_in)
  then have r: "r \<in> set (projects s)" using w w3 by simp
  have g: "row_good C r" by (rule projects_good_row[OF store_good_projects[OF good] r])
  then have ok: "path_ok (path r)" "\<not> eq_ignore_ascii_case (path r) RESERVED_ROOT"
    by (simp_all add: row_good_def)
  then show ?thesis
    using row_good_status[OF g] row_good_private[OF ck g]
    by (auto simp: w3 resolution_typed_def walk_answer_def unwrap_or_default_def split: if_splits)
qed

section \<open>Every answer is typed\<close>

lemma replying_Inr:
  "replying f answer = (Inr y, s') \<longleftrightarrow> (\<exists>x. answer = (Inr x, s') \<and> y = f x)"
  by (cases answer; cases "fst answer") (auto simp: replying_def)

lemma register_typed:
  assumes "register_as E caller req d s = (Inr resp, s')"
  shows "reply_typed s (Registered resp) s'"
  using assms
proof (rule register_success)
  fix sc cls
  assume checks: "register_checks (uuid_api E) req = Inr (sc, cls)"
    and "replayed E req sc resp s \<and> s' = s \<or> registered E req sc resp s s'"
  then show ?thesis
    using own_root_private
    by (auto simp: reply_typed_def registered_def private_row_def meta_of_def register_checks_Inr Class_of_Inr)
qed

text \<open>C6. Every answer has the type the contract gives it. On a well-formed registry, whatever the
  engine does, an rpc that succeeds answers: projects whose path is legal and not the reserved root,
  whose status is ACTIVE or ARCHIVED and never unspecified, whose former paths are legal and not the
  live one, whose grants have known levels, one to a team, and stand only on an organisation's
  project, with an owner exactly on a private one; pages of at most 500, no project twice, the token
  the last path answered; a resolution with a repository exactly off the private class; and for a
  registration that wrote, the row it wrote. The two rpcs held back never answer.\<close>

theorem answers_are_typed:
  assumes "serve E q d s = (Inr reply, s')"
    and "path_collation (ci_key (coll E))" and "store_good (coll E) s"
  shows "reply_typed s reply s'"
proof (cases q)
  case (Register caller req)
  with assms(1) obtain r where "register_as E caller req d s = (Inr r, s')" "reply = Registered r"
    by (auto simp: serve_def replying_Inr)
  then show ?thesis using register_typed by simp
next
  case (Resolve req)
  with assms(1) obtain r where r: "resolve E req d s = (Inr r, s')" and reply: "reply = Resolved r"
    by (auto simp: serve_def replying_Inr)
  note c = calm_resolve[OF r]
  from c resolve_walk[of "calm E" d req s] assms(2,3) obtain w where
    "walk (coll E) s (resolve_chain (rs_candidate_path req)) = Some w" "r = walk_answer (rs_candidate_path req) w"
    by (auto split: option.splits)
  with reply resolution_of_walk[OF assms(2,3)] show ?thesis by (simp add: reply_typed_def)
next
  case (Get req)
  with assms(1) obtain r where r: "get E req d s = (Inr r, s')" and reply: "reply = Got r"
    by (auto simp: serve_def replying_Inr)
  from calm_get[OF r] get_run[of "calm E" d req s] assms(3) obtain row former where
    "names (coll E) s (gt_path req) = Some (row, former)" "gt_project r = Some (project_view (coll E) s row)"
    by (auto split: option.splits)
  with reply project_view_typed[OF assms(2,3)] names_Some_in show ?thesis by (auto simp: reply_typed_def)
next
  case (List req)
  with assms(1) obtain r where r: "list_projects E req d s = (Inr r, s')" and reply: "reply = Listed r"
    by (auto simp: serve_def replying_Inr)
  from calm_list[OF r] obtain limit status where checks: "list_checks req = Inr (limit, status)"
    and "list_projects (calm E) req d s = (Inr r, s')" "acquire (the_pool E) d = Inr ()" by blast
  then have "r = page_of (coll E) req limit status s"
    using list_run[of "calm E" d req limit status s] assms(3) by auto
  with reply page_of_typed[OF assms(2,3) checks] show ?thesis by (simp add: reply_typed_def)
qed (use assms(1) in \<open>auto simp: serve_def replying_Inr rename_def archive_def reply_typed_def\<close>)

end
