(* ===== verification/Pagination_Live.thy ===== *)
theory Pagination_Live
  imports Contract_Types
begin

text \<open>
  Walking the pages of a registry that is being written: between two pages anybody may register,
  sync, touch. A client that follows the tokens still sees every project that was there when it
  began, none twice, and nothing that is not there when it ends.
\<close>

section \<open>A walk over a registry in service\<close>

text \<open>Before every page any history of calls is served; each page has an environment and a deadline
  of its own.\<close>

inductive paged_while :: "collations \<Rightarrow> list_request \<Rightarrow> store \<Rightarrow> store \<Rightarrow> project list \<Rightarrow> bool" for C where
  last_page:
    "served C s s1 \<Longrightarrow> coll E = C \<Longrightarrow> list_projects E req d s1 = (Inr resp, s2) \<Longrightarrow>
     ls_next_page_token resp = [] \<Longrightarrow> paged_while C req s s2 (ls_projects resp)"
| another_page:
    "served C s s1 \<Longrightarrow> coll E = C \<Longrightarrow> list_projects E req d s1 = (Inr resp, s2) \<Longrightarrow>
     ls_next_page_token resp \<noteq> [] \<Longrightarrow>
     paged_while C (req\<lparr>ls_page_token := ls_next_page_token resp\<rparr>) s2 s' ps \<Longrightarrow>
     paged_while C req s s' (ls_projects resp @ ps)"

section \<open>What a page shows of a request without a status filter\<close>

text \<open>Whether a row is listed is a matter of its path, which never changes.\<close>

lemma listed_by_path: "path r = path r' \<Longrightarrow> listed C req None r = listed C req None r'"
  by (simp add: listed_def)

lemma evolves_path:
  assumes "evolves s s'" and "r \<in> set (projects s)"
  shows "\<exists>r' \<in> set (projects s'). path r' = path r"
  using evolves_row[OF assms] by (auto simp: row_evolves_def)

text \<open>The page of a store: in path order, beyond the token, and whole up to the next token.\<close>

definition in_path_order :: "collations \<Rightarrow> project list \<Rightarrow> bool" where
  "in_path_order C ps \<longleftrightarrow> sorted_wrt (\<lambda>p q. ci_key C (p_path p) < ci_key C (p_path q)) ps"

lemma in_path_order_append:
  "in_path_order C (ps @ qs) \<longleftrightarrow> in_path_order C ps \<and> in_path_order C qs
     \<and> (\<forall>p \<in> set ps. \<forall>q \<in> set qs. ci_key C (p_path p) < ci_key C (p_path q))"
  by (simp add: in_path_order_def sorted_wrt_append)

lemma sorted_last: "sorted ys \<Longrightarrow> y \<in> set ys \<Longrightarrow> y \<le> last ys" for y :: "'k::linorder"
  by (induction ys) auto

lemma page_order:
  assumes "store_good C s"
  shows "sorted_wrt (\<lambda>a b. ci_key C (path a) < ci_key C (path b)) (selection C req status s)"
proof -
  have "sorted_wrt (<) (map (\<lambda>r. ci_key C (path r)) (selection C req status s))"
    using selection_sorted selection_distinct[OF assms] by (simp add: strict_sorted_iff)
  then show ?thesis by (simp add: sorted_wrt_map)
qed

lemma page_shows:
  assumes good: "store_good C s" and checks: "list_checks req = Inr (limit, None)"
    and resp: "resp = page_of C req limit None s"
  shows "in_path_order C (ls_projects resp)"
    and "\<forall>p \<in> set (ls_projects resp). \<exists>r \<in> set (projects s). path r = p_path p \<and> listed C req None r"
    and "r \<in> set (projects s) \<Longrightarrow> listed C req None r \<Longrightarrow>
      (\<exists>p \<in> set (ls_projects resp). p_path p = path r)
      \<or> ls_next_page_token resp \<noteq> [] \<and> listed C (req\<lparr>ls_page_token := ls_next_page_token resp\<rparr>) None r"
    and "ls_next_page_token resp \<noteq> [] \<Longrightarrow>
      (\<forall>p \<in> set (ls_projects resp). ci_key C (p_path p) \<le> ci_key C (ls_next_page_token resp))
      \<and> (\<exists>p \<in> set (ls_projects resp). p_path p = ls_next_page_token resp)"
proof -
  let ?sel = "selection C req None s" and ?k = "\<lambda>r. ci_key C (path r)"
  have projects: "ls_projects resp = map (project_view C s) (take limit ?sel)"
    and token: "ls_next_page_token resp
        = (if length ?sel > limit \<and> limit > 0 then path (?sel ! (limit - 1)) else [])"
    by (simp_all add: resp page_of_def Let_def)
  have limit: "0 < limit" using limit_positive[OF checks] by simp
  have sel: "set ?sel = {r \<in> set (projects s). listed C req None r}" by (simp add: selection_def)
  have nonempty: "path r \<noteq> []" if "r \<in> set ?sel" for r
    using that sel projects_good_row[OF store_good_projects[OF good]] path_ok_not_Nil
    by (fastforce simp: row_good_def)
  note order = page_order[OF good, of req None]
  have "sorted_wrt (\<lambda>a b. ?k a < ?k b) (take limit ?sel)"
    using order append_take_drop_id[of limit ?sel] by (metis sorted_wrt_append)
  then show "in_path_order C (ls_projects resp)"
    by (simp add: in_path_order_def projects sorted_wrt_map)
  show "\<forall>p \<in> set (ls_projects resp). \<exists>r \<in> set (projects s). path r = p_path p \<and> listed C req None r"
    using sel by (auto simp: projects dest!: in_set_takeD)
  have cut: "length ?sel > limit \<Longrightarrow> ls_next_page_token resp = path (?sel ! (limit - 1))"
    by (simp add: token limit)
  show "(\<exists>p \<in> set (ls_projects resp). p_path p = path r)
      \<or> ls_next_page_token resp \<noteq> [] \<and> listed C (req\<lparr>ls_page_token := ls_next_page_token resp\<rparr>) None r"
    if r: "r \<in> set (projects s)" "listed C req None r"
  proof -
    have "r \<in> set (take limit ?sel) \<or> r \<in> set (drop limit ?sel)"
      using r sel by (metis (mono_tags, lifting) Un_iff append_take_drop_id mem_Collect_eq set_append)
    then show ?thesis
    proof
      assume "r \<in> set (take limit ?sel)"
      then show ?thesis by (auto simp: projects)
    next
      assume beyond: "r \<in> set (drop limit ?sel)"
      then have more: "length ?sel > limit" by (cases "length ?sel > limit") auto
      let ?l = "?sel ! (limit - 1)"
      have "?l \<in> set (take limit ?sel)"
        using limit more by (auto simp: in_set_conv_nth intro!: exI[of _ "limit - 1"])
      then have less: "?k ?l < ?k r" and "?l \<in> set ?sel"
        using order beyond append_take_drop_id[of limit ?sel] by (metis sorted_wrt_append, auto dest: in_set_takeD)
      then show ?thesis using nonempty[of ?l] cut[OF more] r(2) by (auto simp: listed_def)
    qed
  qed
  show "(\<forall>p \<in> set (ls_projects resp). ci_key C (p_path p) \<le> ci_key C (ls_next_page_token resp))
      \<and> (\<exists>p \<in> set (ls_projects resp). p_path p = ls_next_page_token resp)"
    if "ls_next_page_token resp \<noteq> []"
  proof -
    have more: "length ?sel > limit" using that token by (auto split: if_splits)
    let ?xs = "take limit ?sel"
    have xs: "?xs \<noteq> []" "last ?xs = ?sel ! (limit - 1)" using more limit last_take by auto
    have "sorted (map ?k ?xs)" using selection_sorted[of C req None s] by (simp add: take_map[symmetric] sorted_wrt_take)
    then have "\<forall>r \<in> set ?xs. ?k r \<le> ?k (last ?xs)"
      using sorted_last[of "map ?k ?xs"] xs(1) by (auto simp: last_map)
    moreover have "last ?xs \<in> set ?xs" using xs(1) by simp
    ultimately show ?thesis using xs(2) cut[OF more] by (auto simp: projects)
  qed
qed


section \<open>The whole walk\<close>

lemma page_served:
  assumes "served C s s1" and "path_collation (ci_key C)" and "store_good C s" and "coll E = C"
    and "list_projects E req d s1 = (Inr resp, s2)" and "ls_status req = None"
  obtains limit where "store_good C s1" and "evolves s s1" and "s2 = s1"
    and "list_checks req = Inr (limit, None)" and "resp = page_of C req limit None s1"
proof -
  note s1 = served_good[OF assms(1-3)]
  from calm_list[OF assms(5)] obtain limit status where checks: "list_checks req = Inr (limit, status)"
    and acq: "acquire (the_pool E) d = Inr ()" and run: "list_projects (calm E) req d s1 = (Inr resp, s2)"
    by blast
  have status: "status = None" using checks assms(6) by (simp add: list_checks_Inr status_filter_def)
  have "resp = page_of C req limit None s1" and "s2 = s1"
    using list_run[of "calm E" d req limit status s1] acq checks run s1(1) assms(4) status by auto
  with s1 checks status that show thesis by blast
qed

lemma listed_token:
  "listed C (req\<lparr>ls_page_token := t\<rparr>) None r \<Longrightarrow> t \<noteq> [] \<Longrightarrow> ci_key C t < ci_key C (path r)"
  by (simp add: listed_def)

lemma listed_beyond:
  "listed C (req\<lparr>ls_page_token := t\<rparr>) None r \<Longrightarrow> t \<noteq> [] \<Longrightarrow>
   (ls_page_token req = [] \<or> ci_key C (ls_page_token req) < ci_key C t) \<Longrightarrow> listed C req None r"
  by (auto simp: listed_def)

lemma walk_shows:
  assumes "paged_while C req s s' ps" and "path_collation (ci_key C)" and "ls_status req = None" and "store_good C s"
  shows "in_path_order C ps \<and> evolves s s'
    \<and> (\<forall>r \<in> set (projects s). listed C req None r \<longrightarrow> (\<exists>p \<in> set ps. p_path p = path r))
    \<and> (\<forall>p \<in> set ps. \<exists>r \<in> set (projects s'). path r = p_path p \<and> listed C req None r)"
  using assms
proof (induction rule: paged_while.induct)
  case (last_page s s1 E req d resp s2)
  from page_served[OF last_page(1,5,7,2,3,6)] obtain limit where page:
    "store_good C s1" "evolves s s1" "s2 = s1" "list_checks req = Inr (limit, None)"
    "resp = page_of C req limit None s1" .
  note pg = page_shows[OF page(1,4,5)]
  have "\<exists>p \<in> set (ls_projects resp). p_path p = path r"
    if r: "r \<in> set (projects s)" "listed C req None r" for r
  proof -
    from evolves_path[OF page(2) r(1)] obtain r1 where "r1 \<in> set (projects s1)" "path r1 = path r" by blast
    with pg(3)[of r1] listed_by_path[of r1 r C req] r(2) last_page(4) show ?thesis by simp
  qed
  with pg(1,2) page(2,3) show ?case by blast
next
  case (another_page s s1 E req d resp s2 s' ps)
  from page_served[OF another_page(1,7,9,2,3,8)] obtain limit where page:
    "store_good C s1" "evolves s s1" "s2 = s1" "list_checks req = Inr (limit, None)"
    "resp = page_of C req limit None s1" .
  let ?t = "ls_next_page_token resp" and ?ps = "ls_projects resp"
  let ?next = "req\<lparr>ls_page_token := ?t\<rparr>"
  note pg = page_shows[OF page(1,4,5)]
  note upto = pg(4)[OF another_page(4)]
  have rest: "in_path_order C ps" "evolves s1 s'"
    and seen: "\<And>r. r \<in> set (projects s1) \<Longrightarrow> listed C ?next None r \<Longrightarrow> \<exists>p \<in> set ps. p_path p = path r"
    and there: "\<And>p. p \<in> set ps \<Longrightarrow> \<exists>r \<in> set (projects s'). path r = p_path p \<and> listed C ?next None r"
    using another_page.IH another_page.prems page(1,3) by auto
  from upto obtain p0 where p0: "p0 \<in> set ?ps" "p_path p0 = ?t" by blast
  with pg(2) obtain r0 where "path r0 = ?t" "listed C req None r0" by metis
  then have later: "ls_page_token req = [] \<or> ci_key C (ls_page_token req) < ci_key C ?t"
    by (auto simp: listed_def)
  have beyond: "ci_key C ?t < ci_key C (p_path p)" if "p \<in> set ps" for p
    using there[OF that] listed_token[OF _ another_page(4)] by metis
  have "in_path_order C (?ps @ ps)"
    using pg(1) rest(1) upto beyond by (auto simp: in_path_order_append intro: order.strict_trans1)
  moreover have "\<exists>p \<in> set (?ps @ ps). p_path p = path r"
    if r: "r \<in> set (projects s)" "listed C req None r" for r
  proof -
    from evolves_path[OF page(2) r(1)] obtain r1 where r1: "r1 \<in> set (projects s1)" "path r1 = path r" by blast
    with r(2) have "listed C req None r1" using listed_by_path[of r1 r C req] by simp
    from pg(3)[OF r1(1) this] seen[OF r1(1)] r1(2) show ?thesis by auto
  qed
  moreover have "\<exists>r \<in> set (projects s'). path r = p_path p \<and> listed C req None r"
    if p: "p \<in> set (?ps @ ps)" for p
  proof (cases "p \<in> set ps")
    case True
    with there[OF True] show ?thesis using listed_beyond[OF _ another_page(4) later] by blast
  next
    case False
    then obtain r where r: "r \<in> set (projects s1)" "path r = p_path p" "listed C req None r"
      using p pg(2) by auto
    from evolves_path[OF rest(2) r(1)] obtain r' where r': "r' \<in> set (projects s')" "path r' = path r" by blast
    then have "listed C req None r'" using r(3) listed_by_path[of r' r C req] by simp
    with r' r(2) show ?thesis by auto
  qed
  ultimately show ?case using evolves_trans[OF page(2) rest(2)] by blast
qed

text \<open>C10. Pages read while the registry is served: whatever calls of anybody run between two pages, a
  client that starts without a token and follows the tokens to their end gets the projects in
  strictly ascending path order, so none twice; every project registered before it began that is
  under the path it asked for; and no project that is not registered, under that path, at the end.\<close>

theorem pages_while_served:
  assumes "paged_while C req s s' ps" and "path_collation (ci_key C)" and "store_good C s"
    and "ls_status req = None" and "ls_page_token req = []"
  shows "sorted_wrt (\<lambda>p q. ci_key C (p_path p) < ci_key C (p_path q)) ps
    \<and> (\<forall>r \<in> set (projects s). listed C req None r \<longrightarrow> path r \<in> p_path ` set ps)
    \<and> p_path ` set ps \<subseteq> path ` {r \<in> set (projects s'). listed C req None r}"
proof -
  note pg = walk_shows[OF assms(1,2,4,3)]
  have "path r \<in> p_path ` set ps" if "r \<in> set (projects s)" "listed C req None r" for r
    using pg that by (metis imageI)
  moreover have "p_path p \<in> path ` {r \<in> set (projects s'). listed C req None r}" if p: "p \<in> set ps" for p
  proof -
    from pg p obtain r where "r \<in> set (projects s')" "path r = p_path p" "listed C req None r" by blast
    then show ?thesis by (metis (mono_tags, lifting) image_eqI mem_Collect_eq)
  qed
  ultimately show ?thesis using pg by (auto simp: in_path_order_def)
qed

end
