(* ===== verification/Two_Runs.thy ===== *)
theory Two_Runs
  imports Register_Live Sync
begin

text \<open>
  Two runs of one body, side by side, from stores a relation relates: what it takes for them to
  answer alike. Of a sync, the relation is that the organisation's rows agree; of a registration,
  that the private ones do.
\<close>

text \<open>From related stores the body answers alike, to related stores; \<open>Q\<close> holds of what it answers.\<close>

definition alike :: "(store \<Rightarrow> store \<Rightarrow> bool) \<Rightarrow> 'a txm \<Rightarrow> ('a \<Rightarrow> bool) \<Rightarrow> bool" where
  "alike rel m Q \<longleftrightarrow>
     (\<forall>t t'. rel (work t) (work t') \<and> stmts t = stmts t' \<longrightarrow>
        fst (m t) = fst (m t') \<and> stmts (snd (m t)) = stmts (snd (m t'))
        \<and> rel (work (snd (m t))) (work (snd (m t'))) \<and> (\<forall>x. fst (m t) = Inr x \<longrightarrow> Q x))"

definition asked_alike :: "(store \<Rightarrow> store \<Rightarrow> bool) \<Rightarrow> 'a sql \<Rightarrow> ('a \<Rightarrow> bool) \<Rightarrow> bool" where
  "asked_alike rel q Q \<longleftrightarrow>
     (\<forall>now s s'. rel s s' \<longrightarrow>
        (case (q now s, q now s') of
           (Inl e, Inl e') \<Rightarrow> e = e'
         | (Inr (x, u), Inr (x', u')) \<Rightarrow> x = x' \<and> rel u u' \<and> Q x
         | _ \<Rightarrow> False))"

named_theorems alike_rules \<open>bodies that answer alike from related stores\<close>

lemma alike_ret [alike_rules]: "Q x \<Longrightarrow> alike rel (ret x) Q"
  by (simp add: alike_def ret_def)

lemma alike_fail [alike_rules]: "alike rel (fail e) Q"
  by (simp add: alike_def fail_def)

lemma alike_lift [alike_rules]: "(\<And>x. r = Inr x \<Longrightarrow> Q x) \<Longrightarrow> alike rel (lift r) Q"
  by (simp add: alike_def lift_def)

lemma alike_mint: "(\<And>n. Q (minted E n)) \<Longrightarrow> alike rel (mint E) Q"
  by (simp add: alike_def mint_def minted_def)

lemma alike_and_then:
  assumes "alike rel m P" and "\<And>x. P x \<Longrightarrow> alike rel (f x) Q"
  shows "alike rel (and_then m f) Q"
  unfolding alike_def
proof (intro allI impI)
  fix t t' :: tx assume "rel (work t) (work t') \<and> stmts t = stmts t'"
  then have m: "fst (m t) = fst (m t')" "stmts (snd (m t)) = stmts (snd (m t'))"
    "rel (work (snd (m t))) (work (snd (m t')))" "\<And>x. fst (m t) = Inr x \<Longrightarrow> P x"
    using assms(1) unfolding alike_def by blast+
  obtain r u where t: "m t = (r, u)" by fastforce
  moreover obtain u' where t': "m t' = (r, u')" using m(1) t by (cases "m t'") auto
  ultimately show "fst (and_then m f t) = fst (and_then m f t')
      \<and> stmts (snd (and_then m f t)) = stmts (snd (and_then m f t'))
      \<and> rel (work (snd (and_then m f t))) (work (snd (and_then m f t')))
      \<and> (\<forall>x. fst (and_then m f t) = Inr x \<longrightarrow> Q x)"
    using m(2-4) assms(2) unfolding alike_def by (cases r) (simp_all add: and_then_def)
qed

lemma alike_for_each:
  assumes "\<And>x b. x \<in> set xs \<Longrightarrow> I b \<Longrightarrow> alike rel (f x b) I" and "I b"
  shows "alike rel (for_each f xs b) I"
  using assms
proof (induction xs arbitrary: b)
  case (Cons x xs)
  show ?case unfolding for_each.simps
    by (rule alike_and_then[where P = I]) (use Cons in simp_all)
qed (simp add: alike_ret)

lemma alike_if: "alike rel a Q \<Longrightarrow> alike rel b Q \<Longrightarrow> alike rel (if c then a else b) Q"
  by simp

lemma alike_stmt:
  assumes "asked_alike rel q Q"
  shows "alike rel (stmt E q) Q"
  unfolding alike_def
proof (intro allI impI)
  fix t t' :: tx assume a: "rel (work t) (work t') \<and> stmts t = stmts t'"
  have q: "case (q (clock E (stmts t)) (work t), q (clock E (stmts t)) (work t')) of
           (Inl e, Inl e') \<Rightarrow> e = e'
         | (Inr (x, u), Inr (x', u')) \<Rightarrow> x = x' \<and> rel u u' \<and> Q x
         | _ \<Rightarrow> False"
    using assms a unfolding asked_alike_def by blast
  show "fst (stmt E q t) = fst (stmt E q t') \<and> stmts (snd (stmt E q t)) = stmts (snd (stmt E q t'))
      \<and> rel (work (snd (stmt E q t))) (work (snd (stmt E q t'))) \<and> (\<forall>x. fst (stmt E q t) = Inr x \<longrightarrow> Q x)"
    using q a
    by (auto simp: stmt_def attempt_def and_then_def ret_def fail_def split: option.splits sum.splits prod.splits)
qed

lemma asked_select:
  "(\<And>s s'. rel s s' \<Longrightarrow> f s = f s' \<and> Q (f s)) \<Longrightarrow> asked_alike rel (select f) Q"
  unfolding asked_alike_def select_def by fastforce

lemma alike_attempt:
  assumes "asked_alike rel q Q"
  shows "alike rel (attempt E q) (\<lambda>_. True)"
  unfolding alike_def
proof (intro allI impI)
  fix t t' :: tx assume a: "rel (work t) (work t') \<and> stmts t = stmts t'"
  have q: "case (q (clock E (stmts t)) (work t), q (clock E (stmts t)) (work t')) of
           (Inl e, Inl e') \<Rightarrow> e = e'
         | (Inr (x, u), Inr (x', u')) \<Rightarrow> x = x' \<and> rel u u' \<and> Q x
         | _ \<Rightarrow> False"
    using assms a unfolding asked_alike_def by blast
  show "fst (attempt E q t) = fst (attempt E q t') \<and> stmts (snd (attempt E q t)) = stmts (snd (attempt E q t'))
      \<and> rel (work (snd (attempt E q t))) (work (snd (attempt E q t')))
      \<and> (\<forall>x. fst (attempt E q t) = Inr x \<longrightarrow> True)"
    using q a by (auto simp: attempt_def split: option.splits sum.splits prod.splits)
qed

lemma alike_settle: "alike rel m Q \<Longrightarrow> alike rel (settle m) (\<lambda>_. True)"
  unfolding alike_def
proof (intro allI impI)
  fix t t' :: tx
  assume m: "\<forall>t t'. rel (work t) (work t') \<and> stmts t = stmts t' \<longrightarrow>
        fst (m t) = fst (m t') \<and> stmts (snd (m t)) = stmts (snd (m t'))
        \<and> rel (work (snd (m t))) (work (snd (m t'))) \<and> (\<forall>x. fst (m t) = Inr x \<longrightarrow> Q x)"
    and a: "rel (work t) (work t') \<and> stmts t = stmts t'"
  obtain r u where t: "m t = (r, u)" by fastforce
  moreover obtain u' where "m t' = (r, u')" using m[rule_format, OF a] t by (cases "m t'") auto
  ultimately show "fst (settle m t) = fst (settle m t') \<and> stmts (snd (settle m t)) = stmts (snd (settle m t'))
      \<and> rel (work (snd (settle m t))) (work (snd (settle m t'))) \<and> (\<forall>x. fst (settle m t) = Inr x \<longrightarrow> True)"
    using m[rule_format, OF a] by (cases r) (simp_all add: settle_def)
qed

lemma alike_run_tx:
  assumes m: "alike rel m Q" and a: "rel s s'"
  shows "fst (run_tx E d m s) = fst (run_tx E d m s') \<and> rel (snd (run_tx E d m s)) (snd (run_tx E d m s'))"
proof -
  obtain r t where t: "m \<lparr>work = s, stmts = 1\<rparr> = (r, t)" by fastforce
  obtain r' t' where t': "m \<lparr>work = s', stmts = 1\<rparr> = (r', t')" by fastforce
  have "r = r' \<and> stmts t = stmts t' \<and> rel (work t) (work t')"
    using m[unfolded alike_def, rule_format, of "\<lparr>work = s, stmts = 1\<rparr>" "\<lparr>work = s', stmts = 1\<rparr>"] a t t' by simp
  then show ?thesis
    using t t' a by (auto simp: run_tx_def split: sum.split option.split finish.split)
qed

end
