(* ===== verification/Sync_Blind.thy ===== *)
theory Sync_Blind
  imports Sync_Live Two_Runs
begin

text \<open>
  A sync and the private class do not see each other. Two registries that agree on the organisation's
  projects - but for when they were last seen -, on the former paths and on the grants answer the
  same sync alike and agree afterwards, whatever private projects and whatever ledger either holds.
  So a registration or a touch that commits before a sync changes nothing of it.
\<close>

section \<open>What a sync sees of a registry\<close>

definition unseen :: "project_row \<Rightarrow> project_row" where
  "unseen r = r\<lparr>last_seen_at := None\<rparr>"

definition org_view :: "project_row list \<Rightarrow> project_row list" where
  "org_view rows = map unseen (filter org rows)"

text \<open>The wall: organisation rows have the ids a sync knows, private rows none of them and a private
  path.\<close>

definition walled :: "collations \<Rightarrow> string set \<Rightarrow> project_row list \<Rightarrow> bool" where
  "walled C K rows \<longleftrightarrow>
     (\<forall>r \<in> set rows. if org r then id_of r \<in> K
        else is_private_class (path r) \<and> path_ok (path r) \<and> (\<forall>k \<in> K. \<not> same_id C (id_of r) k))"

definition agree :: "collations \<Rightarrow> string set \<Rightarrow> store \<Rightarrow> store \<Rightarrow> bool" where
  "agree C K s s' \<longleftrightarrow>
     org_view (projects s) = org_view (projects s') \<and> aliases s = aliases s' \<and> grants s = grants s'
     \<and> sync_lock s = sync_lock s' \<and> walled C K (projects s) \<and> walled C K (projects s')"

lemma unseen_keeps [simp]:
  "id_of (unseen r) = id_of r" "path (unseen r) = path r" "org (unseen r) = org r"
  "owner_user_id (unseen r) = owner_user_id r" "stored_of (unseen r) = stored_of r"
  "row_refusal C (unseen r) = row_refusal C r"
  by (simp_all add: unseen_def org_def stored_of_def row_refusal_def row_fits_def class_ok_def)

lemma org_view_append [simp]: "org_view (xs @ ys) = org_view xs @ org_view ys"
  by (simp add: org_view_def)

text \<open>What is asked of the organisation's rows alone is asked of the view.\<close>

lemma map_view:
  "(\<And>r. f (unseen r) = f r) \<Longrightarrow> map f (filter org rows) = map f (org_view rows)"
  by (simp add: org_view_def)

lemma filter_view:
  "(\<And>r. P (unseen r) = P r) \<Longrightarrow> (\<And>r. f (unseen r) = f r) \<Longrightarrow>
   map f (filter (\<lambda>r. P r \<and> org r) rows) = map f (filter P (org_view rows))"
  by (induction rows) (auto simp: org_view_def)

lemma ex_view:
  "(\<And>r. P (unseen r) = P r) \<Longrightarrow> (\<And>r. r \<in> set rows \<Longrightarrow> P r \<Longrightarrow> org r) \<Longrightarrow>
   list_ex P rows = list_ex P (org_view rows)"
  by (auto simp: list_ex_iff org_view_def)

lemma find_view:
  "(\<And>r. P (unseen r) = P r) \<Longrightarrow> (\<And>r. r \<in> set rows \<Longrightarrow> P r \<Longrightarrow> org r) \<Longrightarrow>
   map_option unseen (find P rows) = find P (org_view rows)"
  by (induction rows) (auto simp: org_view_def)

lemma update_view:
  assumes "\<And>r. P (unseen r) = P r" and "\<And>r. unseen (f (unseen r)) = unseen (f r)" and "\<And>r. org (f r) = org r"
    and "\<And>r. r \<in> set rows \<Longrightarrow> P r \<Longrightarrow> org r"
  shows "org_view (map (\<lambda>r. if P r then f r else r) rows) = map (\<lambda>r. if P r then unseen (f r) else r) (org_view rows)"
  using assms(4)
proof (induction rows)
  case (Cons r rows)
  then show ?case using assms(1-3) by (auto simp: org_view_def)
qed (simp add: org_view_def)

section \<open>Bodies that see no more\<close>

text \<open>The two runs start from agreeing views and end in agreeing views.\<close>

abbreviation blind :: "collations \<Rightarrow> string set \<Rightarrow> 'a txm \<Rightarrow> ('a \<Rightarrow> bool) \<Rightarrow> bool" where
  "blind C K \<equiv> alike (agree C K)"

abbreviation sees_org :: "collations \<Rightarrow> string set \<Rightarrow> 'a sql \<Rightarrow> ('a \<Rightarrow> bool) \<Rightarrow> bool" where
  "sees_org C K \<equiv> asked_alike (agree C K)"

section \<open>The statements of a sync\<close>

lemma agreeD:
  assumes "agree C K s s'"
  shows "org_view (projects s) = org_view (projects s')" "aliases s = aliases s'" "grants s = grants s'"
    "sync_lock s = sync_lock s'" "walled C K (projects s)" "walled C K (projects s')"
  using assms by (simp_all add: agree_def)

lemma walled_known:
  "walled C K rows \<Longrightarrow> r \<in> set rows \<Longrightarrow> k \<in> K \<Longrightarrow> same_id C (id_of r) k \<Longrightarrow> org r"
  by (auto simp: walled_def split: if_splits)

lemma private_class_folds:
  assumes "eq_ignore_ascii_case p q"
  shows "is_private_class p = is_private_class q"
proof -
  have "map to_ascii_lowercase (segments p) = map to_ascii_lowercase (segments q)"
    using assms by (simp add: segments_def eq_ignore_ascii_case_def flip: split_lowercase)
  then show ?thesis by (auto simp: is_private_class_iff eq_ignore_ascii_case_def)
qed

lemma walled_path:
  assumes "path_collation (ci_key C)" and "walled C K rows" and "r \<in> set rows" and "declared_ok d"
    and "same_path C (path r) (dc_path d)"
  shows "org r"
proof (rule ccontr)
  assume "\<not> org r"
  then have p: "is_private_class (path r)" "path_ok (path r)" using assms(2,3) by (auto simp: walled_def)
  moreover have d: "path_ok (dc_path d)" "\<not> is_private_class (dc_path d)"
    using assms(4) by (simp_all add: declared_ok_def)
  ultimately have "eq_ignore_ascii_case (path r) (dc_path d)"
    using path_collation.ck_path[OF assms(1)] assms(5) by (simp add: same_path_def)
  then have "is_private_class (path r) = is_private_class (dc_path d)" by (rule private_class_folds)
  with p d show False by simp
qed

lemma sees_lock: "sees_org C K (select_one (\<lambda>s. find (\<lambda>n. n = 1) (sync_lock s))) (\<lambda>_. True)"
  by (auto simp: asked_alike_def select_one_def dest: agreeD split: option.splits)

lemma sees_stored:
  "sees_org C K (select (\<lambda>s. map stored_of (filter (\<lambda>r. owner_user_id r = None) (projects s))))
     (\<lambda>rows. \<forall>st \<in> set rows. st_id st \<in> K)"
proof (rule asked_select)
  fix s s' assume a: "agree C K s s'"
  let ?f = "\<lambda>x. map stored_of (filter (\<lambda>r. owner_user_id r = None) (projects x))"
  have view: "?f x = map stored_of (org_view (projects x))" for x
    using map_view[of stored_of "projects x"] by (simp add: org_def[abs_def])
  have "\<forall>st \<in> set (?f s). st_id st \<in> K"
    using agreeD(5)[OF a] by (auto simp: walled_def org_def stored_of_def)
  then show "?f s = ?f s' \<and> (\<forall>st \<in> set (?f s). st_id st \<in> K)"
    unfolding view agreeD(1)[OF a] by simp
qed

lemma sees_grants: "sees_org C K (select (stored_grants_of C)) (\<lambda>_. True)"
proof (rule asked_select)
  fix s s' assume a: "agree C K s s'"
  have "stored_grants_of C x =
      concat (map (\<lambda>g. map (\<lambda>p. \<lparr>sg_project_id = g_project_id g, sg_path = path p,
                                sg_team_id = g_team_id g, sg_level = g_level g\<rparr>)
         (filter (\<lambda>p. same_id C (id_of p) (g_project_id g)) (org_view (projects x)))) (grants x))" for x
    unfolding stored_grants_of_def
    by (simp add: filter_view[of "\<lambda>p. same_id C (id_of p) (g_project_id g)" for g, folded org_def]
        flip: org_def)
  then show "stored_grants_of C s = stored_grants_of C s' \<and> True" using agreeD(1,3)[OF a] by simp
qed

lemma sees_insert:
  assumes ck: "path_collation (ci_key C)" and d: "declared_ok d" and pid: "pid \<in> K"
  shows "sees_org C K (insert_project C (org_project_row d actor pid)) (\<lambda>_. True)"
  unfolding asked_alike_def
proof (intro allI impI)
  fix now s s' assume a: "agree C K s s'"
  let ?row = "org_project_row d actor pid now"
  let ?hit = "\<lambda>r. same_id C (id_of r) (id_of ?row) \<or> same_path C (path r) (path ?row)"
  have "org r" if "walled C K rows" "r \<in> set rows" "?hit r" for r rows
    using that(3) walled_known[OF that(1,2) pid] walled_path[OF ck that(1,2) d] by auto
  then have "list_ex ?hit (projects x) = list_ex ?hit (org_view (projects x))" if "walled C K (projects x)" for x
    using that by (intro ex_view) auto
  from this[OF agreeD(5)[OF a]] this[OF agreeD(6)[OF a]]
  have hit: "list_ex ?hit (projects s) = list_ex ?hit (projects s')" unfolding agreeD(1)[OF a] by (rule trans[OF _ sym])
  have "agree C K (s\<lparr>projects := projects s @ [?row]\<rparr>) (s'\<lparr>projects := projects s' @ [?row]\<rparr>)"
    using a pid by (simp add: agree_def walled_def org_def)
  with hit show "case (insert_project C (org_project_row d actor pid) now s,
        insert_project C (org_project_row d actor pid) now s') of
           (Inl e, Inl e') \<Rightarrow> e = e'
         | (Inr (x, u), Inr (x', u')) \<Rightarrow> x = x' \<and> agree C K u u' \<and> True
         | _ \<Rightarrow> False"
    by (simp add: insert_project_def split: option.split)
qed

text \<open>An update that finds its rows by ids a sync knows.\<close>

lemma sees_update:
  assumes P: "\<And>r. P (unseen r) = P r" and hit: "\<And>r. P r \<Longrightarrow> \<exists>k \<in> K. same_id C (id_of r) k"
    and f: "\<And>now r. unseen (f now (unseen r)) = unseen (f now r)" "\<And>now r. org (f now r) = org r"
    "\<And>now r. id_of (f now r) = id_of r" "\<And>now r. path (f now r) = path r"
  shows "sees_org C K (update_projects C (\<lambda>_. P) f) (\<lambda>_. True)"
  unfolding asked_alike_def
proof (intro allI impI)
  fix now s s' assume a: "agree C K s s'"
  let ?bad = "\<lambda>r. P r \<and> row_refusal C (f now r) \<noteq> None"
  let ?new = "\<lambda>x. x\<lparr>projects := map (\<lambda>r. if P r then f now r else r) (projects x)\<rparr>"
  have refusal: "row_refusal C (f now (unseen r)) = row_refusal C (f now r)" for r
    using f(1)[of now r] by (metis unseen_keeps(6))
  have org: "org r" if "walled C K rows" "r \<in> set rows" "P r" for r rows
    using hit[OF that(3)] walled_known[OF that(1,2)] by blast
  have found: "map_option unseen (find ?bad (projects x)) = find ?bad (org_view (projects x))"
    and view: "org_view (projects (?new x)) = map (\<lambda>r. if P r then unseen (f now r) else r) (org_view (projects x))"
    if "walled C K (projects x)" for x
  proof -
    show "map_option unseen (find ?bad (projects x)) = find ?bad (org_view (projects x))"
      by (rule find_view) (use P refusal org[OF that] in auto)
    show "org_view (projects (?new x)) = map (\<lambda>r. if P r then unseen (f now r) else r) (org_view (projects x))"
      using update_view[of P "f now" "projects x"] P f(1,2) org[OF that] by simp
  qed
  have same: "map_option unseen (find ?bad (projects s)) = map_option unseen (find ?bad (projects s'))"
    unfolding found[OF agreeD(5)[OF a]] found[OF agreeD(6)[OF a]] agreeD(1)[OF a] ..
  have walled: "walled C K (projects (?new x))" if "walled C K (projects x)" for x
    using that f(2-4) by (auto simp: walled_def)
  have "org_view (projects (?new s)) = org_view (projects (?new s'))"
    unfolding view[OF agreeD(5)[OF a]] view[OF agreeD(6)[OF a]] agreeD(1)[OF a] ..
  then have "agree C K (?new s) (?new s')"
    using agreeD[OF a] walled[OF agreeD(5)[OF a]] walled[OF agreeD(6)[OF a]] by (simp add: agree_def)
  with same show "case (update_projects C (\<lambda>_. P) f now s, update_projects C (\<lambda>_. P) f now s') of
           (Inl e, Inl e') \<Rightarrow> e = e'
         | (Inr (x, u), Inr (x', u')) \<Rightarrow> x = x' \<and> agree C K u u' \<and> True
         | _ \<Rightarrow> False"
    using refusal
    by (auto simp: update_projects_def split: option.splits) (metis option.sel)+
qed


text \<open>The statements on the grants look at no project, but for the one that adds a grant, whose row
  has an id a sync knows.\<close>

lemma agree_grants: "agree C K s s' \<Longrightarrow> agree C K (s\<lparr>grants := G\<rparr>) (s'\<lparr>grants := G\<rparr>)"
  by (simp add: agree_def)

lemma sees_delete: "sees_org C K (delete_grants C pid team) (\<lambda>_. True)"
proof -
  have "agree C K (s\<lparr>grants := f (grants s)\<rparr>) (s'\<lparr>grants := f (grants s')\<rparr>)" if "agree C K s s'" for s s' f
    using agree_grants[OF that] agreeD(3)[OF that] by simp
  then show ?thesis by (simp add: asked_alike_def delete_grants_def)
qed

lemma sees_relevel: "sees_org C K (update_grants C pid team level) (\<lambda>_. True)"
proof -
  have "case (update_grants C pid team level now s, update_grants C pid team level now s') of
           (Inl e, Inl e') \<Rightarrow> e = e'
         | (Inr (x, u), Inr (x', u')) \<Rightarrow> x = x' \<and> agree C K u u' \<and> True
         | _ \<Rightarrow> False" if a: "agree C K s s'" for now s s'
    using a agreeD(3)[OF a] by (simp add: update_grants_def agree_grants)
  then show ?thesis by (simp add: asked_alike_def)
qed

lemma sees_grant:
  assumes "g_project_id g \<in> K"
  shows "sees_org C K (insert_grant C g) (\<lambda>_. True)"
proof -
  have "case (insert_grant C g now s, insert_grant C g now s') of
           (Inl e, Inl e') \<Rightarrow> e = e'
         | (Inr (x, u), Inr (x', u')) \<Rightarrow> x = x' \<and> agree C K u u' \<and> True
         | _ \<Rightarrow> False" if a: "agree C K s s'" for now s s'
  proof -
    have "list_ex (\<lambda>r. same_id C (id_of r) (g_project_id g)) (projects x)
        = list_ex (\<lambda>r. same_id C (id_of r) (g_project_id g)) (org_view (projects x))"
      if "walled C K (projects x)" for x
      by (rule ex_view) (use assms walled_known[OF that] in auto)
    from this[OF agreeD(5)[OF a]] this[OF agreeD(6)[OF a]]
    have "grant_refusal C s g = grant_refusal C s' g" unfolding grant_refusal_def agreeD(1)[OF a] by simp
    then show ?thesis
      using agreeD(3)[OF a] a by (simp add: insert_grant_def agree_grants split: option.split)
  qed
  then show ?thesis by (simp add: asked_alike_def)
qed

section \<open>The sync\<close>

lemma blind_aliases: "blind C K (refuse_aliases E ds) (\<lambda>_. True)"
  unfolding refuse_aliases_def
proof (rule alike_and_then[where P = "\<lambda>_. True"])
  show "blind C K (stmt E (select (\<lambda>s. map_option alias_path
      (find (\<lambda>a. list_ex (\<lambda>d. same_path (coll E) (alias_path a) (dc_path d)) ds) (aliases s))))) (\<lambda>_. True)"
    by (intro alike_stmt asked_select) (auto dest: agreeD(2))
qed (auto intro!: alike_rules split: option.split simp: Let_def)

lemma blind_write_one:
  assumes ck: "path_collation (ci_key (coll E))" and K: "\<And>n. minted E n \<in> K" and d: "declared_ok d"
    and st: "\<And>x. st = Some x \<Longrightarrow> st_id x \<in> K"
  shows "blind (coll E) K (write_one E d st actor resp) (\<lambda>(pid, _). pid \<in> K)"
proof (cases st)
  case None
  have "blind (coll E) K (insert_declared E d actor) (\<lambda>pid. pid \<in> K)"
    unfolding insert_declared_def
  proof (rule alike_and_then[where P = "\<lambda>pid. pid \<in> K"])
    show "blind (coll E) K (mint E) (\<lambda>pid. pid \<in> K)" by (rule alike_mint) (rule K)
    fix pid assume "pid \<in> K"
    then show "blind (coll E) K (and_then (stmt E (insert_project (coll E) (org_project_row d actor pid))) (\<lambda>_. ret pid))
        (\<lambda>pid. pid \<in> K)"
      by (intro alike_and_then[where P = "\<lambda>_. True"] alike_stmt sees_insert ck d alike_ret)
  qed
  then show ?thesis unfolding None write_one_def option.case
    by (rule alike_and_then) (simp add: alike_ret)
next
  case (Some x)
  have upd: "blind (coll E) K (stmt E (update_projects (coll E)
      (\<lambda>_ r. same_id (coll E) (id_of r) (st_id x)) (overwrite d actor))) (\<lambda>_. True)"
    by (intro alike_stmt sees_update)
      (use st[OF Some] in \<open>auto simp: unseen_def overwrite_def org_def\<close>)
  have upd: "blind (coll E) K (and_then (stmt E (update_projects (coll E)
      (\<lambda>_ r. same_id (coll E) (id_of r) (st_id x)) (overwrite d actor))) (\<lambda>_. ret (st_id x, resp'))) (\<lambda>(pid, _). pid \<in> K)" for resp'
    by (rule alike_and_then[OF upd]) (simp add: alike_ret st[OF Some])
  have kept: "blind (coll E) K (ret (st_id x, resp')) (\<lambda>(pid, _). pid \<in> K)" for resp'
    by (simp add: alike_ret st[OF Some])
  show ?thesis unfolding Some write_one_def option.case Let_def
    by (intro alike_if kept upd)
qed

lemma by_key_known: "\<forall>st \<in> set rows. st_id st \<in> K \<Longrightarrow> by_key rows k = Some x \<Longrightarrow> st_id x \<in> K"
  by (auto simp: by_key_def dest!: map_of_SomeD)

lemma blind_write_rows:
  assumes ck: "path_collation (ci_key (coll E))" and K: "\<And>n. minted E n \<in> K"
    and ds: "\<forall>d \<in> set ds. declared_ok d" and rows: "\<forall>st \<in> set rows. st_id st \<in> K"
  shows "blind (coll E) K (write_rows E rows actor ds) (\<lambda>(_, ids). \<forall>k v. ids k = Some v \<longrightarrow> v \<in> K)"
  unfolding write_rows_def
proof (rule alike_for_each)
  fix d and b :: "sync_response \<times> (string \<Rightarrow> string option)"
  assume d: "d \<in> set ds" and b: "case b of (_, ids) \<Rightarrow> \<forall>k v. ids k = Some v \<longrightarrow> v \<in> K"
  obtain resp ids where b': "b = (resp, ids)" by (cases b)
  have one: "blind (coll E) K (write_one E d (by_key rows (dc_key d)) actor resp) (\<lambda>(pid, _). pid \<in> K)"
    by (rule blind_write_one[OF ck K]) (use ds d by_key_known[OF rows] in auto)
  show "blind (coll E) K ((\<lambda>(resp, ids). and_then (write_one E d (by_key rows (dc_key d)) actor resp)
      (\<lambda>(pid, resp'). ret (resp', ids(dc_key d \<mapsto> pid)))) b) (\<lambda>(_, ids). \<forall>k v. ids k = Some v \<longrightarrow> v \<in> K)"
    unfolding b' prod.case
    by (rule alike_and_then[OF one]) (use b b' in \<open>auto intro!: alike_ret split: if_splits\<close>)
qed simp

lemma blind_archive:
  assumes "set ids \<subseteq> K"
  shows "blind (coll E) K (archive_ids E ids actor) (\<lambda>_. True)"
proof -
  have "blind (coll E) K (stmt E (update_projects (coll E)
      (\<lambda>_ r. list_ex (same_id (coll E) (id_of r)) ids) (archived_row actor))) (\<lambda>_. True)"
    by (intro alike_stmt sees_update)
      (use assms in \<open>auto simp: unseen_def archived_row_def org_def list_ex_iff\<close>)
  then show ?thesis by (simp add: archive_ids_def alike_ret)
qed

lemma blind_write_grants:
  assumes "\<forall>k v. ids k = Some v \<longrightarrow> v \<in> K"
  shows "blind (coll E) K (write_grants E plan ids) (\<lambda>_. True)"
proof -
  have "blind (coll E) K (write_deletes E xs) (\<lambda>_. True)" for xs
    unfolding write_deletes_def
    by (rule alike_for_each) (auto intro!: alike_stmt sees_delete split: prod.split)
  moreover have "blind (coll E) K (write_updates E xs) (\<lambda>_. True)" for xs
    unfolding write_updates_def
    by (rule alike_for_each) (auto intro!: alike_stmt sees_relevel split: prod.split)
  moreover have "blind (coll E) K (write_inserts E ids xs) (\<lambda>_. True)" for xs
    unfolding write_inserts_def
    by (rule alike_for_each)
      (use assms in \<open>auto intro!: alike_stmt sees_grant alike_fail split: prod.split option.split\<close>)
  ultimately show ?thesis unfolding write_grants_def
    by (intro alike_and_then[where P = "\<lambda>_. True"])
qed

lemma blind_apply:
  assumes ck: "path_collation (ci_key (coll E))" and K: "\<And>n. minted E n \<in> K"
    and ds: "\<forall>d \<in> set ds. declared_ok d"
  shows "blind (coll E) K (sync_apply E ds actor allow_archive allow_revoke) (\<lambda>_. True)"
  unfolding sync_apply_def Let_def
proof (rule alike_and_then[where P = "\<lambda>_. True"])
  show "blind (coll E) K (lock_sync E) (\<lambda>_. True)"
    unfolding lock_sync_def by (rule alike_stmt[OF sees_lock])
  show "blind (coll E) K (and_then (read_stored E) (\<lambda>rows.
     and_then (refuse_aliases E ds) (\<lambda>_.
     and_then (lift (archive_guard (length (to_archive rows ds)) (active_count rows) allow_archive)) (\<lambda>_.
     and_then (stored_grants E) (\<lambda>grants.
     and_then (lift (revoke_guard (length (gp_deletes (grants_plan ds grants))) (length grants) allow_revoke)) (\<lambda>_.
     and_then (write_rows E rows actor ds) (\<lambda>(resp, ids).
     and_then (archive_ids E (to_archive rows ds) actor) (\<lambda>_.
     and_then (write_grants E (grants_plan ds grants) ids) (\<lambda>_.
       ret (resp\<lparr>archived := of_nat (length (to_archive rows ds)),
                 grants_declared := sum_list (map (\<lambda>d. of_nat (length (dc_grants d))) ds),
                 grants_inserted := of_nat (length (gp_inserts (grants_plan ds grants))),
                 grants_deleted := of_nat (length (gp_deletes (grants_plan ds grants))),
                 grants_unchanged := gp_unchanged (grants_plan ds grants)\<rparr>)))))))))) (\<lambda>_. True)"
  proof (rule alike_and_then[where P = "\<lambda>rows. \<forall>st \<in> set rows. st_id st \<in> K"])
    show "blind (coll E) K (read_stored E) (\<lambda>rows. \<forall>st \<in> set rows. st_id st \<in> K)"
      unfolding read_stored_def by (rule alike_stmt[OF sees_stored])
    fix rows :: "stored list" assume rows: "\<forall>st \<in> set rows. st_id st \<in> K"
    then have arch: "set (to_archive rows ds) \<subseteq> K" by (auto simp: to_archive_def)
    have grants: "blind (coll E) K (stored_grants E) (\<lambda>_. True)"
      unfolding stored_grants_def by (rule alike_stmt[OF sees_grants])
    have guard: "blind (coll E) K (lift r) (\<lambda>_. True)" for r :: "status + unit" by (simp add: alike_lift)
    show "blind (coll E) K (and_then (refuse_aliases E ds) (\<lambda>_.
     and_then (lift (archive_guard (length (to_archive rows ds)) (active_count rows) allow_archive)) (\<lambda>_.
     and_then (stored_grants E) (\<lambda>grants.
     and_then (lift (revoke_guard (length (gp_deletes (grants_plan ds grants))) (length grants) allow_revoke)) (\<lambda>_.
     and_then (write_rows E rows actor ds) (\<lambda>(resp, ids).
     and_then (archive_ids E (to_archive rows ds) actor) (\<lambda>_.
     and_then (write_grants E (grants_plan ds grants) ids) (\<lambda>_.
       ret (resp\<lparr>archived := of_nat (length (to_archive rows ds)),
                 grants_declared := sum_list (map (\<lambda>d. of_nat (length (dc_grants d))) ds),
                 grants_inserted := of_nat (length (gp_inserts (grants_plan ds grants))),
                 grants_deleted := of_nat (length (gp_deletes (grants_plan ds grants))),
                 grants_unchanged := gp_unchanged (grants_plan ds grants)\<rparr>))))))))) (\<lambda>_. True)"
      by (rule alike_and_then[OF blind_aliases] alike_and_then[OF guard] alike_and_then[OF grants]
          alike_and_then[OF blind_write_rows[OF ck K ds rows]] alike_and_then[OF blind_archive[OF arch]]
          alike_and_then[OF blind_write_grants] alike_ret
         | simp split: prod.split | intro allI impI)+
  qed
qed

lemma good_walled:
  assumes ck: "path_collation (ci_key C)" and good: "store_good C s"
    and fresh: "\<forall>r \<in> set (projects s). \<not> org r \<longrightarrow> (\<forall>n. \<not> same_id C (id_of r) (new_id n))"
  shows "walled C (id_of ` {r \<in> set (projects s). org r} \<union> range new_id) (projects s)"
  unfolding walled_def
proof (intro ballI)
  fix r assume r: "r \<in> set (projects s)"
  have g: "row_good C r" by (rule projects_good_row[OF store_good_projects[OF good] r])
  have "is_private_class (path r)" "path_ok (path r)" if "\<not> org r"
    using row_good_owner[OF ck g] g that by (auto simp: org_def row_good_def)
  moreover have "\<not> same_id C (id_of r) (id_of q)" if "\<not> org r" "q \<in> set (projects s)" "org q" for q
    using projects_good_id_eq[OF store_good_projects[OF good] r that(2)] that by auto
  ultimately show "if org r then id_of r \<in> id_of ` {r \<in> set (projects s). org r} \<union> range new_id
     else is_private_class (path r) \<and> path_ok (path r)
       \<and> (\<forall>k \<in> id_of ` {r \<in> set (projects s). org r} \<union> range new_id. \<not> same_id C (id_of r) k)"
    using r fresh by auto
qed

lemma view_ids: "id_of ` {r \<in> set rows. org r} = id_of ` set (org_view rows)"
  by (auto simp: org_view_def image_iff)

definition known_ids :: "env \<Rightarrow> store \<Rightarrow> string set" where
  "known_ids E s = id_of ` {r \<in> set (projects s). org r} \<union> range (minted E)"

lemma good_agree:
  assumes "path_collation (ci_key (coll E))" and "store_good (coll E) s" and "store_good (coll E) s'"
    and "org_view (projects s) = org_view (projects s')" and "aliases s = aliases s'" and "grants s = grants s'"
    and "\<forall>r \<in> set (projects s) \<union> set (projects s'). \<not> org r \<longrightarrow> (\<forall>n. \<not> same_id (coll E) (id_of r) (minted E n))"
  shows "agree (coll E) (known_ids E s) s s'"
proof -
  have K': "known_ids E s = id_of ` {r \<in> set (projects s'). org r} \<union> range (minted E)"
    unfolding known_ids_def view_ids assms(4) ..
  have "walled (coll E) (known_ids E s) (projects s)"
    unfolding known_ids_def by (rule good_walled[OF assms(1,2)]) (use assms(7) in auto)
  moreover have "walled (coll E) (known_ids E s) (projects s')"
    unfolding K' by (rule good_walled[OF assms(1,3)]) (use assms(7) in auto)
  moreover have "sync_lock s = sync_lock s'" using assms(2,3) by (simp add: store_good_def)
  ultimately show ?thesis using assms(4-6) by (simp add: agree_def)
qed

lemma sync_alike:
  assumes ck: "path_collation (ci_key (coll E))" and K: "\<And>n. minted E n \<in> K" and a: "agree (coll E) K s s'"
  shows "fst (sync_as E caller req d s) = fst (sync_as E caller req d s')
    \<and> agree (coll E) K (snd (sync_as E caller req d s)) (snd (sync_as E caller req d s'))"
proof (cases "also_check (admitted caller (sy_scope req)) (\<lambda>actor.
             also_check (validate_sync req) (\<lambda>ds. Inr (actor, ds)))")
  case (Inl e)
  then show ?thesis using a by (simp add: sync_as_def)
next
  case (Inr x)
  obtain actor ds where x: "x = (actor, ds)" by (cases x)
  with Inr have "validate_sync req = Inr ds" by (auto simp: also_check_eq_Inr)
  then have ds: "\<forall>d \<in> set ds. declared_ok d" using validate_sync_ok by (simp add: declaration_ok_def)
  from alike_run_tx[OF alike_settle[OF blind_apply[OF ck K ds]] a, of E d] Inr x
  show ?thesis by (simp add: sync_as_def)
qed

section \<open>What a sync leaves of the other class\<close>

lemma org_news: "new_rows ds actor news \<Longrightarrow> r \<in> set news \<Longrightarrow> org r \<and> last_seen_at r = None"
  by (auto simp: new_rows_def list_all2_conv_all_nth in_set_conv_nth org_project_row_def org_def)

lemma sync_split:
  assumes "sync_as E caller req d s = (r, s')"
    and "path_collation (ci_key (coll E))" "store_good (coll E) s"
  shows "filter (\<lambda>r. \<not> org r) (projects s') = filter (\<lambda>r. \<not> org r) (projects s)"
    and "\<exists>k. map last_seen_at (filter org (projects s'))
           = map last_seen_at (filter org (projects s)) @ replicate k None"
    and "aliases s' = aliases s" "writes s' = writes s"
proof -
  obtain old news where rows: "projects s' = old @ news" "list_all2 kept_row (projects s) old"
    and news: "\<forall>n \<in> set news. org n \<and> last_seen_at n = None"
    and same: "aliases s' = aliases s" "writes s' = writes s"
    using assms
  proof (cases rule: sync_cases)
    case (2 actor ds resp)
    then obtain nowf news where "projects s' = map (\<lambda>r. closed_row ds actor (nowf r) r) (projects s) @ news"
      and "new_rows (filter (unstored s) ds) actor news" and "aliases s' = aliases s" "writes s' = writes s"
      by (auto simp: synced_def)
    then show thesis
      using that[of "map (\<lambda>r. closed_row ds actor (nowf r) r) (projects s)" news] org_news
      by (simp add: list_all2_map2 list_all2_same closed_row_kept)
  qed (use that[of "projects s" "[]"] in \<open>auto simp: list_all2_same kept_row_def\<close>)
  have kept: "filter (\<lambda>r. \<not> org r) ys = filter (\<lambda>r. \<not> org r) xs"
    and seen: "map last_seen_at (filter org ys) = map last_seen_at (filter org xs)"
    if "list_all2 kept_row xs ys" for xs ys
    using that by (induction rule: list_all2_induct) (auto simp: kept_row_def org_def)
  have all: "filter org news = news" "filter (\<lambda>r. \<not> org r) news = []"
    using news by (auto simp: filter_id_conv filter_empty_conv)
  have "map last_seen_at news = replicate (length news) None"
    using news by (induction news) auto
  then show "\<exists>k. map last_seen_at (filter org (projects s'))
           = map last_seen_at (filter org (projects s)) @ replicate k None"
    using seen[OF rows(2)] all by (auto simp: rows(1))
  show "filter (\<lambda>r. \<not> org r) (projects s') = filter (\<lambda>r. \<not> org r) (projects s)"
    using kept[OF rows(2)] all by (simp add: rows(1))
  show "aliases s' = aliases s" "writes s' = writes s" by (fact same)+
qed

text \<open>C15. A sync is blind to the private class and leaves it alone: two well-formed registries that
  agree on the organisation's projects - except for when they were last seen -, on former paths and
  on grants answer the same sync with the same response or the same refusal, and agree afterwards,
  whatever private projects and recorded writes they hold; and in each of them every private project,
  every former path and every recorded write is afterwards exactly what it was. Provided only that
  the ids the call mints are not already a private project's.\<close>

theorem sync_blind_to_private:
  assumes "path_collation (ci_key (coll E))" and "store_good (coll E) s" and "store_good (coll E) s'"
    and "org_view (projects s) = org_view (projects s')" and "aliases s = aliases s'" and "grants s = grants s'"
    and "\<forall>r \<in> set (projects s) \<union> set (projects s'). \<not> org r \<longrightarrow> (\<forall>n. \<not> same_id (coll E) (id_of r) (minted E n))"
    and run: "sync_as E caller req d s = (r, t)" and run': "sync_as E caller req d s' = (r', t')"
  shows "r = r' \<and> org_view (projects t) = org_view (projects t') \<and> grants t = grants t'
    \<and> filter (\<lambda>p. \<not> org p) (projects t) = filter (\<lambda>p. \<not> org p) (projects s)
    \<and> filter (\<lambda>p. \<not> org p) (projects t') = filter (\<lambda>p. \<not> org p) (projects s')
    \<and> aliases t = aliases s \<and> aliases t' = aliases s' \<and> writes t = writes s \<and> writes t' = writes s'"
proof -
  have "agree (coll E) (known_ids E s) s s'" by (rule good_agree[OF assms(1-7)])
  from sync_alike[OF assms(1) _ this, of caller req d]
  have "r = r' \<and> org_view (projects t) = org_view (projects t') \<and> grants t = grants t'"
    by (simp add: known_ids_def agree_def run run')
  with sync_split[OF run assms(1,2)] sync_split[OF run' assms(1,3)] show ?thesis by simp
qed

end
