(* ===== verification/Commute.thy ===== *)
theory Commute
  imports Sync_Blind
begin

text \<open>
  A registration and a sync commute: the two transactions, committed in either order, give the same
  answers and the same registry. A sync is blind to private projects (\<open>Sync_Blind\<close>); here a
  registration is shown to be blind to the organisation's, and the two are put together.
\<close>

section \<open>What a registration sees of a registry\<close>

text \<open>The organisation's rows have no private path and none of the ids the call may mint; the private
  rows have ids of \<open>J\<close>.\<close>

definition fenced :: "collations \<Rightarrow> (nat \<Rightarrow> string) \<Rightarrow> string set \<Rightarrow> project_row list \<Rightarrow> bool" where
  "fenced C ids J rows \<longleftrightarrow>
     (\<forall>r \<in> set rows. if org r
        then path_ok (path r) \<and> \<not> is_private_class (path r) \<and> (\<forall>n. \<not> same_id C (id_of r) (ids n))
        else id_of r \<in> J)"

definition apart :: "collations \<Rightarrow> (nat \<Rightarrow> string) \<Rightarrow> string set \<Rightarrow> store \<Rightarrow> store \<Rightarrow> bool" where
  "apart C ids J s s' \<longleftrightarrow>
     filter (\<lambda>r. \<not> org r) (projects s) = filter (\<lambda>r. \<not> org r) (projects s')
     \<and> aliases s = aliases s' \<and> writes s = writes s'
     \<and> fenced C ids J (projects s) \<and> fenced C ids J (projects s')"

abbreviation sees_own :: "env \<Rightarrow> string set \<Rightarrow> 'a sql \<Rightarrow> bool" where
  "sees_own E J q \<equiv> asked_alike (apart (coll E) (minted E) J) q (\<lambda>_. True)"

lemma apartD:
  assumes "apart C ids J s s'"
  shows "filter (\<lambda>r. \<not> org r) (projects s) = filter (\<lambda>r. \<not> org r) (projects s')"
    "aliases s = aliases s'" "writes s = writes s'" "fenced C ids J (projects s)" "fenced C ids J (projects s')"
  using assms by (simp_all add: apart_def)

lemma apart_writes: "apart C ids J s s' \<Longrightarrow> apart C ids J (s\<lparr>writes := W\<rparr>) (s'\<lparr>writes := W\<rparr>)"
  by (simp add: apart_def)

lemma own_insert_write: "sees_own E J (insert_write C w)"
proof -
  have "case (insert_write C w now s, insert_write C w now s') of
           (Inl e, Inl e') \<Rightarrow> e = e'
         | (Inr (x, u), Inr (x', u')) \<Rightarrow> x = x' \<and> apart (coll E) (minted E) J u u' \<and> True
         | _ \<Rightarrow> False" if a: "apart (coll E) (minted E) J s s'" for now s s'
    using apartD(3)[OF a] a by (simp add: insert_write_def apart_writes)
  then show ?thesis by (simp add: asked_alike_def)
qed

lemma own_update_write: "sees_own E J (update_write C k response)"
proof -
  have "case (update_write C k response now s, update_write C k response now s') of
           (Inl e, Inl e') \<Rightarrow> e = e'
         | (Inr (x, u), Inr (x', u')) \<Rightarrow> x = x' \<and> apart (coll E) (minted E) J u u' \<and> True
         | _ \<Rightarrow> False" if a: "apart (coll E) (minted E) J s s'" for now s s'
    using apartD(3)[OF a] a by (simp add: update_write_def apart_writes)
  then show ?thesis by (simp add: asked_alike_def)
qed

lemma own_ledger: "sees_own E J (select_one (\<lambda>s. find P (writes s)))"
  by (auto simp: asked_alike_def select_one_def dest: apartD(3) split: option.splits)

lemma own_aliases: "sees_own E J (select (\<lambda>s. f (aliases s)))"
  by (rule asked_select) (auto dest: apartD(2))

text \<open>The unique keys of the new private row can only be met by a private row.\<close>

lemma fenced_hits:
  assumes ck: "path_collation (ci_key C)" and rows: "fenced C ids J rows"
    and p: "path_ok p" "is_private_class p" and r: "r \<in> set rows"
    and hit: "same_id C (id_of r) (ids n) \<or> same_path C (path r) p"
  shows "\<not> org r"
proof
  assume "org r"
  then have o: "path_ok (path r)" "\<not> is_private_class (path r)" "\<not> same_id C (id_of r) (ids n)"
    using rows r by (auto simp: fenced_def)
  with hit have "eq_ignore_ascii_case (path r) p"
    using path_collation.ck_path[OF ck o(1) p(1)] by (simp add: same_path_def)
  with o p private_class_folds show False by blast
qed

lemma own_insert:
  assumes ck: "path_collation (ci_key (coll E))" and p: "path_ok (rg_path req)" "is_private_class (rg_path req)"
    and J: "\<And>n. minted E n \<in> J"
  shows "sees_own E J (insert_project (coll E) (private_row req sc cls (minted E n)))"
proof -
  let ?row = "private_row req sc cls (minted E n)"
  let ?hit = "\<lambda>now r. same_id (coll E) (id_of r) (id_of (?row now)) \<or> same_path (coll E) (path r) (path (?row now))"
  have "case (insert_project (coll E) ?row now s, insert_project (coll E) ?row now s') of
           (Inl e, Inl e') \<Rightarrow> e = e'
         | (Inr (x, u), Inr (x', u')) \<Rightarrow> x = x' \<and> apart (coll E) (minted E) J u u' \<and> True
         | _ \<Rightarrow> False" if a: "apart (coll E) (minted E) J s s'" for now s s'
  proof -
    have "list_ex (?hit now) (projects x) = list_ex (?hit now) (filter (\<lambda>r. \<not> org r) (projects x))"
      if "fenced (coll E) (minted E) J (projects x)" for x
      using fenced_hits[OF ck that p] by (auto simp: list_ex_iff private_row_def)
    from this[OF apartD(4)[OF a]] this[OF apartD(5)[OF a]]
    have hit: "list_ex (?hit now) (projects s) = list_ex (?hit now) (projects s')" unfolding apartD(1)[OF a] by simp
    have "apart (coll E) (minted E) J (s\<lparr>projects := projects s @ [?row now]\<rparr>) (s'\<lparr>projects := projects s' @ [?row now]\<rparr>)"
      using a J by (auto simp: apart_def fenced_def org_def private_row_def)
    with hit show ?thesis by (simp add: insert_project_def split: option.split)
  qed
  then show ?thesis by (simp add: asked_alike_def)
qed

section \<open>The registration\<close>

lemma alike_mint_minted: "alike rel (mint E) (\<lambda>pid. \<exists>n. pid = minted E n)"
  by (rule alike_mint) blast

lemma own_claim: "alike (apart (coll E) (minted E) J) (claim E sc rpc idem pl) (\<lambda>_. True)"
proof -
  let ?rel = "apart (coll E) (minted E) J"
  have rep: "alike ?rel (replay E sc rpc key fp) (\<lambda>_. True)" for key fp
    unfolding replay_def
    by (rule alike_and_then[OF alike_stmt[OF own_ledger]]) (auto intro!: alike_rules split: option.split)
  show ?thesis
  proof (cases "present idem")
    case (Some key)
    show ?thesis unfolding claim_def Some option.case Let_def
      by (rule alike_and_then[OF alike_attempt[OF own_insert_write]])
        (auto intro!: alike_rules rep split: sum.split)
  qed (simp add: claim_def alike_ret)
qed

lemma own_record: "alike (apart (coll E) (minted E) J) (record_outcome E sc idem resp) (\<lambda>_. True)"
  unfolding record_outcome_def
  by (auto intro!: alike_rules alike_stmt own_update_write split: option.split)

lemma own_row:
  assumes "path_collation (ci_key (coll E))" and "path_ok (rg_path req)" "is_private_class (rg_path req)"
    and "\<And>n. minted E n \<in> J"
  shows "alike (apart (coll E) (minted E) J) (register_row E req sc cls) (\<lambda>_. True)"
  unfolding register_row_def
proof (rule alike_and_then[OF alike_mint_minted])
  let ?rel = "apart (coll E) (minted E) J"
  fix pid assume "\<exists>n. pid = minted E n"
  then have ins: "alike ?rel (attempt E (insert_project (coll E) (private_row req sc cls pid))) (\<lambda>_. True)"
    using alike_attempt[OF own_insert[OF assms]] by blast
  have rec: "alike ?rel (and_then (record_outcome E sc (rg_idempotency req) resp) (\<lambda>_. ret (Commit resp))) (\<lambda>_. True)"
    for resp by (rule alike_and_then[OF own_record]) (simp add: alike_ret)
  show "alike ?rel (and_then (attempt E (insert_project (coll E) (private_row req sc cls pid))) (\<lambda>done.
       case done of
         Inl e \<Rightarrow> ret (Rollback (Inl
           (if is_duplicate e
            then Status Already_exists (In_register (Already_registered (rg_path req)))
            else internal e)))
       | Inr _ \<Rightarrow>
           (let response = \<lparr>rg_meta = Some (meta_of pid 1 (rg_path req) (sc_user_id sc))\<rparr> in
            and_then (record_outcome E sc (rg_idempotency req) response) (\<lambda>_.
              ret (Commit response))))) (\<lambda>_. True)"
    by (rule alike_and_then[OF ins]) (auto intro!: alike_ret rec simp: Let_def split: sum.split)
qed

lemma own_body:
  assumes "path_collation (ci_key (coll E))" and "path_ok (rg_path req)" "is_private_class (rg_path req)"
    and "\<And>n. minted E n \<in> J"
  shows "alike (apart (coll E) (minted E) J) (register_body E req sc cls) (\<lambda>_. True)"
proof -
  let ?rel = "apart (coll E) (minted E) J"
  have owner: "alike ?rel (alias_owner E p) (\<lambda>_. True)" for p
    unfolding alias_owner_def by (rule alike_stmt[OF own_aliases])
  have rest: "alike ?rel (and_then (alias_owner E (rg_path req)) (\<lambda>former.
             case former of
               Some own \<Rightarrow> ret (Rollback (Inl
                 (Status Already_exists (In_register (Former_path (rg_path req) own)))))
             | None \<Rightarrow> register_row E req sc cls)) (\<lambda>_. True)"
    by (rule alike_and_then[OF owner]) (auto intro!: alike_ret own_row[OF assms] split: option.split)
  show ?thesis unfolding register_body_def
    by (rule alike_and_then[OF own_claim]) (auto intro!: alike_ret rest split: claimed.split)
qed

text \<open>A registration is blind to the organisation's projects.\<close>

lemma register_alike:
  assumes ck: "path_collation (ci_key (coll E))" and J: "\<And>n. minted E n \<in> J"
    and a: "apart (coll E) (minted E) J s s'"
  shows "fst (register_as E caller req d s) = fst (register_as E caller req d s')
    \<and> apart (coll E) (minted E) J (snd (register_as E caller req d s)) (snd (register_as E caller req d s'))"
proof (cases "also_check (admit_register caller) (\<lambda>_. register_checks (uuid_api E) req)")
  case (Inl e)
  then show ?thesis using a
    by (auto simp: register_as_def register_def also_check_eq_Inl split: sum.splits)
next
  case (Inr x)
  obtain sc cls where x: "x = (sc, cls)" by (cases x)
  with Inr have ok: "admit_register caller = Inr ()" "register_checks (uuid_api E) req = Inr (sc, cls)"
    by (auto simp: also_check_eq_Inr)
  then have "path_ok (rg_path req)" "is_private_class (rg_path req)"
    using own_root_private by (auto simp: register_checks_Inr Class_of_Inr)
  from alike_run_tx[OF own_body[OF ck this J] a, of E d sc cls] ok
  show ?thesis by (simp add: register_as_def register_def)
qed

section \<open>Rows from their view\<close>

lemma rows_from_view:
  assumes "org_view xs = org_view ys"
    and "map last_seen_at (filter org xs) = zs @ replicate k None"
    and "map last_seen_at (filter org ys) = zs @ replicate k' None"
  shows "filter org xs = filter org ys"
proof -
  have row: "r = r'" if "unseen r = unseen r'" "last_seen_at r = last_seen_at r'" for r r' :: project_row
  proof -
    have "(unseen r)\<lparr>last_seen_at := last_seen_at r\<rparr> = (unseen r')\<lparr>last_seen_at := last_seen_at r'\<rparr>"
      using that by simp
    then show ?thesis by (simp add: unseen_def)
  qed
  have len: "length (filter org xs) = length (filter org ys)"
    using arg_cong[OF assms(1), of length] by (simp add: org_view_def)
  have "length (filter org xs) = length zs + k" "length (filter org ys) = length zs + k'"
    using arg_cong[OF assms(2), of length] arg_cong[OF assms(3), of length] by simp_all
  with len have "k = k'" by simp
  then have seen: "map last_seen_at (filter org xs) = map last_seen_at (filter org ys)" using assms(2,3) by simp
  have "map unseen (filter org xs) = map unseen (filter org ys)" using assms(1) by (simp add: org_view_def)
  moreover have "us = vs" if "map unseen us = map unseen vs" "map last_seen_at us = map last_seen_at vs" for us vs
    using that
  proof (induction us arbitrary: vs)
    case (Cons u us)
    then show ?case by (cases vs) (auto intro: row)
  qed simp
  ultimately show ?thesis using seen by blast
qed

section \<open>Either order\<close>

text \<open>The same rows of each class in the same order, and the same of everything else.\<close>

definition same_classes :: "store \<Rightarrow> store \<Rightarrow> bool" where
  "same_classes s s' \<longleftrightarrow>
     filter org (projects s) = filter org (projects s')
     \<and> filter (\<lambda>r. \<not> org r) (projects s) = filter (\<lambda>r. \<not> org r) (projects s')
     \<and> aliases s = aliases s' \<and> writes s = writes s' \<and> grants s = grants s' \<and> sync_lock s = sync_lock s'"

lemma org_row_public:
  assumes "path_collation (ci_key C)" and "store_good C s" and "r \<in> set (projects s)" and "org r"
  shows "path_ok (path r)" "\<not> is_private_class (path r)"
proof -
  have g: "row_good C r" by (rule projects_good_row[OF store_good_projects[OF assms(2)] assms(3)])
  then show "path_ok (path r)" "\<not> is_private_class (path r)"
    using row_good_owner[OF assms(1) g] g assms(4) by (simp_all add: row_good_def org_def)
qed

text \<open>What a registration leaves of the organisation.\<close>

lemma register_keeps:
  assumes "register_as E caller req d s = (r, s')"
  shows "filter org (projects s') = filter org (projects s)" "aliases s' = aliases s"
    "grants s' = grants s" "sync_lock s' = sync_lock s"
  using register_effects[OF assms] by (auto simp: registered_def private_row_def org_def)

text \<open>The ids the two calls may mint, and those the registry has, are told apart.\<close>

definition ids_apart :: "env \<Rightarrow> env \<Rightarrow> store \<Rightarrow> bool" where
  "ids_apart E E' s \<longleftrightarrow>
     (\<forall>n m. \<not> same_id (coll E) (minted E n) (minted E' m))
     \<and> (\<forall>r \<in> set (projects s). \<forall>n.
          \<not> same_id (coll E) (id_of r) (minted E n) \<and> \<not> same_id (coll E) (id_of r) (minted E' n))"

definition own_ids :: "env \<Rightarrow> store \<Rightarrow> string set" where
  "own_ids E s = id_of ` {r \<in> set (projects s). \<not> org r} \<union> range (minted E)"

lemma ids_apartD:
  assumes "ids_apart E E' s"
  shows "k \<in> own_ids E s \<Longrightarrow> \<not> same_id (coll E) k (minted E' n)"
    and "r \<in> set (projects s) \<Longrightarrow> \<not> same_id (coll E) (id_of r) (minted E n)"
    and "k \<in> known_ids E' s \<Longrightarrow> \<not> same_id (coll E) k (minted E n)"
  using assms by (auto simp: ids_apart_def own_ids_def known_ids_def same_id_def) metis

lemma sync_after_registration:
  assumes "path_collation (ci_key (coll E))" and "store_good (coll E) s" and "coll E' = coll E"
    and ids: "ids_apart E E' s"
    and "register_as E caller req d s = (a, s1)" and "sync_as E' caller' req' d' s = (b, t1)"
  shows "\<exists>s2. sync_as E' caller' req' d' s1 = (b, s2) \<and> agree (coll E) (known_ids E' s) t1 s2"
proof -
  let ?syn = "sync_as E' caller' req' d'"
  have "apart (coll E) (minted E) (own_ids E s) s s"
    using org_row_public[OF assms(1,2)] ids_apartD(2)[OF ids] by (auto simp: apart_def fenced_def own_ids_def)
  from register_alike[OF assms(1) _ this, of caller req d] assms(5)
  have own: "fenced (coll E) (minted E) (own_ids E s) (projects s1)"
    by (auto simp: own_ids_def dest: apartD(4))
  have "\<not> same_id (coll E) (id_of r) (minted E' n)"
    if "r \<in> set (projects s) \<union> set (projects s1)" "\<not> org r" for r n
    using that own by (intro ids_apartD(1)[OF ids]) (auto simp: fenced_def own_ids_def)
  then have "agree (coll E') (known_ids E' s) s s1"
    using assms(1-3) register_store_good[OF assms(5,2)] register_keeps[OF assms(5)]
    by (intro good_agree) (auto simp: org_view_def)
  from sync_alike[OF _ _ this, of caller' req' d'] assms(1,3,6) show ?thesis
    by (cases "?syn s1") (auto simp: known_ids_def)
qed

lemma registration_after_sync:
  assumes "path_collation (ci_key (coll E))" and "store_good (coll E) s" and "coll E' = coll E"
    and ids: "ids_apart E E' s"
    and "register_as E caller req d s = (a, s1)" and "sync_as E' caller' req' d' s = (b, t1)"
  shows "\<exists>t2. register_as E caller req d t1 = (a, t2) \<and> apart (coll E) (minted E) (own_ids E s) s1 t2"
proof -
  let ?reg = "register_as E caller req d"
  have t1: "store_good (coll E) t1" using sync_store_good[OF assms(6)] assms(1-3) by simp
  note split = sync_split[OF assms(6), unfolded assms(3), OF assms(1,2)]
  have "agree (coll E') (known_ids E' s) s s"
    by (rule good_agree) (use assms(1-3) ids in \<open>auto simp: ids_apart_def\<close>)
  from sync_alike[OF _ _ this, of caller' req' d'] assms(1,3,6)
  have known: "walled (coll E) (known_ids E' s) (projects t1)"
    by (auto simp: known_ids_def dest: agreeD(5))
  have "\<not> same_id (coll E) (id_of r) (minted E n)" if "r \<in> set (projects t1)" "org r" for r n
    using that known by (intro ids_apartD(3)[OF ids]) (auto simp: walled_def)
  moreover have "id_of r \<in> own_ids E s" if "r \<in> set (projects t1)" "\<not> org r" for r
  proof -
    have "r \<in> set (filter (\<lambda>r. \<not> org r) (projects s))" using that by (simp flip: split(1))
    then show ?thesis by (simp add: own_ids_def)
  qed
  ultimately have "apart (coll E) (minted E) (own_ids E s) s t1"
    using split org_row_public[OF assms(1) t1] org_row_public[OF assms(1,2)] ids_apartD(2)[OF ids]
    by (auto simp: apart_def fenced_def own_ids_def)
  from register_alike[OF assms(1) _ this, of caller req d] assms(5) show ?thesis
    by (cases "?reg t1") (auto simp: own_ids_def)
qed

text \<open>C16. A registration and a sync can commit in either order: each answers what it would have
  answered without the other, and the registry ends the same - the organisation's rows, the private
  rows, the former paths, the ledger and the grants -, whatever faults the two calls meet and
  whether or not their failed COMMITs land. It takes a well-formed registry and ids minted apart.\<close>

theorem register_and_sync_commute:
  assumes "path_collation (ci_key (coll E))" and "store_good (coll E) s" and "coll E' = coll E"
    and "ids_apart E E' s"
    and "register_as E caller req d s = (a, s1)" and "sync_as E' caller' req' d' s = (b, t1)"
  shows "\<exists>s2 t2. sync_as E' caller' req' d' s1 = (b, s2) \<and> register_as E caller req d t1 = (a, t2)
    \<and> same_classes s2 t2"
proof -
  from sync_after_registration[OF assms] obtain s2
    where s2: "sync_as E' caller' req' d' s1 = (b, s2)" and org: "agree (coll E) (known_ids E' s) t1 s2" by blast
  from registration_after_sync[OF assms] obtain t2
    where t2: "register_as E caller req d t1 = (a, t2)" and own: "apart (coll E) (minted E) (own_ids E s) s1 t2" by blast
  have s1: "store_good (coll E) s1" by (rule register_store_good[OF assms(5,2)])
  note first = sync_split[OF assms(6), unfolded assms(3), OF assms(1,2)]
  note second = sync_split[OF s2, unfolded assms(3), OF assms(1) s1]
  note keeps = register_keeps[OF assms(5)] register_keeps[OF t2]
  from first(2) second(2) obtain k k' where
    "map last_seen_at (filter org (projects s2)) = map last_seen_at (filter org (projects s)) @ replicate k None"
    "map last_seen_at (filter org (projects t2)) = map last_seen_at (filter org (projects s)) @ replicate k' None"
    by (auto simp: keeps)
  moreover have "org_view (projects s2) = org_view (projects t2)"
    using agreeD(1)[OF org] by (simp add: org_view_def keeps)
  ultimately have "filter org (projects s2) = filter org (projects t2)" by (rule rows_from_view[rotated])
  then have "same_classes s2 t2"
    using second(1,3,4) apartD(1-3)[OF own] agreeD(3,4)[OF org] by (simp add: same_classes_def keeps)
  with s2 t2 show ?thesis by blast
qed

end
