(* ===== verification/Read_Torn.thy ===== *)
theory Read_Torn
  imports Contract_Types
begin

text \<open>
  \<open>GetProject\<close> and \<open>ListProjects\<close> among other calls. Each is three statements on a connection
  that is in no transaction - the rows, their former paths, their grants -, so other calls can commit
  between them. What is answered then is still typed, and is exactly this: the rows as the first
  statement saw them, the former paths, which no call changes, and the grants as the last one saw
  them. An answer can so be one no moment of the registry had.
\<close>

section \<open>The two reads, with others between their statements\<close>

text \<open>What others commit before a statement of the read, by the number of the statement.\<close>

definition meanwhile :: "(nat \<Rightarrow> store \<Rightarrow> store) \<Rightarrow> unit txm" where
  "meanwhile others t = (Inr (), t\<lparr>work := others (stmts t) (work t)\<rparr>)"

definition fill_among ::
  "(nat \<Rightarrow> store \<Rightarrow> store) \<Rightarrow> env \<Rightarrow> project list \<Rightarrow> (project list \<Rightarrow> 'a txm) \<Rightarrow> 'a txm" where
  "fill_among others E ps f =
     and_then (meanwhile others) (\<lambda>_.
     and_then (with_aliases E ps) (\<lambda>ps.
     and_then (meanwhile others) (\<lambda>_.
     and_then (with_grants E ps) f)))"

definition get_body_among :: "(nat \<Rightarrow> store \<Rightarrow> store) \<Rightarrow> env \<Rightarrow> string \<Rightarrow> get_response txm" where
  "get_body_among others E p =
     and_then (stmt E (select (get_row (coll E) p))) (\<lambda>row.
       case row of
         None \<Rightarrow> fail (Status Not_found (In_read (No_project p)))
       | Some row \<Rightarrow>
           fill_among others E [row_to_project row] (\<lambda>ps.
             ret \<lparr>gt_project = (case ps of [] \<Rightarrow> None | q # _ \<Rightarrow> Some q)\<rparr>))"

definition get_among ::
  "(nat \<Rightarrow> store \<Rightarrow> store) \<Rightarrow> env \<Rightarrow> get_request \<Rightarrow> deadline \<Rightarrow> store \<Rightarrow> (status + get_response) \<times> store" where
  "get_among others E req d s =
     (case validate ''path'' (gt_path req) of
        Inl e \<Rightarrow> (Inl e, s)
      | Inr _ \<Rightarrow> run_conn E d (get_body_among others E (gt_path req)) s)"

definition list_body_among ::
  "(nat \<Rightarrow> store \<Rightarrow> store) \<Rightarrow> env \<Rightarrow> list_request \<Rightarrow> nat \<Rightarrow> project_status option \<Rightarrow> list_response txm" where
  "list_body_among others E req limit status =
     and_then (stmt E (select (list_rows (coll E) req limit status))) (\<lambda>rows.
     (let more = length rows > limit in
      fill_among others E (map row_to_project (take limit rows)) (\<lambda>ps.
        ret \<lparr>ls_projects = ps,
             ls_next_page_token = (if ps \<noteq> [] \<and> more then p_path (last ps) else [])\<rparr>)))"

definition list_among ::
  "(nat \<Rightarrow> store \<Rightarrow> store) \<Rightarrow> env \<Rightarrow> list_request \<Rightarrow> deadline \<Rightarrow> store \<Rightarrow> (status + list_response) \<times> store" where
  "list_among others E req d s =
     (case list_checks req of
        Inl e \<Rightarrow> (Inl e, s)
      | Inr (limit, status) \<Rightarrow> run_conn E d (list_body_among others E req limit status) s)"

text \<open>With nobody else about they are the reads of the theory \<open>Read\<close>.\<close>

lemma meanwhile_alone: "and_then (meanwhile (\<lambda>_ s. s)) f = f ()"
  by (rule ext) (simp add: meanwhile_def and_then_def)

lemma alone:
  "get_among (\<lambda>_ s. s) E greq d s = get E greq d s"
  "list_among (\<lambda>_ s. s) E lreq d s = list_projects E lreq d s"
proof -
  have "get_body_among (\<lambda>_ s. s) E p = get_body E p" for p
    by (simp add: get_body_among_def get_body_def fill_among_def meanwhile_alone cong: option.case_cong)
  then show "get_among (\<lambda>_ s. s) E greq d s = get E greq d s" by (simp add: get_among_def get_def split: sum.split)
  have "list_body_among (\<lambda>_ s. s) E lreq limit status = list_body E lreq limit status" for limit status
    by (simp add: list_body_among_def list_body_def fill_among_def meanwhile_alone)
  then show "list_among (\<lambda>_ s. s) E lreq d s = list_projects E lreq d s"
    by (simp add: list_among_def list_projects_def split: sum.split)
qed

section \<open>Filling a page statement by statement\<close>

lemma row_meta: "\<exists>m. p_meta (row_to_project (COLUMNS r)) = Some m \<and> m_id m = id_of r"
  by (simp add: row_to_project_def COLUMNS_def)

lemma aliases_answered:
  assumes "with_aliases E (map (\<lambda>r. row_to_project (COLUMNS r)) rs) t = (Inr ps, t')"
  shows "ps = map (\<lambda>r. (row_to_project (COLUMNS r))\<lparr>p_aliases := own_aliases (coll E) (work t) r\<rparr>) rs
    \<and> work t' = work t \<and> (rs \<noteq> [] \<longrightarrow> stmts t' = Suc (stmts t))"
proof -
  let ?pairs = "aliases_of (coll E) (map id_of rs) (work t)"
  let ?fill = "\<lambda>p. case p_meta p of None \<Rightarrow> p
         | Some m \<Rightarrow> p\<lparr>p_aliases := map snd (filter (\<lambda>pr. fst pr = m_id m) ?pairs)\<rparr>"
  have ps: "ps = map (\<lambda>r. ?fill (row_to_project (COLUMNS r))) rs
      \<and> work t' = work t \<and> (rs \<noteq> [] \<longrightarrow> stmts t' = Suc (stmts t))"
    using assms by (cases "rs = []")
      (auto simp: with_aliases_def Let_def ret_def dest!: and_then_InrD stmt_InrD select_good)
  have "?fill (row_to_project (COLUMNS r))
      = (row_to_project (COLUMNS r))\<lparr>p_aliases := own_aliases (coll E) (work t) r\<rparr>" if "r \<in> set rs" for r
    using row_meta[of r] aliases_of_own[of r "map id_of rs" "coll E" "work t"] that by auto
  with ps show ?thesis by simp
qed

lemma grants_answered:
  assumes "with_grants E (map (\<lambda>r. (row_to_project (COLUMNS r))\<lparr>p_aliases := al r\<rparr>) rs) t = (Inr ps, t')"
    and good: "store_good (coll E) (work t)"
    and rs: "\<forall>r \<in> set rs. \<exists>r' \<in> set (projects (work t)). id_of r' = id_of r \<and> owner_user_id r' = owner_user_id r"
  shows "ps = map (\<lambda>r. (row_to_project (COLUMNS r))\<lparr>p_aliases := al r, p_grants := own_grants (coll E) (work t) r\<rparr>) rs
    \<and> work t' = work t"
proof -
  let ?rows = "grants_of_page (coll E) (map id_of rs) (work t)"
  let ?view = "\<lambda>r. (row_to_project (COLUMNS r))\<lparr>p_aliases := al r\<rparr>"
  let ?fill = "\<lambda>p. case p_meta p of None \<Rightarrow> p
         | Some m \<Rightarrow> p\<lparr>p_grants := map (\<lambda>(_, team, level). \<lparr>dg_team_id = team, dg_level = level\<rparr>)
               (filter (\<lambda>row. fst row = m_id m) ?rows)\<rparr>"
  have ps: "ps = map (\<lambda>r. ?fill (?view r)) rs \<and> work t' = work t"
    using assms(1) by (cases "rs = []")
      (auto simp: with_grants_def Let_def ret_def page_ids_rows[of "[]", simplified]
        dest!: and_then_InrD stmt_InrD select_good)
  have "?fill (?view r) = (row_to_project (COLUMNS r))\<lparr>p_aliases := al r, p_grants := own_grants (coll E) (work t) r\<rparr>"
    if "r \<in> set rs" for r
  proof -
    from rs that obtain r' where r': "r' \<in> set (projects (work t))" "id_of r' = id_of r"
      "owner_user_id r' = owner_user_id r" by blast
    have "id_of r' \<in> set (map id_of rs)" using that r'(2) by auto
    from grants_of_own[OF good r'(1) this] have "map (\<lambda>(_, team, level). \<lparr>dg_team_id = team, dg_level = level\<rparr>)
        (filter (\<lambda>row. fst row = id_of r) ?rows) = own_grants (coll E) (work t) r"
      using r'(2,3) by (simp add: own_grants_def)
    then show ?thesis using row_meta[of r] by auto
  qed
  with ps show ?thesis by simp
qed

text \<open>A project as it was at one moment, with the grants it has at another.\<close>

definition torn_view :: "collations \<Rightarrow> store \<Rightarrow> store \<Rightarrow> project_row \<Rightarrow> project" where
  "torn_view C s s' r = (project_view C s r)\<lparr>p_grants := own_grants C s' r\<rparr>"

text \<open>The registry the last of the three statements sees.\<close>

definition last_seen_by :: "(nat \<Rightarrow> store \<Rightarrow> store) \<Rightarrow> store \<Rightarrow> store" where
  "last_seen_by others s = others 2 (others 1 s)"

lemma last_seen_served:
  assumes "\<And>n s. served C s (others n s)" and "path_collation (ci_key C)" and "store_good C s"
  shows "store_good C (last_seen_by others s)" "evolves s (last_seen_by others s)"
proof -
  note once = served_good[OF assms(1)[of s 1] assms(2,3)]
  note twice = served_good[OF assms(1)[of "others 1 s" 2] assms(2) once(1)]
  show "store_good C (last_seen_by others s)" "evolves s (last_seen_by others s)"
    using twice evolves_trans[OF once(2) twice(2)] by (simp_all add: last_seen_by_def)
qed

lemma fill_amongD:
  assumes "fill_among others E ps f t = (Inr x, t')"
  obtains ps1 t1 ps2 t2 where
    "with_aliases E ps (t\<lparr>work := others (stmts t) (work t)\<rparr>) = (Inr ps1, t1)"
    "with_grants E ps1 (t1\<lparr>work := others (stmts t1) (work t1)\<rparr>) = (Inr ps2, t2)" "f ps2 t2 = (Inr x, t')"
proof -
  have meanwhile: "and_then (meanwhile others) g t = g () (t\<lparr>work := others (stmts t) (work t)\<rparr>)" for g :: "unit \<Rightarrow> 'c txm" and t
    by (simp add: meanwhile_def and_then_def)
  from assms obtain ps1 t1 where
    "with_aliases E ps (t\<lparr>work := others (stmts t) (work t)\<rparr>) = (Inr ps1, t1)"
    "and_then (meanwhile others) (\<lambda>_. and_then (with_grants E ps1) f) t1 = (Inr x, t')"
    unfolding fill_among_def meanwhile by (blast dest: and_then_InrD)
  then show thesis unfolding meanwhile by (blast intro: that dest: and_then_InrD)
qed

lemma fill_among_answered:
  assumes run: "fill_among others E (map (\<lambda>r. row_to_project (COLUMNS r)) rs) f t = (Inr x, t')"
    and C: "path_collation (ci_key (coll E))" "store_good (coll E) (work t)"
    and others: "\<And>n s. served (coll E) s (others n s)"
    and rs: "set rs \<subseteq> set (projects (work t))" and first: "stmts t = 1"
  shows "\<exists>t2. f (map (torn_view (coll E) (work t) (last_seen_by others (work t))) rs) t2 = (Inr x, t')"
proof -
  let ?C = "coll E" and ?s = "work t"
  from fill_amongD[OF run] obtain ps1 t1 ps2 t2 where
    al: "with_aliases E (map (\<lambda>r. row_to_project (COLUMNS r)) rs) (t\<lparr>work := others (stmts t) ?s\<rparr>) = (Inr ps1, t1)"
    and gr: "with_grants E ps1 (t1\<lparr>work := others (stmts t1) (work t1)\<rparr>) = (Inr ps2, t2)" and f: "f ps2 t2 = (Inr x, t')" .
  have "aliases (others 1 ?s) = aliases ?s"
    using served_good(2)[OF others C] by (simp add: evolves_def)
  then have view: "own_aliases ?C (others 1 ?s) = own_aliases ?C ?s" by (simp add: own_aliases_def fun_eq_iff)
  note a = aliases_answered[OF al, simplified, unfolded first view]
  show ?thesis
  proof (cases "rs = []")
    case True
    then have "ps2 = []" using a gr by (auto simp: with_grants_def page_ids_rows[of "[]", simplified] ret_def)
    with f True show ?thesis by auto
  next
    case False
    then have s2: "others (stmts t1) (work t1) = last_seen_by others ?s" using a by (simp add: last_seen_by_def numeral_2_eq_2)
    note later = last_seen_served[of ?C others ?s, OF others C]
    have "\<forall>r \<in> set rs. \<exists>r' \<in> set (projects (last_seen_by others ?s)). id_of r' = id_of r \<and> owner_user_id r' = owner_user_id r"
      using evolves_row[OF later(2)] rs by (fastforce simp: row_evolves_def)
    with grants_answered[OF gr[unfolded a[THEN conjunct1] s2], simplified] later(1)
    have "ps2 = map (torn_view ?C ?s (last_seen_by others ?s)) rs"
      by (simp add: torn_view_def[abs_def] project_view_def)
    with f show ?thesis by auto
  qed
qed

text \<open>A project whose grants are of a later moment is still typed.\<close>

lemma torn_view_typed:
  assumes ck: "path_collation (ci_key C)" and good: "store_good C s" "store_good C s'" and ev: "evolves s s'"
    and r: "r \<in> set (projects s)"
  shows "project_typed (torn_view C s s' r)"
proof -
  from evolves_row[OF ev r] obtain r' where r': "r' \<in> set (projects s')" "id_of r' = id_of r"
    "owner_user_id r' = owner_user_id r" by (auto simp: row_evolves_def)
  then have same: "own_grants C s' r = own_grants C s' r'" by (simp add: own_grants_def)
  have "own_grants C s' r = [] \<or> owner_user_id r = None" by (simp add: own_grants_def)
  then show ?thesis
    using project_view_typed[OF ck good(1) r] own_grants_typed[OF good(2) r'(1)] row_good_private[OF ck projects_good_row[OF store_good_projects[OF good(1)] r]]
    by (auto simp: project_typed_def same torn_view_def project_view_def row_to_project_def COLUMNS_def split: if_splits)
qed

lemma get_answered:
  assumes run: "get_among others E req d s = (Inr resp, s1)"
    and C: "path_collation (ci_key (coll E))" "store_good (coll E) s"
    and others: "\<And>n s. served (coll E) s (others n s)"
  shows "\<exists>r former. names (coll E) s (gt_path req) = Some (r, former)
    \<and> gt_project resp = Some (torn_view (coll E) s (last_seen_by others s) r)"
proof -
  let ?p = "gt_path req" and ?f = "\<lambda>ps. ret \<lparr>gt_project = (case ps of [] \<Rightarrow> None | q # _ \<Rightarrow> Some q)\<rparr>"
  from run obtain t where body: "get_body_among others E ?p \<lparr>work = s, stmts = 0\<rparr> = (Inr resp, t)"
    by (auto simp: get_among_def run_conn_def split: sum.splits prod.splits)
  from and_then_InrD[OF body[unfolded get_body_among_def]] obtain row t1 where
    "stmt E (select (get_row (coll E) ?p)) \<lparr>work = s, stmts = 0\<rparr> = (Inr row, t1)"
    and rest: "(case row of None \<Rightarrow> fail (Status Not_found (In_read (No_project ?p)))
       | Some row \<Rightarrow> fill_among others E [row_to_project row] ?f) t1 = (Inr resp, t)" by blast
  then have r1: "row = get_row (coll E) ?p s" "work t1 = s" "stmts t1 = 1" by (auto dest!: stmt_InrD select_good)
  with rest obtain r former where nm: "names (coll E) s ?p = Some (r, former)" "row = Some (COLUMNS r)"
    using get_row_names[OF C(2), of ?p] by (auto simp: fail_def split: option.splits)
  have r: "set [r] \<subseteq> set (projects (work t1))" using names_Some_in[OF nm(1)] r1(2) by simp
  have "fill_among others E (map (\<lambda>r. row_to_project (COLUMNS r)) [r]) ?f t1 = (Inr resp, t)"
    using rest nm(2) by simp
  from fill_among_answered[OF this C(1) _ others r r1(3)] C(2) r1(2) nm(1) show ?thesis by (auto simp: ret_def)
qed

lemma list_answered:
  assumes run: "list_among others E req d s = (Inr resp, s1)"
    and C: "path_collation (ci_key (coll E))" "store_good (coll E) s"
    and others: "\<And>n s. served (coll E) s (others n s)"
  shows "\<exists>limit status. list_checks req = Inr (limit, status)
    \<and> resp = (page_of (coll E) req limit status s)\<lparr>ls_projects :=
        map (torn_view (coll E) s (last_seen_by others s)) (take limit (selection (coll E) req status s))\<rparr>"
proof -
  from run obtain limit status t where checks: "list_checks req = Inr (limit, status)"
    and body: "list_body_among others E req limit status \<lparr>work = s, stmts = 0\<rparr> = (Inr resp, t)"
    by (auto simp: list_among_def run_conn_def split: sum.splits prod.splits)
  let ?sel = "selection (coll E) req status s"
  let ?f = "\<lambda>more ps. ret \<lparr>ls_projects = ps,
      ls_next_page_token = (if ps \<noteq> [] \<and> more then p_path (last ps) else [])\<rparr>"
  from and_then_InrD[OF body[unfolded list_body_among_def Let_def]] obtain rows t1 where
    "stmt E (select (list_rows (coll E) req limit status)) \<lparr>work = s, stmts = 0\<rparr> = (Inr rows, t1)"
    and rest: "fill_among others E (map row_to_project (take limit rows)) (?f (length rows > limit)) t1 = (Inr resp, t)"
    by blast
  then have rows: "rows = map COLUMNS (take (limit + 1) ?sel)" and t1: "work t1 = s" "stmts t1 = 1"
    by (auto simp: list_rows_def selection_def dest!: stmt_InrD select_good)
  have sub: "set (take limit ?sel) \<subseteq> set (projects (work t1))"
    using selection_set[of "coll E" req status s] t1(1) by (auto dest: in_set_takeD)
  have "map row_to_project (take limit rows) = map (\<lambda>r. row_to_project (COLUMNS r)) (take limit ?sel)"
    by (simp add: rows take_map)
  moreover have more: "length rows > limit \<longleftrightarrow> length ?sel > limit" by (auto simp: rows)
  ultimately have "fill_among others E (map (\<lambda>r. row_to_project (COLUMNS r)) (take limit ?sel))
      (?f (length ?sel > limit)) t1 = (Inr resp, t)" using rest by simp
  from fill_among_answered[OF this C(1) _ others sub t1(2)] C(2) obtain t2 where
    f: "?f (length ?sel > limit) (map (torn_view (coll E) s (last_seen_by others s)) (take limit ?sel)) t2 = (Inr resp, t)"
    unfolding t1(1) by blast
  have "0 < limit" using limit_positive[OF checks] by simp
  then have "resp = (page_of (coll E) req limit status s)\<lparr>ls_projects :=
        map (torn_view (coll E) s (last_seen_by others s)) (take limit ?sel)\<rparr>"
    using f last_take[of limit ?sel] by (auto simp: ret_def page_of_def Let_def last_map torn_view_def)
  with checks show ?thesis by blast
qed

lemma torn_page_typed:
  assumes ck: "path_collation (ci_key C)" and good: "store_good C s" "store_good C s'" and ev: "evolves s s'"
    and checks: "list_checks req = Inr (limit, status)"
  shows "page_typed ((page_of C req limit status s)\<lparr>ls_projects :=
      map (torn_view C s s') (take limit (selection C req status s))\<rparr>)"
proof -
  let ?rows = "take limit (selection C req status s)"
  have path: "p_path (torn_view C s s' r) = path r" for r by (simp add: torn_view_def)
  have "set ?rows \<subseteq> set (projects s)"
    using selection_set[of C req status s] by (auto dest: in_set_takeD)
  then have "\<forall>r \<in> set ?rows. project_typed (torn_view C s s' r)"
    using torn_view_typed[OF ck good ev] by blast
  moreover have "ls_projects (page_of C req limit status s) = map (project_view C s) ?rows"
    by (simp add: page_of_def Let_def)
  ultimately show ?thesis
    using page_of_typed[OF ck good(1) checks]
    by (auto simp: page_typed_def comp_def path last_map)
qed

text \<open>Without faults the page is filled, whatever others commit.\<close>

lemma fill_among_lands:
  assumes "no_faults E"
  shows "\<exists>ps' t'. fill_among others E ps f t = f ps' t'"
proof -
  have "\<exists>ps' t'. with_aliases E ps t = (Inr ps', t')" "\<exists>ps' t'. with_grants E ps t = (Inr ps', t')" for ps t
    using assms by (auto simp: with_aliases_def with_grants_def Let_def tx_simps)
  then show ?thesis unfolding fill_among_def meanwhile_def and_then_def by (auto split: prod.split sum.split) (metis Inl_Inr_False prod.inject sum.inject(2))+
qed

text \<open>C11. \<open>GetProject\<close> and \<open>ListProjects\<close> while others are served between their three statements. What is
  answered is the rows and the former paths as the first statement found them and the grants as
  the last one did - and nothing else: the same project or page, the same token, as without the
  others, but for the grants. It is typed all the same, whatever calls are served meanwhile and
  whatever the engine does.\<close>

theorem reads_among_others:
  assumes "path_collation (ci_key (coll E))" and "store_good (coll E) s"
    and "\<And>n s. served (coll E) s (others n s)"
  shows "(fst (get_among others E greq d s) = Inr gresp \<longrightarrow>
        (\<exists>r former. names (coll E) s (gt_path greq) = Some (r, former)
          \<and> gt_project gresp = Some (torn_view (coll E) s (last_seen_by others s) r)
          \<and> project_typed (torn_view (coll E) s (last_seen_by others s) r)))
    \<and> (fst (list_among others E lreq d s) = Inr lresp \<longrightarrow>
        (\<exists>limit status. list_checks lreq = Inr (limit, status)
          \<and> lresp = (page_of (coll E) lreq limit status s)\<lparr>ls_projects :=
              map (torn_view (coll E) s (last_seen_by others s)) (take limit (selection (coll E) lreq status s))\<rparr>
          \<and> page_typed lresp))"
proof (intro conjI impI)
  note later = last_seen_served[of "coll E" others s, OF assms(3,1,2)]
  assume "fst (get_among others E greq d s) = Inr gresp"
  then obtain s1 where "get_among others E greq d s = (Inr gresp, s1)" by (metis prod.collapse)
  from get_answered[OF this assms] torn_view_typed[OF assms(1,2) later names_Some_in]
  show "\<exists>r former. names (coll E) s (gt_path greq) = Some (r, former)
          \<and> gt_project gresp = Some (torn_view (coll E) s (last_seen_by others s) r)
          \<and> project_typed (torn_view (coll E) s (last_seen_by others s) r)" by blast
next
  note later = last_seen_served[of "coll E" others s, OF assms(3,1,2)]
  assume "fst (list_among others E lreq d s) = Inr lresp"
  then obtain s1 where "list_among others E lreq d s = (Inr lresp, s1)" by (metis prod.collapse)
  from list_answered[OF this assms] torn_page_typed[OF assms(1,2) later]
  show "\<exists>limit status. list_checks lreq = Inr (limit, status)
          \<and> lresp = (page_of (coll E) lreq limit status s)\<lparr>ls_projects :=
              map (torn_view (coll E) s (last_seen_by others s)) (take limit (selection (coll E) lreq status s))\<rparr>
          \<and> page_typed lresp" by blast
qed

end
