(* ===== verification/Touch_Among.thy ===== *)
theory Touch_Among
  imports Touch_Warning Read_Torn
begin

text \<open>
  \<open>TouchProjects\<close> among other calls. The \<open>UPDATE\<close> comes first and the \<open>COUNT\<close> of the same transaction is
  its first consistent read, so what others commit between the two is counted and was not updated.
  The comment on \<open>touch\<close> calls that the benign direction; here is what it amounts to. What others
  commit is applied to the registry as the transaction has it: no call reads a \<open>last_seen_at\<close> but a
  flush, and two flushes of one project wait for each other on its row.
\<close>

definition touch_body_among :: "(nat \<Rightarrow> store \<Rightarrow> store) \<Rightarrow> env \<Rightarrow> int \<Rightarrow> string list \<Rightarrow> touched finish txm" where
  "touch_body_among others E secs ps =
     and_then (stmt E (update_projects (coll E)
        (\<lambda>s r. flush_matches (coll E) ps s r \<and> older r secs)
        (\<lambda>now r. r\<lparr>last_seen_at := from_unixtime secs\<rparr>))) (\<lambda>_.
     and_then (meanwhile others) (\<lambda>_.
     and_then (stmt E (select (\<lambda>s. length (filter (flush_matches (coll E) ps s) (projects s)))))
       (\<lambda>matched. ret (Commit
          \<lparr>tch_offered = length ps, tch_matched = matched, tch_warned = matched < length ps\<rparr>))))"

definition touch_among ::
  "(nat \<Rightarrow> store \<Rightarrow> store) \<Rightarrow> env \<Rightarrow> touch_request \<Rightarrow> deadline \<Rightarrow> store \<Rightarrow> (status + touched) \<times> store" where
  "touch_among others E req d s =
     (case touch_checks req of
        Inl e \<Rightarrow> (Inl e, s)
      | Inr (secs, ps) \<Rightarrow> run_tx E d (touch_body_among others E secs ps) s)"

lemma touch_alone: "touch_among (\<lambda>_ s. s) E req d s = touch E req d s"
proof -
  have "touch_body_among (\<lambda>_ s. s) E secs ps = touch_body E secs ps" for secs ps
    by (simp add: touch_body_among_def touch_body_def meanwhile_alone)
  then show ?thesis by (simp add: touch_among_def touch_def split: sum.split)
qed

lemma touch_among_run:
  assumes "touch_among others E req d s = (Inr out, s')" and good: "store_good (coll E) s"
  obtains secs ps where "touch_checks req = Inr (secs, ps)" and "s' = others 2 (flushed (coll E) (secs, ps) s)"
    and "out = (let m = length (filter (flush_matches (coll E) ps s') (projects s')) in
      \<lparr>tch_offered = length ps, tch_matched = m, tch_warned = m < length ps\<rparr>)"
proof -
  let ?u = "\<lambda>secs ps. update_projects (coll E) (\<lambda>s r. flush_matches (coll E) ps s r \<and> older r secs)
        (\<lambda>now r. r\<lparr>last_seen_at := from_unixtime secs\<rparr>)"
  let ?q = "\<lambda>ps s. length (filter (flush_matches (coll E) ps s) (projects s))"
  from assms(1) obtain secs ps where ok: "touch_checks req = Inr (secs, ps)"
    and run: "run_tx E d (touch_body_among others E secs ps) s = (Inr out, s')"
    by (cases "touch_checks req") (auto simp: touch_among_def)
  from run obtain fin t where body: "touch_body_among others E secs ps \<lparr>work = s, stmts = 1\<rparr> = (Inr fin, t)"
    and fin: "fin = Commit out \<and> s' = work t \<or> fin = Rollback (Inr out)"
    by (cases rule: run_tx_ok) blast+
  from and_then_InrD[OF body[unfolded touch_body_among_def]] obtain u t1 where
    u: "stmt E (?u secs ps) \<lparr>work = s, stmts = 1\<rparr> = (Inr u, t1)"
    and rest: "and_then (meanwhile others) (\<lambda>_. and_then (stmt E (select (?q ps)))
       (\<lambda>matched. ret (Commit
          \<lparr>tch_offered = length ps, tch_matched = matched, tch_warned = matched < length ps\<rparr>))) t1 = (Inr fin, t)" by blast
  have t1: "work t1 = flushed (coll E) (secs, ps) s" "stmts t1 = 2"
    using stmt_InrD[OF u] touch_update_run[OF good] by simp_all
  from rest obtain m where m: "stmt E (select (?q ps)) (t1\<lparr>work := others 2 (work t1)\<rparr>) = (Inr m, t)"
    and out: "fin = Commit \<lparr>tch_offered = length ps, tch_matched = m, tch_warned = m < length ps\<rparr>"
    by (auto simp: meanwhile_def t1(2) ret_def dest!: and_then_InrD)
  have "work t = others 2 (work t1) \<and> m = ?q ps (work t)"
    using stmt_InrD[OF m] by (auto dest!: select_good)
  with that[OF ok] out fin t1(1) show thesis by (auto simp: Let_def)
qed

lemma touch_among_lands:
  assumes E: "no_faults E" "acquire (the_pool E) d = Inr ()" and good: "store_good (coll E) s"
    and ok: "touch_checks req = Inr (secs, ps)"
  shows "\<exists>out s'. touch_among others E req d s = (Inr out, s')"
  by (simp add: touch_among_def ok run_tx_def touch_body_among_def meanwhile_def tx_simps E touch_update_run[OF good])

lemma flushed_count:
  "length (filter (flush_matches C ps (flushed C (secs, ps) s)) (projects (flushed C (secs, ps) s)))
   = length (filter (flush_matches C ps s) (projects s))"
  by (simp add: flushed_def filter_map o_def if_distrib[of "flush_matches C ps s"] cong: if_cong)

text \<open>Others take no matched project away.\<close>

lemma matched_grows:
  assumes ev: "evolves s s'"
  shows "length (filter (flush_matches C ps s) (projects s)) \<le> length (filter (flush_matches C ps s') (projects s'))"
proof -
  from ev obtain old news where p: "projects s' = old @ news" and rel: "list_all2 row_evolves (projects s) old"
    and al: "aliases s' = aliases s"
    by (auto simp: evolves_def)
  have match: "flush_matches C ps s' r' = flush_matches C ps s r" if "row_evolves r r'" for r r'
    using that al by (intro flush_matches_same) (simp_all add: row_evolves_def)
  have "length (filter (flush_matches C ps s) rows) = length (filter (flush_matches C ps s') rows')"
    if "list_all2 row_evolves rows rows'" for rows rows'
    using that by (induction rule: list_all2_induct) (auto simp: match)
  with rel p show ?thesis by simp
qed

text \<open>C38. A flush while others are served between its \<open>UPDATE\<close> and its \<open>COUNT\<close>. Every project it named when
  it began is seen by then at least as late as the flush says, whatever the others did; and the
  others never make it warn: a flush that warns would have warned alone.\<close>

theorem touch_among_others:
  assumes "path_collation (ci_key (coll E))" and "store_good (coll E) s"
    and "\<And>n s. served (coll E) s (others n s)"
    and "touch_among others E req d s = (Inr out, s')" and "touch_checks req = Inr (secs, ps)"
  shows "(\<forall>r \<in> set (projects s). flush_matches (coll E) ps s r \<longrightarrow>
        (\<exists>r' \<in> set (projects s'). id_of r' = id_of r \<and> (\<exists>u. last_seen_at r' = Some u \<and> secs \<le> u)))
    \<and> (tch_warned out \<longrightarrow> fst (touch E req d s) = Inr alone \<longrightarrow> tch_warned alone)"
proof -
  let ?f = "flushed (coll E) (secs, ps) s"
  obtain s'_eq: "s' = others 2 ?f" and out: "out = (let m = length (filter (flush_matches (coll E) ps s') (projects s')) in
      \<lparr>tch_offered = length ps, tch_matched = m, tch_warned = m < length ps\<rparr>)"
    using touch_among_run[OF assms(4,2)] assms(5) by auto
  have ev: "evolves ?f s'"
    unfolding s'_eq by (rule served_good(2)[OF assms(3,1) flushed_good[OF assms(2)]])
  note same = flushed_count[of "coll E" ps secs s]
  have "tch_warned alone" if w: "tch_warned out" and run: "fst (touch E req d s) = Inr alone"
  proof -
    from run obtain s0 where "touch_among (\<lambda>_ s. s) E req d s = (Inr alone, s0)"
      by (cases "touch E req d s") (simp add: touch_alone)
    from touch_among_run[OF this assms(2)] obtain secs' ps' where "touch_checks req = Inr (secs', ps')"
      and "s0 = flushed (coll E) (secs', ps') s"
      and "alone = (let m = length (filter (flush_matches (coll E) ps' s0) (projects s0)) in
        \<lparr>tch_offered = length ps', tch_matched = m, tch_warned = m < length ps'\<rparr>)" .
    then have "tch_warned alone \<longleftrightarrow> length (filter (flush_matches (coll E) ps s) (projects s)) < length ps"
      using assms(5) same by (simp add: Let_def)
    then show ?thesis using w matched_grows[OF ev, of "coll E" ps] same out by (simp add: Let_def)
  qed
  moreover have "\<exists>r' \<in> set (projects s'). id_of r' = id_of r \<and> (\<exists>u. last_seen_at r' = Some u \<and> secs \<le> u)"
    if r: "r \<in> set (projects s)" "flush_matches (coll E) ps s r" for r
  proof -
    have "from_unixtime secs = Some secs" using assms(5) by (simp add: touch_checks_Inr)
    then obtain u where u: "last_seen_at (advance secs r) = Some u" "secs \<le> u"
      by (cases "last_seen_at r") (auto simp: advance_later later_of_def)
    have "advance secs r \<in> set (projects ?f)" using r by (force simp: flushed_def)
    from evolves_row[OF ev this] obtain r' where "r' \<in> set (projects s')" "row_evolves (advance secs r) r'" by blast
    with u show ?thesis by (fastforce simp: row_evolves_def)
  qed
  ultimately show ?thesis by blast
qed

end
