(* ===== verification/Wording.thy ===== *)
theory Wording
  imports Service Debug_Str
begin

text \<open>
  What a refusal says: the message of every status the service answers, as \<open>path.rs\<close>, \<open>sql.rs\<close>,
  \<open>idem.rs\<close>, \<open>pooled.rs\<close>, \<open>read.rs\<close>, \<open>write.rs\<close> and the files below \<open>write/\<close> write it. \<open>{x:?}\<close> is
  \<open>debug_str\<close>, \<open>{x}\<close> is the value itself.
\<close>

section \<open>The sentences of each file\<close>

primrec message_path :: "(string \<Rightarrow> string) \<Rightarrow> path_reason \<Rightarrow> string" where
  \<open>message_path wide (Path_required what) =
     what @ '' is required and is never derived: a project path is supplied by the caller ''
     @ ''or the call is refused (ADR-0227). It is a slash-separated path such as ''
     @ ''"acme/forecast" (D53)''\<close>
| \<open>message_path wide (Path_too_long what n) =
     what @ '' is '' @ decimal n @ '' characters and the limit is '' @ decimal MAX_LEN
     @ ''. The value is not repeated here because it is longer than any message this ''
     @ ''service writes''\<close>
| \<open>message_path wide (Path_edge_slash what p) =
     what @ '' must not begin or end with a slash: '' @ debug_str wide p @ ''. A project ''
     @ ''path names a hierarchy of segments (D53), and a leading or trailing slash is an ''
     @ ''empty segment''\<close>
| \<open>message_path wide (Path_segment what segment p) =
     what @ '' contains the segment '' @ debug_str wide segment @ '', which is not a ''
     @ ''project path segment: '' @ debug_str wide p @ ''. A segment is one or more of A-Z ''
     @ ''a-z 0-9 . _ - and is neither "." nor "..". Spaces and punctuation are refused ''
     @ ''because a required free-text identifier attracts a DESCRIPTION, and a description ''
     @ ''accepted as an identity mints a project nobody meant to create (D52)''\<close>
| \<open>message_path wide (Reserved_root what p) =
     what @ '' is '' @ debug_str wide p @ '', which is the RESERVED segment ''
     @ debug_str wide RESERVED_ROOT @ '' and is not an organisation '' @ em_dash @ '' the ''
     @ ''store folds ASCII case, so every spelling of it is one key. It is the first ''
     @ ''segment of the private class of project ids '' @ em_dash @ '' a directory that is ''
     @ ''not a repository is registered beneath it '' @ em_dash @ '' so a project owning it ''
     @ ''would be the nearest registered ancestor of every private path in the estate, and ''
     @ ''every one of them would resolve into it (D52, D53). Name the project itself, such ''
     @ ''as "'' @ RESERVED_ROOT @ ''/<your-account-uuid>/home/you/src/thing" (ADR-0954), or ''
     @ ''an organisation of your own''\<close>

primrec message_engine :: "engine_reason \<Rightarrow> string" where
  \<open>message_engine Scope_required =
     ''scope is required and is attested by the gateway''\<close>
| \<open>message_engine Pool_exhausted =
     ''no connection was free in time '' @ em_dash @ '' retry''\<close>
| \<open>message_engine Not_serialised =
     ''the write could not be serialised '' @ em_dash @ '' retry''\<close>
| \<open>message_engine Storage_error =
     ''storage error''\<close>
| \<open>message_engine Deadline_spent =
     ''no connection was free before the caller's deadline (grpc-timeout, ADR-1019)''\<close>
| \<open>message_engine Key_other_operation =
     ''this idempotency key was already used for a different operation''\<close>
| \<open>message_engine Key_other_request =
     ''this idempotency key was already used for a different request '' @ em_dash @ '' a ''
     @ ''replay would discard what this one asked for''\<close>

text \<open>\<open>caller.map_or_else(|| "no caller".to_string(), |c| format!("{c:?}"))\<close>.\<close>

definition named :: "(string \<Rightarrow> string) \<Rightarrow> string option \<Rightarrow> string" where
  "named wide caller = (case caller of None \<Rightarrow> ''no caller'' | Some c \<Rightarrow> debug_str wide c)"

text \<open>The refusals of \<open>register.rs\<close>: of \<open>admit\<close>, of \<open>register\<close>, and below of \<open>Class::of\<close>.\<close>

definition admit_sentence :: "(string \<Rightarrow> string) \<Rightarrow> string option \<Rightarrow> string" where
  [simp]: \<open>admit_sentence wide caller =
     ''RegisterProject is callable by `project` only (ADR-1007): the client certificate ''
     @ ''must name '' @ debug_str wide REGISTER_CALLER @ '', and this one names ''
     @ named wide caller @ ''. Every module's leaf verifies against the same authority, so ''
     @ ''verification alone admits nobody here''\<close>

definition display_name_sentence :: "nat \<Rightarrow> string" where
  [simp]: \<open>display_name_sentence n =
     ''display_name is '' @ decimal n @ '' characters and the limit is ''
     @ decimal MAX_DISPLAY_NAME_CHARS\<close>

definition former_path_sentence :: "(string \<Rightarrow> string) \<Rightarrow> string \<Rightarrow> string \<Rightarrow> string" where
  [simp]: \<open>former_path_sentence wide p owner =
     debug_str wide p @ '' is a former path of the project '' @ owner @ '' and still ''
     @ ''resolves to it (D53). Registering a project there would make one path mean two ''
     @ ''things''\<close>

definition registered_sentence :: "(string \<Rightarrow> string) \<Rightarrow> string \<Rightarrow> string" where
  [simp]: \<open>registered_sentence wide p =
     ''a project is already registered at '' @ debug_str wide p\<close>

primrec message_register :: "(string \<Rightarrow> string) \<Rightarrow> register_reason \<Rightarrow> string" where
  \<open>message_register wide (Register_not_admitted caller) = admit_sentence wide caller\<close>
| \<open>message_register wide (Display_name_wide n) = display_name_sentence n\<close>
| \<open>message_register wide (Org_path p) =
     debug_str wide p @ '' is an organisation project path. Organisation projects are ''
     @ ''declared in the GitOps repository and written by the seeder (ADR-0934, ADR-0936); ''
     @ ''RegisterProject registers a private `local/<account>/...` project only''\<close>
| \<open>message_register wide No_account_segment =
     ''scope.user_id is not a canonical `yadgar:user:<lowercase uuidv7>` id, so it owns no ''
     @ ''account segment and can register no private `local/<account>/...` path (ADR-0954)''\<close>
| \<open>message_register wide (Not_own_root p seg) =
     debug_str wide p @ '' is not under your private root "local/'' @ seg @ ''". A private ''
     @ ''project id is `local/<account>/...`, where <account> is your user id without its ''
     @ ''`yadgar:user:` prefix, spelled exactly in lowercase (ADR-0954)''\<close>
| \<open>message_register wide (Private_with_repo repo p) =
     ''source_repo was sent as '' @ debug_str wide repo @ '' for the private-class path ''
     @ debug_str wide p @ ''. A `local/...` project belongs to one account and carries an ''
     @ ''owner, never a repository '' @ em_dash @ '' `ck_project_class` in the store admits ''
     @ ''exactly one of the two, so this row cannot exist. Omit source_repo''\<close>
| \<open>message_register wide (Former_path p owner) = former_path_sentence wide p owner\<close>
| \<open>message_register wide (Already_registered p) = registered_sentence wide p\<close>

primrec message_read :: "(string \<Rightarrow> string) \<Rightarrow> read_reason \<Rightarrow> string" where
  \<open>message_read wide (No_ancestor p) =
     ''no registered project matches '' @ debug_str wide p @ '' or any ancestor of it. ''
     @ ''Nothing is ever auto-created here: registration is an administrative act, through ''
     @ ''GitOps or the CLI, and never an agent operation (D52). Register the path, or a ''
     @ ''parent of it, and retry''\<close>
| \<open>message_read wide (No_project p) =
     ''no project is registered at '' @ debug_str wide p @ '', and it is not a former path ''
     @ ''of one''\<close>
| \<open>message_read wide Status_unspecified =
     ''status was sent as PROJECT_STATUS_UNSPECIFIED, which names no status. Omit the field ''
     @ ''to list every status''\<close>
| \<open>message_read wide (Status_unknown n) =
     display_int n @ '' is not a ProjectStatus''\<close>

primrec message_touch :: "touch_reason \<Rightarrow> string" where
  \<open>message_touch Seen_at_required =
     ''seen_at is required. Substituting the server's clock would record when the flush ''
     @ ''arrived rather than when anything was seen, and a delayed flush would then look ''
     @ ''like recent activity''\<close>
| \<open>message_touch (Seen_at_range secs) =
     ''seen_at is '' @ display_int secs @ '' seconds from the epoch, which last_seen_at ''
     @ ''cannot hold: it is a TIMESTAMP, so the range is ''
     @ display_int MIN_TIMESTAMP_SECONDS @ '' to '' @ display_int MAX_TIMESTAMP_SECONDS
     @ '' (1970-01-01T00:00:01Z to 2038-01-19T03:14:07Z). Outside it the engine stores ''
     @ ''NULL, which would erase the value rather than advance it''\<close>
| \<open>message_touch Paths_empty =
     ''paths is empty. An empty flush is a caller that has nothing to say, and answering OK ''
     @ ''to it hides a bucket that is not filling''\<close>
| \<open>message_touch (Paths_too_many n) =
     ''paths carries '' @ decimal n @ '' entries and the limit is '' @ decimal MAX_TOUCH\<close>

primrec message_sync :: "(string \<Rightarrow> string) \<Rightarrow> sync_reason \<Rightarrow> string" where
  \<open>message_sync wide (Sync_not_admitted caller) =
     ''SyncProjects is callable by `project` only (ADR-0936, ADR-0938): the client ''
     @ ''certificate must name '' @ debug_str wide SYNC_CALLER @ '', and this one names ''
     @ named wide caller @ ''. Every module's leaf verifies against the same authority, so ''
     @ ''verification alone admits nobody here''\<close>
| \<open>message_sync wide Sync_scope_required =
     ''scope is required: the seeder builds it with its system principal as user_id and a ''
     @ ''request_id it mints, and project relays it unchanged (ADR-0942)''\<close>
| \<open>message_sync wide (Principal_width n) =
     ''scope.user_id is the principal stamped as created_by and updated_by, and must be 1 ''
     @ ''to '' @ decimal MAX_PRINCIPAL_CHARS @ '' characters; it is '' @ decimal n\<close>
| \<open>message_sync wide No_roots =
     ''a declaration names at least one root: the namespace anchors every project sits ''
     @ ''under (ADR-0673). None was sent''\<close>
| \<open>message_sync wide (Root_deep p) =
     ''the root '' @ debug_str wide p @ '' has more than one segment. A root is a namespace ''
     @ ''anchor, a single segment such as "acme"; declare a deeper path as a project''\<close>
| \<open>message_sync wide (Not_under_root p) =
     ''the project '' @ debug_str wide p @ '' is not under a declared root. Every project ''
     @ ''sits strictly beneath one of the declaration's roots''\<close>
| \<open>message_sync wide (Declared_private what p) =
     what @ '' '' @ debug_str wide p @ '' is a private `local/...` path. A sync declares ''
     @ ''organisation projects only; a personal project belongs to one account and is ''
     @ ''registered by it''\<close>
| \<open>message_sync wide (No_source_repo p) =
     debug_str wide p @ '' has no source_repo. Every declared row is org class, and an org ''
     @ ''row names the repository whose pull request flow governs it''\<close>
| \<open>message_sync wide (Field_wide field p n) =
     ''the '' @ field @ '' of '' @ debug_str wide p @ '' is '' @ decimal n @ '' characters ''
     @ ''and the limit is '' @ decimal MAX_CHARS\<close>
| \<open>message_sync wide (Declared_twice p) =
     debug_str wide p @ '' is declared twice (paths are compared with ASCII case folded, as ''
     @ ''the store compares them)''\<close>
| \<open>message_sync wide (Declared_former_path p) =
     debug_str wide p @ '' is a former path of another project and still resolves to it ''
     @ ''(D53). Declaring a project there would make one path mean two things''\<close>
| \<open>message_sync wide (Mass_archive archiving among) =
     ''this sync would archive '' @ decimal archiving @ '' of the '' @ decimal among @ '' ''
     @ ''active organisation projects, which is more than half (ADR-0939), and nothing was ''
     @ ''written. A truncated or mis-rendered declaration looks exactly like this. If the ''
     @ ''archive is intended, send the same declaration with allow_mass_archive set''\<close>

primrec message_grants :: "(string \<Rightarrow> string) \<Rightarrow> grant_reason \<Rightarrow> string" where
  \<open>message_grants wide (Grant_level team p level) =
     ''the grant to '' @ debug_str wide team @ '' on '' @ debug_str wide p @ '' has level ''
     @ display_int level @ '', which is not read (1) or read-write (2). ''
     @ ''GRANT_LEVEL_UNSPECIFIED is refused, never stored as read''\<close>
| \<open>message_grants wide (Grant_team p team) =
     ''the grant on '' @ debug_str wide p @ '' names '' @ debug_str wide team @ '', which ''
     @ ''is not a team id. A team id is '' @ debug_str wide TEAM_PREFIX @ '' followed by a ''
     @ ''declared team name: a lowercase letter, then up to 62 lowercase letters, digits or ''
     @ ''hyphens''\<close>
| \<open>message_grants wide (Grant_twice p team) =
     debug_str wide p @ '' grants '' @ debug_str wide team @ '' twice. One team appears at ''
     @ ''most once per row''\<close>
| \<open>message_grants wide (Mass_revoke deleting among) =
     ''this sync would delete '' @ decimal deleting @ '' of the '' @ decimal among @ '' ''
     @ ''stored team grants, which is more than half (ADR-0963 (6)), and nothing was ''
     @ ''written. A truncated or mis-rendered declaration looks exactly like this. If the ''
     @ ''revocation is intended, send the same declaration with allow_mass_revoke set''\<close>
| \<open>message_grants wide (No_row_id key) =
     ''no row id for the declared path '' @ debug_str wide key\<close>

definition HELD_BACK :: string where
  \<open>HELD_BACK =
     ''this release does not implement it, and the reason is the records rather than the ''
     @ ''code. Every memory, wiki page, ADR and task already stamped with a project path ''
     @ ''goes on carrying it, and the job that retags them does not exist yet '' @ em_dash
     @ '' so moving a project today would leave those records readable, valid, and absent ''
     @ ''from every view of the project they belong to. RenameProject returns with that ''
     @ ''retag job.''\<close>

definition NO_PER_ROW_ARCHIVE :: string where
  \<open>NO_PER_ROW_ARCHIVE =
     ''organisation projects are declared in the organisation's GitOps repository and ''
     @ ''written by the D35 seeder through SyncProjects, which archives a project the ''
     @ ''declaration stops naming (ADR-0705, ADR-0934, ADR-0936). There is no per-row ''
     @ ''archive verb.''\<close>

section \<open>The message of a status\<close>

primrec message :: "(string \<Rightarrow> string) \<Rightarrow> reason \<Rightarrow> string" where
  "message wide (In_path r) = message_path wide r"
| "message wide (In_engine r) = message_engine r"
| "message wide (In_register r) = message_register wide r"
| "message wide (In_read r) = message_read wide r"
| "message wide (In_touch r) = message_touch r"
| "message wide (In_sync r) = message_sync wide r"
| "message wide (In_grants r) = message_grants wide r"
| "message wide Rename_held_back = ''RenameProject: '' @ HELD_BACK"
| "message wide No_per_row_archive = ''ArchiveProject: '' @ NO_PER_ROW_ARCHIVE"

section \<open>One line\<close>

text \<open>The values a message splices as they are: the name of a field, the caller's own account
  segment, the id of the project a former path belongs to. Everything else is quoted.\<close>

fun spliced :: "reason \<Rightarrow> string list" where
  "spliced (In_path (Path_required what)) = [what]"
| "spliced (In_path (Path_too_long what n)) = [what]"
| "spliced (In_path (Path_edge_slash what p)) = [what]"
| "spliced (In_path (Path_segment what segment p)) = [what]"
| "spliced (In_path (Reserved_root what p)) = [what]"
| "spliced (In_register (Not_own_root p seg)) = [seg]"
| "spliced (In_register (Former_path p owner)) = [owner]"
| "spliced (In_sync (Declared_private what p)) = [what]"
| "spliced (In_sync (Field_wide field p n)) = [field]"
| "spliced r = []"

abbreviation worded :: "reason \<Rightarrow> bool" where
  "worded r \<equiv> list_all one_line (spliced r)"

lemma one_line_decimal [simp]: "one_line (decimal n)"
proof (induction n rule: decimal.induct)
  case (1 n)
  have "n mod 10 < 10" by simp
  then show ?case using 1 by (subst decimal.simps) (auto simp: byte_def)
qed

lemma one_line_int [simp]: "one_line (display_int n)"
  by (simp add: display_int_def byte_def)

lemma one_line_em_dash [simp]: "one_line em_dash"
  by (simp add: em_dash_def)

lemma one_line_path: "wide_law wide \<Longrightarrow> worded (In_path r) \<Longrightarrow> one_line (message_path wide r)"
  by (cases r) (simp_all add: one_line_debug byte_def RESERVED_ROOT_def)

lemma one_line_engine: "one_line (message_engine r)"
  by (cases r) (simp_all add: byte_def)

lemma one_line_named: "wide_law wide \<Longrightarrow> one_line (named wide caller)"
  by (simp add: named_def one_line_debug byte_def split: option.split)

lemma one_line_register:
  "wide_law wide \<Longrightarrow> worded (In_register r) \<Longrightarrow> one_line (message_register wide r)"
  by (cases r) (simp_all add: one_line_debug one_line_named byte_def)

lemma one_line_read: "wide_law wide \<Longrightarrow> one_line (message_read wide r)"
  by (cases r) (simp_all add: one_line_debug byte_def)

lemma one_line_touch: "one_line (message_touch r)"
  by (cases r) (simp_all add: byte_def)

lemma one_line_sync: "wide_law wide \<Longrightarrow> worded (In_sync r) \<Longrightarrow> one_line (message_sync wide r)"
  by (cases r) (simp_all add: one_line_debug one_line_named byte_def)

lemma one_line_grants: "wide_law wide \<Longrightarrow> one_line (message_grants wide r)"
  by (cases r) (simp_all add: one_line_debug byte_def)

lemma one_line_message: "wide_law wide \<Longrightarrow> worded r \<Longrightarrow> one_line (message wide r)"
  by (cases r)
    (simp_all add: one_line_path one_line_engine one_line_register one_line_read one_line_touch one_line_sync
      one_line_grants HELD_BACK_def NO_PER_ROW_ARCHIVE_def byte_def)

end
