(* ===== verification/Wording_Spec.thy ===== *)
theory Wording_Spec
  imports Wording Registry
begin

text \<open>
  Every refusal is one line: whatever a caller sends, no line break and no control character of it
  reaches the message, nor does it end its own quotes. A body's refusals are followed by a logic of
  their own - what it may be refused with, and what it answers otherwise.
\<close>

section \<open>What a body is refused with\<close>

definition speaks :: "alias_row list \<Rightarrow> 'a txm \<Rightarrow> ('a \<Rightarrow> bool) \<Rightarrow> bool" where
  "speaks as m Q \<longleftrightarrow>
     (\<forall>t r t'. aliases (work t) = as \<longrightarrow> m t = (r, t') \<longrightarrow>
        (case r of Inl e \<Rightarrow> worded (reason_of e) | Inr x \<Rightarrow> Q x) \<and> aliases (work t') = as)"

lemma speaksD:
  "speaks as m Q \<Longrightarrow> m t = (Inl e, t') \<Longrightarrow> aliases (work t) = as \<Longrightarrow> worded (reason_of e)"
  "speaks as m Q \<Longrightarrow> m t = (Inr x, t') \<Longrightarrow> aliases (work t) = as \<Longrightarrow> Q x"
  unfolding speaks_def by (metis (no_types, lifting) sum.case(1), metis (no_types, lifting) sum.case(2))

named_theorems speak_rules \<open>bodies whose refusals are one line\<close>

lemma speaks_ret [speak_rules]: "Q x \<Longrightarrow> speaks as (ret x) Q"
  by (simp add: speaks_def ret_def)

lemma speaks_fail [speak_rules]: "worded (reason_of e) \<Longrightarrow> speaks as (fail e) Q"
  by (simp add: speaks_def fail_def)

lemma speaks_lift:
  "(\<And>e. r = Inl e \<Longrightarrow> worded (reason_of e)) \<Longrightarrow> (\<And>x. r = Inr x \<Longrightarrow> Q x) \<Longrightarrow> speaks as (lift r) Q"
  by (cases r) (simp_all add: speaks_def lift_def)

lemma speaks_mint [speak_rules]: "speaks as (mint E) (\<lambda>_. True)"
  by (simp add: speaks_def mint_def)

lemma speaks_and_then:
  assumes "speaks as m R" and "\<And>x. R x \<Longrightarrow> speaks as (f x) Q"
  shows "speaks as (and_then m f) Q"
  unfolding speaks_def
proof (intro allI impI)
  fix t r t'
  assume t: "aliases (work t) = as" and run: "and_then m f t = (r, t')"
  obtain r1 t1 where m: "m t = (r1, t1)" by (cases "m t")
  have first: "(case r1 of Inl e \<Rightarrow> worded (reason_of e) | Inr x \<Rightarrow> R x) \<and> aliases (work t1) = as"
    using assms(1) t m unfolding speaks_def by blast
  show "(case r of Inl e \<Rightarrow> worded (reason_of e) | Inr x \<Rightarrow> Q x) \<and> aliases (work t') = as"
  proof (cases r1)
    case (Inl e)
    then show ?thesis using first run m by (auto simp: and_then_def)
  next
    case (Inr x)
    then have "f x t1 = (r, t')" using run m by (simp add: and_then_def)
    then show ?thesis using assms(2)[of x] first Inr unfolding speaks_def by auto
  qed
qed

lemma speaks_weaken: "speaks as m R \<Longrightarrow> (\<And>x. R x \<Longrightarrow> Q x) \<Longrightarrow> speaks as m Q"
  unfolding speaks_def
proof (intro allI impI)
  fix t r t'
  assume all: "\<forall>t r t'. aliases (work t) = as \<longrightarrow> m t = (r, t') \<longrightarrow>
      (case r of Inl e \<Rightarrow> worded (reason_of e) | Inr x \<Rightarrow> R x) \<and> aliases (work t') = as"
    and Q: "\<And>x. R x \<Longrightarrow> Q x" and t: "aliases (work t) = as" "m t = (r, t')"
  from all[rule_format, OF t]
  show "(case r of Inl e \<Rightarrow> worded (reason_of e) | Inr x \<Rightarrow> Q x) \<and> aliases (work t') = as"
    using Q by (cases r) simp_all
qed

lemma speaks_for_each:
  "(\<And>x b. speaks as (f x b) (\<lambda>_. True)) \<Longrightarrow> speaks as (for_each f xs b) (\<lambda>_. True)"
proof (induction xs arbitrary: b)
  case Nil
  show ?case by (simp add: speaks_ret)
next
  case (Cons x xs)
  show ?case unfolding for_each.simps
    by (rule speaks_and_then[where R = "\<lambda>_. True"]) (rule Cons.prems Cons.IH[OF Cons.prems])+
qed

lemma worded_internal [simp]: "worded (reason_of (internal e))"
  by (cases e) (simp_all add: internal_def)

lemma speaks_stmt:
  assumes "\<And>now s x s'. aliases s = as \<Longrightarrow> q now s = Inr (x, s') \<Longrightarrow> Q x \<and> aliases s' = as"
  shows "speaks as (stmt E q) Q"
  using assms by (auto simp: speaks_def stmt_def attempt_def and_then_def ret_def fail_def
      split: option.splits sum.splits prod.splits)

lemma speaks_attempt:
  assumes "\<And>now s x s'. aliases s = as \<Longrightarrow> q now s = Inr (x, s') \<Longrightarrow> aliases s' = as"
  shows "speaks as (attempt E q) (\<lambda>_. True)"
  using assms by (auto simp: speaks_def attempt_def split: option.splits sum.splits prod.splits)

text \<open>The statements that write leave the former paths alone.\<close>

lemma aliases_kept:
  "insert_project C row now s = Inr (u, s') \<Longrightarrow> aliases s' = aliases s"
  "update_projects C P f now s = Inr (u, s') \<Longrightarrow> aliases s' = aliases s"
  "insert_write C w now s = Inr (u, s') \<Longrightarrow> aliases s' = aliases s"
  "update_write C k x now s = Inr (u, s') \<Longrightarrow> aliases s' = aliases s"
  "insert_grant C g now s = Inr (u, s') \<Longrightarrow> aliases s' = aliases s"
  "update_grants C pid team level now s = Inr (u, s') \<Longrightarrow> aliases s' = aliases s"
  "delete_grants C pid team now s = Inr (u, s') \<Longrightarrow> aliases s' = aliases s"
  by (auto simp: insert_project_def update_projects_def insert_write_def update_write_def insert_grant_def
      update_grants_def delete_grants_def split: option.splits if_splits)

lemma speaks_writes [speak_rules]:
  "speaks as (stmt E (insert_project C row)) (\<lambda>_. True)"
  "speaks as (stmt E (update_projects C P f)) (\<lambda>_. True)"
  "speaks as (attempt E (insert_project C row)) (\<lambda>_. True)"
  "speaks as (attempt E (insert_write C w)) (\<lambda>_. True)"
  "speaks as (stmt E (update_write C k x)) (\<lambda>_. True)"
  "speaks as (stmt E (insert_grant C g)) (\<lambda>_. True)"
  "speaks as (stmt E (update_grants C pid team level)) (\<lambda>_. True)"
  "speaks as (stmt E (delete_grants C pid team)) (\<lambda>_. True)"
  by (rule speaks_stmt speaks_attempt; auto dest: aliases_kept)+

lemma speaks_select [speak_rules]: "speaks as (stmt E (select q)) (\<lambda>_. True)"
  by (rule speaks_stmt) (auto simp: select_def)

lemma speaks_select_one [speak_rules]: "speaks as (stmt E (select_one q)) (\<lambda>_. True)"
  by (rule speaks_stmt) (auto simp: select_one_def split: option.splits)

section \<open>The checks\<close>

lemma validate_worded: "validate what p = Inl e \<Longrightarrow> one_line what \<Longrightarrow> worded (reason_of e)"
  by (auto simp: validate_def split: if_splits option.splits)

lemma reserved_worded: "refuse_reserved_root what p = Inl e \<Longrightarrow> one_line what \<Longrightarrow> worded (reason_of e)"
  by (auto simp: refuse_reserved_root_def split: if_splits)

lemma scope_worded: "scope_of sc = Inl e \<Longrightarrow> worded (reason_of e)"
  by (auto simp: scope_of_def split: option.splits)

lemma fields_one_line [simp]:
  "one_line ''path''" "one_line ''paths''" "one_line ''candidate_path''" "one_line ''under_path''"
  "one_line ''roots[].path''" "one_line ''projects[].path''" "one_line ''source_repo''"
  "one_line ''display_name''"
  by (simp_all add: byte_def)

lemmas check_worded =
  fields_one_line[THEN validate_worded[rotated]] fields_one_line[THEN reserved_worded[rotated]] scope_worded

text \<open>The account segment is what the \<open>uuid\<close> crate writes.\<close>

lemma Class_worded:
  assumes "Class_of U p actor repo = Inl e" and "\<forall>u. one_line (hyphenated U u)"
  shows "worded (reason_of e)"
  using assms by (auto simp: Class_of_def account_segment_def split: if_splits option.splits)

lemma register_checks_worded:
  assumes "register_checks U req = Inl e" and "\<forall>u. one_line (hyphenated U u)"
  shows "worded (reason_of e)"
  using assms(1) Class_worded[OF _ assms(2)]
  by (auto simp: register_checks_def also_check_eq_Inl display_name_check_def dest: check_worded split: if_splits)

lemma validate_all_worded: "validate_all what ps = Inl e \<Longrightarrow> one_line what \<Longrightarrow> worded (reason_of e)"
  by (induction ps) (auto simp: also_check_eq_Inl dest: validate_worded)

lemma touch_checks_worded: "touch_checks req = Inl e \<Longrightarrow> worded (reason_of e)"
  by (auto simp: touch_checks_def also_check_eq_Inl dest: check_worded validate_all_worded[OF _ fields_one_line(2)]
      split: option.splits if_splits)

lemma grants_worded: "validate_grants_from p seen gs = Inl e \<Longrightarrow> worded (reason_of e)"
  by (induction p seen gs rule: validate_grants_from.induct)
    (auto simp: also_check_eq_Inl grant_level_check_def split: if_splits option.splits grant_level.splits)

lemma sync_row_worded: "sync_row what d = Inl e \<Longrightarrow> one_line what \<Longrightarrow> worded (reason_of e)"
  by (auto simp: sync_row_def also_check_eq_Inl width_check_def validate_grants_def
      byte_def dest: validate_worded reserved_worded grants_worded split: if_splits)

lemma rows_worded:
  "(\<And>d e. f d = Inl e \<Longrightarrow> worded (reason_of e)) \<Longrightarrow> rows_of f ds = Inl e \<Longrightarrow> worded (reason_of e)"
  by (induction ds) (auto simp: also_check_eq_Inl)

lemma duplicates_worded: "refuse_duplicates_from seen ds = Inl e \<Longrightarrow> worded (reason_of e)"
  by (induction ds arbitrary: seen) (auto split: if_splits)

lemma root_row_worded: "root_row d = Inl e \<Longrightarrow> worded (reason_of e)"
  by (auto simp: root_row_def also_check_eq_Inl dest: sync_row_worded[OF _ fields_one_line(5)] split: if_splits)

lemma project_row_worded: "project_row_of roots d = Inl e \<Longrightarrow> worded (reason_of e)"
  by (auto simp: project_row_of_def also_check_eq_Inl dest: sync_row_worded[OF _ fields_one_line(6)] split: if_splits)

lemma declared_worded:
  "rows_of root_row ds = Inl e \<Longrightarrow> worded (reason_of e)"
  "rows_of (project_row_of roots) ds = Inl e \<Longrightarrow> worded (reason_of e)"
  by (erule rows_worded[rotated], erule root_row_worded project_row_worded)+

lemma validate_sync_worded:
  assumes "validate_sync req = Inl e"
  shows "worded (reason_of e)"
proof (cases "sy_roots req = []")
  case True
  then show ?thesis using assms by (auto simp: validate_sync_def)
next
  case roots: False
  show ?thesis
  proof (cases "rows_of root_row (sy_roots req)")
    case (Inl e')
    with assms roots have "rows_of root_row (sy_roots req) = Inl e" by (simp add: validate_sync_def)
    then show ?thesis by (rule declared_worded)
  next
    case rs: (Inr rs)
    show ?thesis
    proof (cases "rows_of (project_row_of (set (map dc_key rs))) (sy_projects req)")
      case (Inl e')
      with assms roots rs have "rows_of (project_row_of (set (map dc_key rs))) (sy_projects req) = Inl e"
        by (simp add: validate_sync_def)
      then show ?thesis by (rule declared_worded)
    next
      case (Inr ps)
      with assms roots rs have "refuse_duplicates_from {} (rs @ ps) = Inl e"
        by (simp add: validate_sync_def refuse_duplicates_def also_check_eq_Inl)
      then show ?thesis by (rule duplicates_worded)
    qed
  qed
qed

lemma admitted_worded: "admitted caller sc = Inl e \<Longrightarrow> worded (reason_of e)"
  by (auto simp: admitted_def admit_sync_def principal_def also_check_eq_Inl Let_def
      split: if_splits option.splits)

section \<open>The bodies\<close>

lemma speaks_if: "speaks as a Q \<Longrightarrow> speaks as b Q \<Longrightarrow> speaks as (if c then a else b) Q"
  by simp

lemma speaks_after: "speaks as m R \<Longrightarrow> (\<And>x. speaks as (f x) Q) \<Longrightarrow> speaks as (and_then m f) Q"
  by (rule speaks_and_then[of as m "\<lambda>_. True"]) (auto intro: speaks_weaken)

lemma speaks_pages [speak_rules]:
  "speaks as (with_aliases E ps) (\<lambda>_. True)" "speaks as (with_grants E ps) (\<lambda>_. True)"
  unfolding with_aliases_def with_grants_def Let_def
  by (intro speaks_if speaks_after[OF speaks_select] speaks_ret TrueI)+

lemma speaks_resolve: "speaks as (resolve_body E p) (\<lambda>_. True)"
  unfolding resolve_body_def ancestor_rows_def
  by (rule speaks_after[OF speaks_stmt[where Q = "\<lambda>_. True"]])
    (auto simp: select_def intro: speak_rules split: if_splits option.splits)

lemma speaks_get: "speaks as (get_body E p) (\<lambda>_. True)"
  unfolding get_body_def
  by (rule speaks_after[OF speaks_select])
    (auto intro!: speaks_after[OF speaks_pages(1)] speaks_after[OF speaks_pages(2)] speak_rules split: option.split)

lemma speaks_list: "speaks as (list_body E req limit status) (\<lambda>_. True)"
  unfolding list_body_def Let_def
  by (intro speaks_after[OF speaks_select] speaks_after[OF speaks_pages(1)] speaks_after[OF speaks_pages(2)]
      speaks_ret TrueI)

text \<open>A finished body: what it answers when it rolls back is worded too.\<close>

definition answer_worded :: "'a finish \<Rightarrow> bool" where
  "answer_worded x \<longleftrightarrow> (case x of Rollback (Inl e) \<Rightarrow> worded (reason_of e) | _ \<Rightarrow> True)"

lemma speaks_touch: "speaks as (touch_body E secs ps) answer_worded"
  unfolding touch_body_def
  by (intro speaks_after[OF speaks_writes(2)] speaks_after[OF speaks_select] speaks_ret)
    (simp add: answer_worded_def)

lemma speaks_claim: "speaks as (claim E sc rpc idem bytes) (\<lambda>_. True)"
proof (cases "present idem")
  case None
  then show ?thesis by (simp add: claim_def speaks_ret)
next
  case (Some key)
  have "speaks as (replay E sc rpc key fp) (\<lambda>_. True)" for fp
    unfolding replay_def by (rule speaks_after[OF speaks_select_one]) (auto intro: speak_rules split: option.split)
  then show ?thesis unfolding claim_def Some option.case Let_def
    by (intro speaks_after[OF speaks_writes(4)]) (auto intro: speak_rules split: sum.split)
qed

lemma speaks_record: "speaks as (record_outcome E sc idem response) (\<lambda>_. True)"
  by (auto simp: record_outcome_def intro: speak_rules split: option.split)

lemma speaks_owner:
  "\<forall>a \<in> set as. one_line (alias_project a) \<Longrightarrow>
   speaks as (alias_owner E p) (\<lambda>former. \<forall>own. former = Some own \<longrightarrow> one_line own)"
  unfolding alias_owner_def by (rule speaks_stmt) (auto simp: select_def dest!: find_in)

lemma speaks_register_row: "speaks as (register_row E req sc cls) answer_worded"
  unfolding register_row_def Let_def
  by (intro speaks_after[OF speaks_mint] speaks_after[OF speaks_writes(3)])
    (auto intro!: speaks_after[OF speaks_record] speaks_ret simp: answer_worded_def split: sum.split)

lemma speaks_register:
  assumes "\<forall>a \<in> set as. one_line (alias_project a)"
  shows "speaks as (register_body E req sc cls) answer_worded"
  unfolding register_body_def
proof (rule speaks_after[OF speaks_claim])
  fix claimed :: "register_response claimed"
  show "speaks as (case claimed of
      Proceed \<Rightarrow> and_then (alias_owner E (rg_path req)) (\<lambda>former. case former of
          None \<Rightarrow> register_row E req sc cls
        | Some own \<Rightarrow> ret (Rollback (Inl (Status Already_exists (In_register (Former_path (rg_path req) own))))))
    | Replay original \<Rightarrow> ret (Rollback (Inr original))) answer_worded"
  proof (cases claimed)
    case Proceed
    show ?thesis unfolding Proceed claimed.case
      by (rule speaks_and_then[OF speaks_owner[OF assms]])
        (auto intro: speaks_ret speaks_register_row simp: answer_worded_def split: option.split)
  qed (simp add: speaks_ret answer_worded_def)
qed

lemma speaks_aliases: "speaks as (refuse_aliases E ds) (\<lambda>_. True)"
  unfolding refuse_aliases_def by (rule speaks_after[OF speaks_select]) (auto intro: speak_rules split: option.split)

lemma speaks_write_one: "speaks as (write_one E d st actor resp) (\<lambda>_. True)"
  by (auto simp: write_one_def insert_declared_def Let_def split: option.split
      intro!: speaks_after[OF speaks_mint] speaks_after[OF speaks_writes(1)] speaks_after[OF speaks_writes(2)]
        speaks_after speak_rules)

lemma speaks_write_rows: "speaks as (write_rows E rows actor ds) (\<lambda>_. True)"
  unfolding write_rows_def
  by (rule speaks_for_each) (auto intro!: speaks_after[OF speaks_write_one] speaks_ret split: prod.split)

lemma speaks_archive: "speaks as (archive_ids E ids actor) (\<lambda>_. True)"
  by (simp add: archive_ids_def speak_rules)

lemma speaks_write_grants: "speaks as (write_grants E plan ids) (\<lambda>_. True)"
  unfolding write_grants_def write_deletes_def write_updates_def write_inserts_def
  by (intro speaks_after[OF speaks_for_each] speaks_for_each)
    (auto intro: speak_rules split: prod.split option.split)

lemma speaks_guards:
  "speaks as (lift (archive_guard n m allowed)) (\<lambda>_. True)" "speaks as (lift (revoke_guard n m allowed)) (\<lambda>_. True)"
  by (auto simp: archive_guard_def revoke_guard_def intro!: speaks_lift)

lemma speaks_apply: "speaks as (sync_apply E ds actor ma mr) (\<lambda>_. True)"
  unfolding sync_apply_def Let_def lock_sync_def read_stored_def stored_grants_def
  by (intro speaks_after[OF speaks_select_one] speaks_after[OF speaks_select] speaks_after[OF speaks_aliases]
      speaks_after[OF speaks_guards(1)] speaks_after[OF speaks_guards(2)])
    (auto intro!: speaks_after[OF speaks_write_rows] speaks_after[OF speaks_archive]
      speaks_after[OF speaks_write_grants] speaks_ret split: prod.split)

lemma speaks_settle: "speaks as m (\<lambda>_. True) \<Longrightarrow> speaks as (settle m) answer_worded"
  unfolding speaks_def
proof (intro allI impI)
  fix t r t'
  assume m: "\<forall>t r t'. aliases (work t) = as \<longrightarrow> m t = (r, t') \<longrightarrow>
      (case r of Inl e \<Rightarrow> worded (reason_of e) | Inr x \<Rightarrow> True) \<and> aliases (work t') = as"
    and t: "aliases (work t) = as" and run: "settle m t = (r, t')"
  obtain r1 t1 where r1: "m t = (r1, t1)" by (cases "m t")
  from m[rule_format, OF t r1] run r1
  show "(case r of Inl e \<Rightarrow> worded (reason_of e) | Inr x \<Rightarrow> answer_worded x) \<and> aliases (work t') = as"
    by (cases r1) (auto simp: settle_def answer_worded_def)
qed

section \<open>The calls\<close>

lemma acquire_worded: "acquire P d = Inl e \<Longrightarrow> worded (reason_of e)"
  by (auto simp: acquire_def pool_acquire_def spent_def Let_def split: if_splits option.splits)

lemma conn_worded:
  assumes "speaks (aliases s) body (\<lambda>_. True)" and "run_conn E d body s = (Inl e, s')"
  shows "worded (reason_of e)"
  using assms(2) speaksD(1)[OF assms(1), of "\<lparr>work = s, stmts = 0\<rparr>"]
  by (auto simp: run_conn_def dest: acquire_worded split: sum.splits prod.splits)

lemma tx_worded:
  assumes "speaks (aliases s) body answer_worded" and "run_tx E d body s = (Inl e, s')"
  shows "worded (reason_of e)"
  using assms(2) speaksD[OF assms(1), of "\<lparr>work = s, stmts = 1\<rparr>"]
  by (auto simp: run_tx_def answer_worded_def dest: acquire_worded
      split: sum.splits prod.splits option.splits finish.splits)

text \<open>C40. What a caller sends cannot forge a line: every refusal of every rpc, as it is worded on the
  wire, is free of line breaks and of every ASCII control character, whatever the request holds - the values it
  repeats are quoted, and a quoted value ends at its own closing quote and not before. It rests on
  the \<open>uuid\<close> crate writing an id on one line, and on the ids the former paths refer to.\<close>

theorem refusals_are_one_line:
  assumes "serve E q d s = (Inl e, s')" and "wide_law wide"
    and "\<forall>u. one_line (hyphenated (uuid_api E) u)" and "\<forall>a \<in> set (aliases s). one_line (alias_project a)"
  shows "one_line (message wide (reason_of e))
    \<and> to_quote (tl (debug_str wide v) @ rest) = Some (escape_debug wide v, rest)"
proof -
  have "worded (reason_of e)"
  proof (cases q)
    case (Register caller req)
    then show ?thesis using assms(1)
      by (auto simp: serve_def replying_Inl register_as_def register_def admit_register_def
          intro: register_checks_worded[OF _ assms(3)] tx_worded[OF speaks_register[OF assms(4)]]
          split: sum.splits if_splits)
  next
    case (Resolve req)
    then show ?thesis using assms(1)
      by (auto simp: serve_def replying_Inl resolve_def resolve_checks_def also_check_eq_Inl
          intro: conn_worded[OF speaks_resolve] dest: check_worded split: sum.splits)
  next
    case (Get req)
    then show ?thesis using assms(1)
      by (auto simp: serve_def replying_Inl get_def intro: conn_worded[OF speaks_get] dest: check_worded
          split: sum.splits)
  next
    case (List req)
    then show ?thesis using assms(1)
      by (auto simp: serve_def replying_Inl list_projects_def list_checks_def status_filter_def also_check_eq_Inl
          intro: conn_worded[OF speaks_list] dest: check_worded
          split: sum.splits if_splits option.splits project_status.splits)
  next
    case (Touch req)
    then show ?thesis using assms(1)
      by (auto simp: serve_def replying_Inl touch_def intro: touch_checks_worded tx_worded[OF speaks_touch]
          split: sum.splits)
  next
    case (Sync caller req)
    then show ?thesis using assms(1)
      by (auto simp: serve_def replying_Inl sync_as_def also_check_eq_Inl
          intro: admitted_worded validate_sync_worded tx_worded[OF speaks_settle[OF speaks_apply]] split: sum.splits)
  qed (use assms(1) in \<open>auto simp: serve_def replying_Inl rename_def archive_def\<close>)
  then show ?thesis using one_line_message[OF assms(2)] quoted_ends[OF assms(2)] by blast
qed

end
