(* ===== verification/Contract_Examples.thy ===== *)
theory Contract_Examples
  imports Pagination_Live Commute Touch_Among Wording_Spec Read_Examples History_Examples
begin

text \<open>The typed answers, the pages, the blindness of a sync and the words of a refusal, on the sample registry.\<close>

theorem typed_example:
  "\<exists>p. gt_project (projr (fst (get sample_env (get_at ''ACME/engine'') sample_deadline sample_store))) = Some p
     \<and> project_typed p"
proof -
  have "path_ok (gt_path (get_at ''ACME/engine''))"
    using engine_path by (simp only: get_at_def get_request.simps validate_ok_iff)
  from get_run[OF sample_env_ready(1,2) this sample_good] engine_named
  obtain resp where resp: "get sample_env (get_at ''ACME/engine'') sample_deadline sample_store = (Inr resp, sample_store)"
    by (auto simp: get_at_def split: option.splits)
  then have "serve sample_env (Get (get_at ''ACME/engine'')) sample_deadline sample_store = (Inr (Got resp), sample_store)"
    by (simp add: serve_def replying_Inr)
  from answers_are_typed[OF this sample_env_ready(7) sample_good] resp show ?thesis
    by (simp add: reply_typed_def)
qed

section \<open>Pages\<close>

definition pages_under :: "string \<Rightarrow> int \<Rightarrow> list_request" where
  "pages_under p n = (list_under p n)\<lparr>ls_status := None\<rparr>"

definition second_page :: list_request where
  "second_page = (pages_under ''Acme'' 1)\<lparr>ls_page_token := ''acme''\<rparr>"

lemma under_acme_any: "list_checks (pages_under ''Acme'' 1) = Inr (1, None)"
  by code_simp

lemma under_acme_second: "list_checks second_page = Inr (1, None)"
  by code_simp

lemma under_acme_rows:
  "map path (selection ascii_coll (pages_under ''Acme'' 1) None sample_store) = [''acme'', ''acme/core'']"
  "map path (selection ascii_coll second_page None sample_store) = [''acme/core'']"
  by code_simp+

lemma page_token:
  "map path (selection C req status s) = p # ps \<Longrightarrow>
   ls_next_page_token (page_of C req 1 status s) = (if ps = [] then [] else p)"
  by (cases "selection C req status s") (auto simp: page_of_def Let_def)

lemma under_acme_tokens:
  "ls_next_page_token (page_of ascii_coll (pages_under ''Acme'' 1) 1 None sample_store) = ''acme''"
  "ls_next_page_token (page_of ascii_coll second_page 1 None sample_store) = []"
  using page_token[OF under_acme_rows(1)] page_token[OF under_acme_rows(2)] by simp_all

text \<open>A stranger's registration, refused, is served before the second page.\<close>

lemma a_refusal_between: "served ascii_coll sample_store sample_store"
proof (rule served.call[OF served.start sample_env_ready(3)])
  show "serve sample_env (Register (Some ''somebody'') sample_register) sample_deadline sample_store
      = (Inl (Status Permission_denied (In_register (Register_not_admitted (Some ''somebody'')))), sample_store)"
    by (simp add: serve_def replying_def register_as_def admit_register_def REGISTER_CALLER_def)
qed

lemma acme_paged:
  "\<exists>ps. paged_while ascii_coll (pages_under ''Acme'' 1) sample_store sample_store ps"
proof -
  let ?one = "page_of ascii_coll (pages_under ''Acme'' 1) 1 None sample_store"
  have one: "list_projects sample_env (pages_under ''Acme'' 1) sample_deadline sample_store = (Inr ?one, sample_store)"
    using list_run[OF sample_env_ready(1,2) under_acme_any sample_good] by (simp only: sample_env_ready(3))
  have two: "list_projects sample_env second_page sample_deadline sample_store
      = (Inr (page_of ascii_coll second_page 1 None sample_store), sample_store)"
    using list_run[OF sample_env_ready(1,2) under_acme_second sample_good] by (simp only: sample_env_ready(3))
  have token: "ls_next_page_token ?one \<noteq> []" by (simp only: under_acme_tokens(1)) simp
  have next_page: "(pages_under ''Acme'' 1)\<lparr>ls_page_token := ls_next_page_token ?one\<rparr> = second_page"
    by (simp only: under_acme_tokens(1) second_page_def)
  have "paged_while ascii_coll second_page sample_store sample_store
      (ls_projects (page_of ascii_coll second_page 1 None sample_store))"
    by (rule paged_while.last_page[OF a_refusal_between sample_env_ready(3) two under_acme_tokens(2)])
  then have "paged_while ascii_coll ((pages_under ''Acme'' 1)\<lparr>ls_page_token := ls_next_page_token ?one\<rparr>)
      sample_store sample_store (ls_projects (page_of ascii_coll second_page 1 None sample_store))"
    by (simp only: next_page)
  from paged_while.another_page[OF served.start sample_env_ready(3) one token this] show ?thesis by blast
qed

lemma core_listed: "listed ascii_coll (pages_under ''Acme'' 1) None (org_row ''b'' ''acme/core'')"
  by code_simp

theorem pages_while_served_example:
  "\<exists>ps. paged_while ascii_coll (pages_under ''Acme'' 1) sample_store sample_store ps
     \<and> ''acme/core'' \<in> p_path ` set ps \<and> own_path \<notin> p_path ` set ps"
proof -
  from acme_paged obtain ps where ps: "paged_while ascii_coll (pages_under ''Acme'' 1) sample_store sample_store ps" ..
  have req: "ls_status (pages_under ''Acme'' 1) = None" "ls_page_token (pages_under ''Acme'' 1) = []"
    by (simp_all add: pages_under_def list_under_def)
  have ck: "path_collation (ci_key ascii_coll)" using general.path_collation_axioms by simp
  note w = pages_while_served[OF ps ck sample_store_good req]
  have core: "org_row ''b'' ''acme/core'' \<in> set (projects sample_store)" by (simp add: sample_store_def)
  from w have "listed ascii_coll (pages_under ''Acme'' 1) None r \<longrightarrow> path r \<in> p_path ` set ps"
    if "r \<in> set (projects sample_store)" for r using that by blast
  from this[OF core] core_listed have "''acme/core'' \<in> p_path ` set ps" by (simp add: org_row_def)
  moreover have "\<not> listed ascii_coll (pages_under ''Acme'' 1) None own_row" by code_simp
  then have "own_path \<notin> path ` {r \<in> set (projects sample_store). listed ascii_coll (pages_under ''Acme'' 1) None r}"
    by (auto simp: sample_store_def org_row_def own_row_def own_path_def)
  then have "own_path \<notin> p_path ` set ps" using w by blast
  ultimately show ?thesis using ps by blast
qed

section \<open>A sync on two registries\<close>

text \<open>The sample registry without its private project, its core project seen.\<close>

definition other_store :: store where
  "other_store = sample_store\<lparr>projects := [org_row ''a'' ''acme'', (org_row ''b'' ''acme/core'')\<lparr>last_seen_at := Some 9\<rparr>]\<rparr>"

lemma row_good_seen: "row_good C (r\<lparr>last_seen_at := t\<rparr>) = row_good C r"
  by (simp add: row_good_def row_refusal_def row_fits_def class_ok_def split: option.split)

lemma other_store_good: "store_good ascii_coll other_store"
proof -
  let ?b = "org_row ''b'' ''acme/core''" and ?a = "org_row ''a'' ''acme''"
  have rows: "projects sample_store = [?a, ?b, own_row]" "projects other_store = [?a, ?b\<lparr>last_seen_at := Some 9\<rparr>]"
    and same: "grants other_store = grants sample_store" "aliases other_store = aliases sample_store"
      "writes other_store = writes sample_store" "sync_lock other_store = sync_lock sample_store"
    by (simp_all add: other_store_def sample_store_def)
  have good: "projects_good ascii_coll (projects sample_store)" "grants_good ascii_coll (projects sample_store) (grants sample_store)"
    "one_namespace ascii_coll (projects sample_store) (aliases sample_store)"
    using sample_store_good by (simp_all add: store_good_def)
  have "row_good ascii_coll ?b" "row_good ascii_coll ?a" using good(1) by (simp_all add: projects_good_def rows)
  then have "row_good ascii_coll (?b\<lparr>last_seen_at := Some 9\<rparr>)" "row_good ascii_coll ?a"
    by (simp_all only: row_good_seen)
  with good(1) have "projects_good ascii_coll (projects other_store)"
    by (simp add: projects_good_def rows)
  moreover have "grants_good ascii_coll (projects other_store) (grants other_store)"
    using good(2) by (simp add: grants_good_def rows same) (simp add: own_row_def)
  moreover have "one_namespace ascii_coll (projects other_store) (aliases other_store)"
    using good(3) by (simp add: one_namespace_def rows same)
  ultimately show ?thesis using sample_store_good by (simp add: store_good_def same)
qed

lemma sample_row_ids:
  "r \<in> set (projects sample_store) \<Longrightarrow> \<not> same_id ascii_coll (id_of r) (minted sample_env n)"
proof
  assume r: "r \<in> set (projects sample_store)" and "same_id ascii_coll (id_of r) (minted sample_env n)"
  then have "length (id_of r) = 51"
    using eq_ignore_length[of "id_of r" "minted sample_env n"] length_minted
    by (simp add: same_id_def general_ci_fold eq_ignore_ascii_case_def)
  then show False using r by (auto simp: sample_store_def org_row_def own_row_def)
qed

theorem sync_blind_example:
  "fst (run_sync sample_sync other_store) = Inr synced_response
   \<and> filter (\<lambda>p. \<not> org p) (projects (snd (run_sync sample_sync other_store)))
     = filter (\<lambda>p. \<not> org p) (projects other_store)"
proof -
  have view: "org_view (projects other_store) = org_view (projects sample_store)"
    "aliases other_store = aliases sample_store" "grants other_store = grants sample_store"
    by (simp_all add: other_store_def sample_store_def org_view_def unseen_def org_def org_row_def own_row_def)
  have "\<forall>r \<in> set (projects other_store) \<union> set (projects sample_store). \<not> org r \<longrightarrow>
      (\<forall>n. \<not> same_id (coll sample_env) (id_of r) (minted sample_env n))"
    using sample_row_ids[of own_row] by (auto simp: other_store_def sample_store_def org_def org_row_def)
  note view_blind = sync_blind_to_private[OF sample_env_ready(7) other_store_good[folded sample_env_ready(3)] sample_good view this]
  obtain r t where run: "run_sync sample_sync other_store = (r, t)" by fastforce
  from view_blind[OF run sample_synced] run show ?thesis by simp
qed

section \<open>A registration beside a sync\<close>

text \<open>The registration runs elsewhere, so the ids it mints begin otherwise.\<close>

definition elsewhere :: env where
  "elsewhere = sample_env\<lparr>now_v7 := (\<lambda>n. ''10000000-0000-7000-8000-000000000000'')\<rparr>"

definition plans_register :: register_request where
  "plans_register = sample_register\<lparr>rg_path := ''local/'' @ sample_uuid @ ''/plans''\<rparr>"

lemma elsewhere_ready [simp]:
  "no_faults elsewhere" "acquire (the_pool elsewhere) d = acquire (the_pool sample_env) d"
  "coll elsewhere = ascii_coll" "uuid_api elsewhere = sample_uuids"
  "encode_response elsewhere = encode_sample"
  "minted elsewhere n = ''yadgar:project:10000000-0000-7000-8000-000000000000''"
  using sample_env_ready(1) by (simp_all add: elsewhere_def no_faults_def minted_def)

lemma plans_checks:
  "register_checks sample_uuids plans_register
     = Inr (sample_scope, \<lparr>cl_owner_user_id = sample_user, cl_visibility = 1\<rparr>)"
  by code_simp

lemma elsewhere_ids:
  "\<not> same_id ascii_coll (minted elsewhere n) (minted sample_env m)"
  "\<forall>r \<in> set (projects sample_store). \<not> same_id ascii_coll (id_of r) (minted elsewhere n)"
proof -
  have "ascii_lower CHR ''1'' \<noteq> ascii_lower CHR ''0''" by code_simp
  then show "\<not> same_id ascii_coll (minted elsewhere n) (minted sample_env m)"
    by (simp add: same_id_def general_ci_fold minted_def sample_env_def elsewhere_def)
qed (simp add: same_id_def general_ci_fold sample_store_def org_row_def own_row_def)

lemma plans_free: "path_free ascii_coll (rg_path plans_register) sample_store"
proof -
  have "list_all (\<lambda>r. \<not> same_path ascii_coll (path r) (rg_path plans_register)) (projects sample_store)"
    "list_all (\<lambda>a. \<not> same_path ascii_coll (alias_path a) (rg_path plans_register)) (aliases sample_store)"
    by code_simp+
  then show ?thesis by (simp add: path_free_def list_all_iff)
qed

lemma plans_land_on:
  assumes "path_free ascii_coll (rg_path plans_register) s" and "writes s = []"
    and "\<forall>r \<in> set (projects s). \<not> same_id ascii_coll (id_of r) (minted elsewhere 0)"
  shows "\<exists>n s'. register_as elsewhere (Some REGISTER_CALLER) plans_register sample_deadline s
     = (Inr (response_for elsewhere plans_register sample_scope n), s')
    \<and> registered elsewhere plans_register sample_scope (response_for elsewhere plans_register sample_scope n) s s'"
proof (rule register_run_lands[where cls = "\<lparr>cl_owner_user_id = sample_user, cl_visibility = 1\<rparr>"])
  show "ids_fresh elsewhere 4 s"
    using assms(3) chars_count_le[of "minted elsewhere 0"] by (simp add: ids_fresh_def fits_def)
  show "key_usable elsewhere plans_register sample_scope s"
    using sample_widths assms(2)
    by (simp add: key_usable_def key_free_def response_for_def length_encode_sample sample_scope_def sample_user_def
        sample_uuid_def plans_register_def sample_register_def present_def)
qed (use assms(1) plans_checks sample_env_ready in auto)

lemma plans_land:
  "\<exists>n s'. register_as elsewhere (Some REGISTER_CALLER) plans_register sample_deadline sample_store
     = (Inr (response_for elsewhere plans_register sample_scope n), s')"
  using plans_land_on[OF plans_free] elsewhere_ids(2) by (auto simp: sample_store_def)

theorem commute_example:
  "\<exists>resp s1 s2 t2. register_as elsewhere (Some REGISTER_CALLER) plans_register sample_deadline sample_store = (Inr resp, s1)
     \<and> run_sync sample_sync s1 = (Inr synced_response, s2)
     \<and> register_as elsewhere (Some REGISTER_CALLER) plans_register sample_deadline synced_store = (Inr resp, t2)
     \<and> same_classes s2 t2"
proof -
  obtain n s1 where reg: "register_as elsewhere (Some REGISTER_CALLER) plans_register sample_deadline sample_store
      = (Inr (response_for elsewhere plans_register sample_scope n), s1)" using plans_land by blast
  have "ids_apart elsewhere sample_env sample_store"
    using elsewhere_ids sample_row_ids by (simp add: ids_apart_def)
  moreover have "path_collation (ci_key (coll elsewhere))" using sample_env_ready(7) by simp
  moreover have "store_good (coll elsewhere) sample_store" by simp
  moreover have "coll sample_env = coll elsewhere" by simp
  ultimately show ?thesis
    using register_and_sync_commute[OF _ _ _ _ reg sample_synced] reg by blast
qed

section \<open>A sync between the statements of a read\<close>

text \<open>It commits before the last of the three. The answer has the display name of before it and the
  grants of after it, which the registry never had together.\<close>

definition sync_between :: "nat \<Rightarrow> store \<Rightarrow> store" where
  "sync_between n s = (if n = 2 then snd (run_sync sample_sync s) else s)"

lemma sync_between_served: "served ascii_coll s (sync_between n s)"
proof (cases "n = 2")
  case True
  have "serve sample_env (Sync (Some SYNC_CALLER) sample_sync) sample_deadline s
      = (fst (serve sample_env (Sync (Some SYNC_CALLER) sample_sync) sample_deadline s), snd (run_sync sample_sync s))"
    by (rule prod_eqI) (simp_all add: serve_def replying_def case_prod_beta)
  from served.call[OF served.start sample_env_ready(3) this] True show ?thesis by (simp add: sync_between_def)
qed (simp add: sync_between_def served.start)

lemma core_between: "last_seen_by sync_between sample_store = synced_store"
  by (simp add: last_seen_by_def sync_between_def synced_store_def)

lemma core_named: "names ascii_coll sample_store ''acme/core'' = Some (org_row ''b'' ''acme/core'', False)"
  by (rule live_names[OF sample_store_good]) (simp_all add: sample_store_def org_row_def same_path_def)

lemma core_read_lands:
  "\<exists>resp. fst (get_among sync_between sample_env (get_at ''acme/core'') sample_deadline sample_store) = Inr resp"
proof -
  let ?f = "\<lambda>ps. ret \<lparr>gt_project = (case ps of [] \<Rightarrow> None | q # _ \<Rightarrow> Some q)\<rparr>"
  have "get_row ascii_coll ''acme/core'' sample_store = Some (COLUMNS (org_row ''b'' ''acme/core''))"
    using get_row_names[OF sample_store_good, of "''acme/core''"] core_named by simp
  then have "get_body_among sync_between sample_env ''acme/core'' \<lparr>work = sample_store, stmts = 0\<rparr>
      = fill_among sync_between sample_env [row_to_project (COLUMNS (org_row ''b'' ''acme/core''))] ?f
          \<lparr>work = sample_store, stmts = 1\<rparr>"
    by (simp add: get_body_among_def tx_simps)
  moreover obtain ps t where "fill_among sync_between sample_env [row_to_project (COLUMNS (org_row ''b'' ''acme/core''))] ?f
      \<lparr>work = sample_store, stmts = 1\<rparr> = ?f ps t"
    using fill_among_lands[OF sample_env_ready(1), of sync_between _ ?f] by blast
  moreover have "validate ''path'' ''acme/core'' = Inr ()" by code_simp
  ultimately show ?thesis
    using sample_env_ready(2) by (simp add: get_among_def get_at_def run_conn_def ret_def)
qed

lemma core_grants_after:
  "(\<lambda>g. (dg_team_id g, dg_level g)) ` set (own_grants ascii_coll synced_store (org_row ''b'' ''acme/core''))
   = {(''yadgar:team:t1'', 2)}"
proof -
  have ck: "path_collation (ci_key ascii_coll)" using sample_env_ready(7) by simp
  from sync_converged[OF sample_synced sample_sync_good] obtain ds where
    "validate_sync sample_sync = Inr ds" "declaration_ok ds" "converged ds synced_store"
    "store_good ascii_coll synced_store" by auto
  then have ds: "declaration_ok sample_declared" "converged sample_declared synced_store"
    and good: "store_good ascii_coll synced_store" by (simp_all add: sample_validated)
  have "evolves sample_store synced_store"
    using served_good(2)[OF sync_between_served[of sample_store 2] ck sample_store_good]
    by (simp add: sync_between_def synced_store_def)
  moreover have "org_row ''b'' ''acme/core'' \<in> set (projects sample_store)" by (simp add: sample_store_def)
  ultimately obtain r where r: "r \<in> set (projects synced_store)" "row_evolves (org_row ''b'' ''acme/core'') r"
    using evolves_row by blast
  have lower: "to_ascii_lowercase ''acme/core'' = ''acme/core''" by code_simp
  have key: "dc_key core_declared = ''acme/core''" by (simp add: core_declared_def sample_declared_def)
  have "stored_at synced_store core_declared r"
    using r lower key by (simp add: stored_at_def row_evolves_def folded_def org_def org_row_def)
  from own_grants_declared[OF ck good ds(2,1) core_declared_simps(1) this]
  have "(\<lambda>g. (dg_team_id g, dg_level g)) ` set (own_grants ascii_coll synced_store r) = {(''yadgar:team:t1'', 2)}"
    by (simp add: core_declared_simps(4))
  moreover have "own_grants ascii_coll synced_store r = own_grants ascii_coll synced_store (org_row ''b'' ''acme/core'')"
    using r(2) by (simp add: own_grants_def row_evolves_def)
  ultimately show ?thesis by simp
qed

theorem torn_example:
  "\<exists>resp q. fst (get_among sync_between sample_env (get_at ''acme/core'') sample_deadline sample_store) = Inr resp
     \<and> gt_project resp = Some q \<and> p_display_name q = ''acme/core''
     \<and> (\<lambda>g. (dg_team_id g, dg_level g)) ` set (p_grants q) = {(''yadgar:team:t1'', 2)}"
proof -
  obtain resp where resp: "fst (get_among sync_between sample_env (get_at ''acme/core'') sample_deadline sample_store) = Inr resp"
    using core_read_lands by blast
  have others: "served (coll sample_env) s (sync_between n s)" for n s using sync_between_served by simp
  have good: "store_good (coll sample_env) sample_store" by simp
  have at: "gt_path (get_at ''acme/core'') = ''acme/core''" by (simp add: get_at_def)
  from reads_among_others[OF sample_env_ready(7) good others, THEN conjunct1, rule_format, OF resp]
  have "gt_project resp = Some (torn_view ascii_coll sample_store synced_store (org_row ''b'' ''acme/core''))"
    unfolding at core_between by (simp add: core_named)
  with resp core_grants_after show ?thesis
    by (simp add: torn_view_def project_view_def row_to_project_def COLUMNS_def) (simp add: org_row_def)
qed

section \<open>A registration between the statements of a flush\<close>

text \<open>The flush names the path that is registered before its count: it is counted, so nothing is warned
  of, and was not updated.\<close>

definition registered_between :: "nat \<Rightarrow> store \<Rightarrow> store" where
  "registered_between n s =
     snd (register_as elsewhere (Some REGISTER_CALLER) plans_register sample_deadline s)"

definition plans_flush :: touch_request where
  "plans_flush = flush_at 50 [''acme'', rg_path plans_register]"

lemma plans_flush_checks: "touch_checks plans_flush = Inr (50, [''acme'', rg_path plans_register])"
  by code_simp

lemma registered_between_served: "served ascii_coll s (registered_between n s)"
proof -
  let ?q = "Register (Some REGISTER_CALLER) plans_register"
  have "serve elsewhere ?q sample_deadline s
      = (fst (serve elsewhere ?q sample_deadline s), registered_between n s)"
    by (rule prod_eqI) (simp_all add: serve_def replying_def case_prod_beta registered_between_def)
  from served.call[OF served.start elsewhere_ready(3) this] show ?thesis .
qed

lemma plans_flush_alone:
  "length (filter (flush_matches ascii_coll [''acme'', rg_path plans_register] sample_store) (projects sample_store)) = 1"
  by code_simp

lemma flushed_between:
  "\<exists>pid now. projects (registered_between 2 (flushed ascii_coll fl sample_store))
     = projects (flushed ascii_coll fl sample_store)
       @ [private_row plans_register sample_scope \<lparr>cl_owner_user_id = sample_user, cl_visibility = 1\<rparr> pid now]
    \<and> aliases (registered_between 2 (flushed ascii_coll fl sample_store)) = aliases sample_store"
proof -
  have rows: "\<exists>r' \<in> set (projects sample_store). path r = path r' \<and> id_of r = id_of r'"
    if "r \<in> set (projects (flushed ascii_coll fl sample_store))" for r
    using that by (auto simp: flushed_def split: prod.splits if_splits)
  have "path_free ascii_coll (rg_path plans_register) (flushed ascii_coll fl sample_store)"
    using plans_free rows by (fastforce simp: path_free_def)
  moreover have "writes (flushed ascii_coll fl sample_store) = []" by (simp add: sample_store_def)
  moreover have "\<forall>r \<in> set (projects (flushed ascii_coll fl sample_store)). \<not> same_id ascii_coll (id_of r) (minted elsewhere 0)"
    using rows elsewhere_ids(2)[of 0] by metis
  ultimately show ?thesis
    using plans_land_on[of "flushed ascii_coll fl sample_store"]
    by (fastforce simp: registered_between_def registered_def sample_scope_def)
qed

theorem flush_between_example:
  "\<exists>out s'. touch_among registered_between sample_env plans_flush sample_deadline sample_store = (Inr out, s')
     \<and> \<not> tch_warned out \<and> list_ex (\<lambda>r. path r = rg_path plans_register \<and> last_seen_at r = None) (projects s')
     \<and> list_ex (\<lambda>r. id_of r = ''yadgar:project:a'' \<and> (case last_seen_at r of None \<Rightarrow> False | Some u \<Rightarrow> 50 \<le> u)) (projects s')"
proof -
  let ?ps = "[''acme'', rg_path plans_register]"
  have good: "store_good (coll sample_env) sample_store" by simp
  obtain out s' where run: "touch_among registered_between sample_env plans_flush sample_deadline sample_store = (Inr out, s')"
    using touch_among_lands[OF sample_env_ready(1,2) good plans_flush_checks] by blast
  have others: "served (coll sample_env) s (registered_between n s)" for n s using registered_between_served by simp
  have acme: "org_row ''a'' ''acme'' \<in> set (projects sample_store)"
    "flush_matches (coll sample_env) ?ps sample_store (org_row ''a'' ''acme'')"
    by (simp_all add: sample_store_def flush_matches_def same_path_def org_row_def)
  have seen: "\<exists>r' \<in> set (projects s'). id_of r' = ''yadgar:project:a'' \<and> (\<exists>u. last_seen_at r' = Some u \<and> 50 \<le> u)"
    using touch_among_others[OF sample_env_ready(7) good others run plans_flush_checks, THEN conjunct1, rule_format, OF acme]
    by (simp add: org_row_def)
  let ?f = "flushed ascii_coll (50, ?ps) sample_store"
  from touch_among_run[OF run good] plans_flush_checks have s': "s' = registered_between 2 ?f"
    and out: "out = (let m = length (filter (flush_matches ascii_coll ?ps s') (projects s')) in
      \<lparr>tch_offered = length ?ps, tch_matched = m, tch_warned = m < length ?ps\<rparr>)" by auto
  obtain pid now where rows: "projects s' = projects ?f
       @ [private_row plans_register sample_scope \<lparr>cl_owner_user_id = sample_user, cl_visibility = 1\<rparr> pid now]"
    (is "_ = _ @ [?new]") and al: "aliases s' = aliases sample_store"
    using flushed_between[of "(50, ?ps)"] s' by blast
  have match: "flush_matches ascii_coll ?ps s' = flush_matches ascii_coll ?ps ?f"
    using al by (simp add: flush_matches_def fun_eq_iff)
  have new: "path ?new = rg_path plans_register" "last_seen_at ?new = None" by (simp_all add: private_row_def)
  then have "flush_matches ascii_coll ?ps ?f ?new" by (simp add: flush_matches_def same_path_def)
  then have "length (filter (flush_matches ascii_coll ?ps s') (projects s')) = 2"
    unfolding match rows using flushed_count[of ascii_coll ?ps 50 sample_store] plans_flush_alone by simp
  then have "\<not> tch_warned out" by (simp add: out Let_def)
  with run seen new rows show ?thesis by (fastforce simp: list_ex_iff split: option.split)
qed

section \<open>The words of a refusal\<close>

text \<open>A path that holds a line break and a line of its own, a quote before it.\<close>

definition forged_path :: string where
  "forged_path = ''acme/x'' @ [double_quote, CHR 0x0A] @ ''level=INFO admitted''"

lemma forged_refused:
  "serve sample_env (Get (get_at forged_path)) sample_deadline sample_store
   = (Inl (Status Invalid_argument (In_path (Path_segment ''path''
        (''x'' @ [double_quote, CHR 0x0A] @ ''level=INFO admitted'') forged_path))), sample_store)"
proof -
  have "validate ''path'' forged_path = Inl (Status Invalid_argument (In_path (Path_segment ''path''
        (''x'' @ [double_quote, CHR 0x0A] @ ''level=INFO admitted'') forged_path)))"
    by code_simp
  then show ?thesis
    by (simp add: serve_def replying_Inl get_def get_at_def)
qed

theorem refusals_one_line_example:
  "one_line (message (\<lambda>u. u) (In_path (Path_segment ''path''
      (''x'' @ [double_quote, CHR 0x0A] @ ''level=INFO admitted'') forged_path)))
   \<and> \<not> one_line forged_path"
proof -
  have "wide_law (\<lambda>u. u)" by (simp add: wide_law_def)
  moreover have "\<forall>u. one_line (hyphenated (uuid_api sample_env) u)"
    by (simp add: sample_defs byte_def)
  moreover have "\<forall>a \<in> set (aliases sample_store). one_line (alias_project a)"
    by (simp add: sample_store_def byte_def)
  moreover have "\<not> one_line forged_path" by (simp add: forged_path_def byte_def)
  ultimately show ?thesis using refusals_are_one_line[OF forged_refused] by simp
qed

end
