(* ===== verification/Conformance.thy ===== *)
theory Conformance
  imports Wording Touch Sample_Store
begin

text \<open>
  The repository's own unit tests, evaluated on the model: \<open>path/tests.rs\<close>, the tests of \<open>sql.rs\<close> and of
  \<open>write/touch.rs\<close>, each under the name it has there, on the values it has there. Where a test asks
  the message of a refusal, so does the lemma. The tests of \<open>account_segment\<close> and of the fingerprint need
  the \<open>uuid\<close> crate and SHA-256 and are not among them.
\<close>

definition is_refused :: "status + 'a \<Rightarrow> bool" where
  "is_refused r \<longleftrightarrow> (case r of Inl e \<Rightarrow> code_of e = Invalid_argument | Inr _ \<Rightarrow> False)"

definition is_accepted :: "status + 'a \<Rightarrow> bool" where
  "is_accepted r \<longleftrightarrow> (case r of Inl _ \<Rightarrow> False | Inr _ \<Rightarrow> True)"

fun contains :: "string \<Rightarrow> string \<Rightarrow> bool" where
  "contains [] s \<longleftrightarrow> s = []"
| "contains (c # cs) s \<longleftrightarrow> take (length s) (c # cs) = s \<or> contains cs s"

definition says :: "status + 'a \<Rightarrow> string \<Rightarrow> bool" where
  "says r s \<longleftrightarrow> (case r of Inl e \<Rightarrow> contains (message (\<lambda>u. u) (reason_of e)) s | Inr _ \<Rightarrow> False)"

text \<open>The sentinel root of the tests.\<close>

definition sentinel_root :: string where
  "sentinel_root = ''pangolin-7c21''"

section \<open>\<open>path/tests.rs\<close>\<close>

lemma the_reserved_root_is_refused_and_the_refusal_names_it:
  "is_refused (refuse_reserved_root ''path'' ''local'')" "says (refuse_reserved_root ''path'' ''local'') ''local''"
  by code_simp+

lemma a_project_beneath_the_reserved_root_and_a_look_alike_are_both_allowed:
  "list_all (\<lambda>p. is_accepted (refuse_reserved_root ''path'' p))
     [''local/home/max/src/thing'', ''local/x'', ''locals'', ''local-mirror'', ''local.internal'', ''notlocal'']"
  by code_simp

lemma the_private_class_is_the_segment_beneath_the_reserved_root_in_any_case:
  "list_all (\<lambda>p. is_private_class p \<and> sql_like general_ci ''local/%'' p)
     [''local/jaguar/thing'', ''LOCAL/jaguar/thing'', ''LoCaL/x'', ''local/x'', ''local/'']"
  "list_all (\<lambda>p. \<not> is_private_class p \<and> \<not> sql_like general_ci ''local/%'' p)
     [''local'', ''LOCAL'', ''locals'', ''locals/x'', ''local-mirror/x'', ''local.internal/x'', ''notlocal/x'',
      ''pangolin/local/x'', '''']"
  by code_simp+

lemma the_reserved_root_is_still_a_legal_path_to_the_grammar: "is_accepted (validate ''path'' ''local'')"
  by code_simp

lemma every_ascii_case_spelling_of_the_reserved_root_is_refused_and_named:
  "list_all (\<lambda>sent. is_refused (refuse_reserved_root ''path'' sent) \<and> says (refuse_reserved_root ''path'' sent) sent)
     [''LOCAL'', ''LoCaL'', ''Local'', ''locaL'']"
  by code_simp

definition ALPHABET :: string where
  "ALPHABET = ''ABCDEFGHIJKLMNOPQRSTUVWXYZabcdefghijklmnopqrstuvwxyz0123456789._-''"

lemma the_segment_alphabet_is_ascii_only_which_is_what_bounds_the_collation_guard:
  "segment_is_legal [CHR ''x'', c] \<longleftrightarrow> c \<in> set ALPHABET"
  "is_accepted (validate ''path'' (sentinel_root @ ''/a-b_c.d''))"
  "is_refused (validate ''path'' (sentinel_root @ ''/caf'' @ [CHR 0xC3, CHR 0xA9]))"
proof -
  have bytes: "map byte ALPHABET = [65..<91] @ [97..<123] @ [48..<58] @ [46, 95, 45]" by code_simp
  have "c \<in> set ALPHABET \<longleftrightarrow> byte c \<in> set (map byte ALPHABET)" by auto
  also have "\<dots> \<longleftrightarrow> is_ascii_alphanumeric c \<or> byte c \<in> {46, 95, 45}"
    unfolding bytes set_append set_upt is_ascii_alphanumeric_def is_ascii_lowercase_def is_ascii_digit_def by auto
  also have "\<dots> \<longleftrightarrow> is_ascii_alphanumeric c \<or> c \<in> {CHR ''.'', CHR ''_'', CHR ''-''}"
    unfolding insert_iff byte_inject[symmetric] by (simp add: byte_def)
  finally show "segment_is_legal [CHR ''x'', c] \<longleftrightarrow> c \<in> set ALPHABET"
    by (simp add: segment_is_legal_def) (simp add: is_ascii_alphanumeric_def is_ascii_lowercase_def byte_def)
qed (code_simp+)

lemma an_ancestor_chain_is_deepest_first_and_ends_at_the_root_segment:
  "ancestors (sentinel_root @ ''/wfm/forecast'') = [sentinel_root @ ''/wfm/forecast'', sentinel_root @ ''/wfm'', sentinel_root]" "ancestors sentinel_root = [sentinel_root]"
  by code_simp+

lemma a_sibling_sharing_a_prefix_is_not_an_ancestor:
  "\<not> list_ex (\<lambda>p. p = sentinel_root @ ''/team'') (ancestors (sentinel_root @ ''/teamx/svc''))"
  "list_ex (\<lambda>p. p = sentinel_root) (ancestors (sentinel_root @ ''/teamx/svc''))"
  by code_simp+

lemma a_single_segment_is_a_legal_path: "is_accepted (validate ''path'' sentinel_root)"
  by code_simp

lemma prose_is_refused_and_the_refusal_names_the_segment:
  "is_refused (validate ''path'' ''debugging opsecrets nixos-quinyx'')"
  "says (validate ''path'' ''debugging opsecrets nixos-quinyx'') ''debugging opsecrets nixos-quinyx''"
  by code_simp+

lemma the_shapes_that_are_not_paths_are_refused:
  "list_all (\<lambda>bad. is_refused (validate ''path'' bad))
     ['''', ''/leading'', ''trailing/'', ''double//segment'', ''with space/x'', ''wild%card/x'',
      ''under'' @ [CHR 0x09] @ ''score-is-fine-but-not-a-tab/x'', ''dot/./x'', ''up/../x'']"
  by code_simp

lemma an_underscore_is_a_legal_segment_character: "is_accepted (validate ''path'' (sentinel_root @ ''/a_b''))"
  by code_simp

lemma a_path_wider_than_the_column_is_refused_without_being_echoed:
  "is_refused (validate ''path'' (sentinel_root @ ''/'' @ replicate 255 (CHR ''x'')))"
  "\<not> says (validate ''path'' (sentinel_root @ ''/'' @ replicate 255 (CHR ''x''))) (sentinel_root @ ''/'' @ replicate 255 (CHR ''x''))"
  "says (validate ''path'' (sentinel_root @ ''/'' @ replicate 255 (CHR ''x''))) ''255''"
  by code_simp+

definition account :: string where
  "account = ''0192f3a4-5b6c-7d8e-9f01-23456789abc1''"

lemma only_the_canonical_spelling_of_the_callers_own_root_is_under_it:
  "list_all (\<lambda>p. is_under_own_root p account) [''local/'' @ account, ''local/'' @ account @ ''/home/max/git/alpha'']"
  "list_all (\<lambda>p. \<not> is_under_own_root p account)
     [''local'', ''local/0192f3a4-5b6c-7d8e-9f01-23456789abc2/x'',
      ''local/0192F3A4-5B6C-7D8E-9F01-23456789ABC1/x'', ''LOCAL/'' @ account @ ''/x'', ''local/'' @ account @ ''x/y'',
      ''local/0192f3a4-5b6c-7d8e-9f01-23456789abc'', ''locals/'' @ account, ''acme/'' @ account]"
  by code_simp+

section \<open>\<open>sql.rs\<close>\<close>

lemma a_subtree_pattern_neutralises_the_underscore_wildcard:
  "subtree (sentinel_root @ ''/a_b'') = sentinel_root @ ''/a'' @ [backslash] @ ''_b/%''" "\<not> contains (subtree (sentinel_root @ ''/a_b'')) ''a_b''"
  by code_simp+

lemma a_subtree_pattern_is_a_subtree_and_not_a_prefix: "subtree (sentinel_root @ ''/team'') = sentinel_root @ ''/team/%''"
  by code_simp

lemma the_backslash_is_escaped_before_the_metacharacters_it_would_otherwise_escape:
  "like_escape (''a'' @ [backslash] @ ''_b'') = ''a'' @ [backslash, backslash, backslash] @ ''_b''"
  by code_simp

section \<open>\<open>write/touch.rs\<close>\<close>

definition sentinel_path :: string where
  "sentinel_path = sentinel_root @ ''/alpha''"

definition SHOUTED :: string where
  "SHOUTED = ''PANGOLIN-7C21/ALPHA''"

lemma two_ascii_case_spellings_of_one_path_are_one_path: "length (deduplicated [sentinel_path, SHOUTED]) = 1"
  by code_simp

lemma the_same_spelling_twice_is_one_path: "length (deduplicated [sentinel_path, sentinel_path]) = 1"
  by code_simp

lemma two_spellings_of_one_path_are_still_one_when_another_path_sorts_between_them:
  "length (deduplicated [sentinel_path, SHOUTED, ''PANGOLIN-7C21/BRAVO'']) = 2"
  by code_simp

lemma paths_that_differ_by_more_than_case_stay_separate:
  "length (deduplicated [sentinel_path, ''pangolin-7c21/bravo'', ''pangolin-7c21_alpha'']) = 3"
  by code_simp

lemma the_survivor_is_a_spelling_the_caller_offered:
  "case deduplicated [sentinel_path, SHOUTED] of [kept] \<Rightarrow> kept = sentinel_path \<or> kept = SHOUTED | _ \<Rightarrow> False"
  by code_simp

end
