(* ===== verification/Spec2Isabelle.thy ===== *)
theory Spec2Isabelle
  imports Read_Examples Service_Examples Sync_Examples Schema_Examples Boot_Examples Contract_Examples
    Conformance
begin

text \<open>
  A verification library for \<open>project-db\<close>, the registry of project paths: a gRPC service over one
  MariaDB schema. It registers private projects (\<open>RegisterProject\<close>), makes the organisation's
  projects equal to a declaration (\<open>SyncProjects\<close>), records when projects were last seen
  (\<open>TouchProjects\<close>) and answers \<open>ResolveProject\<close>, \<open>GetProject\<close> and \<open>ListProjects\<close>; \<open>RenameProject\<close>
  and \<open>ArchiveProject\<close> are declared and held back.

  \<^bold>\<open>How the program is put together.\<close> \<open>src/main.rs\<close> reads its configuration (\<open>boot.rs\<close>), probes the
  engine, applies the migrations (\<open>schema.rs\<close>) and serves. A handler (\<open>service.rs\<close>) names the caller,
  records the call and runs one operation of \<open>read.rs\<close>, \<open>write/register.rs\<close>, \<open>write/touch.rs\<close> or
  \<open>write/sync.rs\<close> with \<open>write/grants.rs\<close>. An operation checks its request (\<open>path.rs\<close>, \<open>sql.rs\<close>), takes
  one connection within the caller's deadline (\<open>pooled.rs\<close>) and runs its statements, in a transaction
  when it writes; \<open>idem.rs\<close> is the ledger that makes a repeated registration answer the first answer.

  \<^bold>\<open>How it is modelled.\<close> A string is its UTF-8 bytes. A request, a response, a row is a record with the
  fields of the contract or of the table. A refusal is a status: a code, and a constructor per
  message carrying what the message interpolates. A transaction body is a state transformer over the
  transaction's view of the tables; the ENVIRONMENT of a call (\<open>Tx.env\<close>) says everything the code does
  not decide: which statement the engine fails and how, the clock, the minted ids, the pool, whether a
  failed \<open>COMMIT\<close> landed, the digests and codecs. A theorem that says nothing of the environment's
  faults holds for every way the engine can fail.

  \<^bold>\<open>The theories.\<close>

  \<^item> \<open>Prelude\<close>, \<open>Rust_Str\<close>: lists and keys; the operations of Rust's \<open>str\<close>, \<open>Vec\<close> and numbers as text.
  \<^item> \<open>Statuses\<close>, \<open>Paths\<close> (\<open>path.rs\<close>), \<open>Sql_Text\<close>, \<open>Scopes\<close> (\<open>sql.rs\<close>), \<open>Messages\<close> (the contract),
    \<open>Rows\<close> (\<open>rows.rs\<close>): the grammar of a path is decided exactly; the ancestors of a path are its
    proper prefixes, longest first; a request id is capped without splitting a character. What the
    path columns rest on is the locale \<open>path_collation\<close>, interpreted on \<open>utf8mb4_general_ci\<close>.
  \<^item> \<open>Store\<close>: the five tables and the statements the code executes. \<open>Ddl\<close>, \<open>Migrations\<close>,
    \<open>Migrations_Spec\<close>, \<open>Schema_Spec\<close> (\<open>schema.rs\<close>): the SQL the migrations are written in, the
    migrations, what they promise - an older store upgrades to a fresh one or is refused, a cut
    migration from the fourth on can be run again, the fifth where its table is its own - and the proof that \<open>Store\<close> is what they create. \<open>Pin\<close>: the one case in
    which pinning the collation of the path columns fails on a store with rows.
  \<^item> \<open>Tx\<close>, \<open>Acquire\<close>, \<open>Connection\<close> (\<open>pooled.rs\<close>): the bounded acquire and its wait against the clock,
    the transaction around a body, and a connection through handlers that can be dropped at any
    await. \<open>Invariant\<close>: when a store is good, and that the statements keep it so.
  \<^item> \<open>Idem\<close> (\<open>idem.rs\<close>); \<open>Register\<close>, \<open>Register_Spec\<close>, \<open>Register_Live\<close> (\<open>write/register.rs\<close>): exactly what a
    registration does, that it lands, that a repeat replays, that a refusal is no oracle.
  \<^item> \<open>Touch\<close>, \<open>Touch_Spec\<close>, \<open>Touch_Warning\<close>, \<open>Touch_Among\<close> (\<open>write/touch.rs\<close>): only forward, in any
    order, to the same store; exactly when a flush warns; and what others that commit between its two
    statements change of that.
  \<^item> \<open>Grants\<close>, \<open>Sync\<close>, \<open>Sync_Rows\<close>, \<open>Sync_Grants\<close>, \<open>Sync_Converge\<close>, \<open>Sync_Writes\<close>, \<open>Sync_Run\<close>,
    \<open>Sync_Spec\<close>, \<open>Sync_Live\<close> (\<open>write/sync.rs\<close>, \<open>write/grants.rs\<close>): a sync that answers has brought the
    store to the declaration; it is idempotent; without its flags it archives and revokes at most
    half; an admissible declaration lands. \<open>Two_Runs\<close>, \<open>Sync_Blind\<close>: a logic of two runs of one body, and by it that
    a sync is blind to private projects - two stores that differ in nothing else are answered alike
    and end alike - and leaves them, the former paths and the ledger as they are. \<open>Commute\<close>: a registration and a sync can commit in either order.
  \<^item> \<open>Read\<close>, \<open>Read_Resolve\<close>, \<open>Read_Page\<close>, \<open>Pagination\<close>, \<open>Read_After_Write\<close> (\<open>read.rs\<close>): a resolution is the
    walk up the path, the pages of a listing are all of it once, and a read after a write sees it.
    \<open>Read_Torn\<close>: what \<open>GetProject\<close> and \<open>ListProjects\<close> answer while others commit between their statements.
  \<^item> \<open>Service\<close>, \<open>Service_Spec\<close> (\<open>service.rs\<close>, \<open>write.rs\<close>, \<open>write/sync/recorded.rs\<close>): the handlers and what
    a call's record holds. \<open>Registry\<close>: the contract every rpc keeps (the locale \<open>registry_rpc\<close>, interpreted
    on the six rpcs and on the dispatcher). \<open>History\<close>: what holds after any sequence of calls.
    \<open>Contract_Types\<close>: every answer has the type the contract's comments give it. \<open>Pagination_Live\<close>:
    the pages of a listing read while the registry keeps serving others.
  \<^item> \<open>Debug_Str\<close>, \<open>Wording\<close>, \<open>Wording_Spec\<close>: the words of every refusal, what \<open>Debug\<close> writes for the
    values they repeat, and that no value a caller sends breaks out of its line or of its quotes.
  \<^item> \<open>Boot\<close>, \<open>Boot_Spec\<close>, \<open>Boot_Sentences\<close> (\<open>boot.rs\<close>, \<open>boot/lock.rs\<close>, \<open>boot/serve_tls.rs\<close>): the knobs, what
    refuses them, and the sentence it is refused with: this module's, or the store's of a TLS mode. \<open>Boot_Order\<close>, \<open>Process\<close> (\<open>main.rs\<close>, \<open>rotate.rs\<close>):
    what has succeeded before the engine is touched or a socket opened, what ends a serve, the exit
    status and what is printed with it, and the files the process watches.
  \<^item> \<open>Sample\<close>, \<open>Sample_Store\<close> and the theories named \<open>_Examples\<close>: one environment and small stores on
    which the theorems are applied.
  \<^item> \<open>Conformance\<close>: the repository's own unit tests of \<open>path.rs\<close>, \<open>sql.rs\<close> and \<open>touch.rs\<close>, evaluated on the
    model.

  \<^bold>\<open>Parameters.\<close> The weight strings of the engine's collations (\<open>ci_key\<close> for the two path columns pinned
  to \<open>utf8mb4_general_ci\<close>, \<open>srv_key\<close> for the columns left on the server's default): of the first the
  locale \<open>path_collation\<close> assumes that within the alphabet of a path it folds ASCII case and nothing
  else, which \<open>schema.rs\<close> records as measured. The parser of the \<open>uuid\<close> crate, SHA-256, the protobuf
  codecs and \<open>encoded_len\<close>, the minted ids (distinct and new where a theorem of success says so), the
  pool, \<open>yadgar_dial::Deadline\<close>, \<open>yadgar-store\<close>'s SSL modes and lock options, the widths of its
  configuration's numbers, the capabilities its probe reports, \<open>yadgar-lifecycle\<close>'s listener, drain and
  watcher, the parser of socket addresses, and which characters beyond ASCII \<open>Debug\<close> escapes.

  \<^bold>\<open>Bounds.\<close> Loops are structural recursion, or recursion with a proved measure (\<open>ancestors\<close>, \<open>trim\<close>,
  \<open>decimal\<close>). The client that follows page tokens is given one call more than there are projects,
  which \<open>Pagination\<close> proves is enough. The counters of a sync are 32-bit words.

  \<^bold>\<open>Concurrency.\<close> Transactions are serial: each runs on the store the last one left. For two syncs that
  is what the sentinel row they lock first enforces; for two registrations of one path or one key it
  is the unique key the second one meets (\<open>is_duplicate\<close>); a registration and a sync, which write no
  row of each other's class, commute (\<open>Commute\<close>), as flushes do. Two operations are more than one
  moment, and are also modelled with any calls served in between: the reads of three statements that
  no transaction holds together (\<open>Read_Torn\<close>; \<open>ResolveProject\<close> is one statement), and the \<open>COUNT\<close> of a flush,
  which sees what was committed since its \<open>UPDATE\<close> (\<open>Touch_Among\<close>). Alone they are the serial ones
  (\<open>alone\<close>, \<open>touch_alone\<close>). What a \<open>REPEATABLE READ\<close> snapshot shows a registration or a sync beside
  another's uncommitted writes is not modelled.

  \<^bold>\<open>Simplified.\<close> A row's \<open>version\<close> has no upper bound. Which of several former paths the refusal of a
  sync names is the engine's choice and here the oldest (\<open>refuse_aliases\<close>).

  \<^bold>\<open>Not modelled.\<close> Log lines, other than the warning of a flush, and the filter \<open>RUST_LOG\<close> sets; the
  metrics endpoint, whose failure changes nothing; the listener's transport and limits, the poll of
  the watched files and the runner of the migrations with its ledger, which are libraries this
  repository calls; \<open>build.rs\<close>, \<open>lib.rs\<close> and the generated gRPC code; the chart and the scripts.
\<close>

end
